(* ===== verification/Thing_Prelude.thy ===== *)
theory Thing_Prelude
  imports Main "HOL-Library.AList"
begin

text \<open>
  Shared vocabulary of the development.

  \<^item> Go errors as values (\<open>goerror\<close>) and the result type \<open>'a go_result\<close> of a Go function that
    returns \<open>(value, error)\<close>; a panic is an error value of its own, which callers that only
    inspect ordinary errors must let through.
  \<^item> The functions of the package \<^verbatim>\<open>strings\<close> and \<^verbatim>\<open>strconv\<close> that the sources call, on
    byte strings (type \<open>string\<close>). Case mapping and white space are those of ASCII.
  \<^item> Go maps as association lists (\<open>gomap\<close>): \<open>map_of\<close> reads, \<open>AList.update\<close> writes,
    \<open>AList.delete\<close> deletes, and the list order stands for one iteration order.
  \<^item> Generic lemmas and the collections \<open>str_simps\<close> and \<open>gomap_simps\<close>.
\<close>

named_theorems str_simps \<open>unfolding rules for the string functions\<close>
named_theorems gomap_simps \<open>reading a Go map after a write or a delete\<close>

section \<open>Errors\<close>

datatype goerror =
    ErrNotFound
  | ErrLockNotAcquired
  | ErrCacheNoneResult
  | ErrQueryCacheNoneResult
  | ErrCanceled
  | OutOfFuel
  | Panic string
  | Errorf string
  | Wrapped string goerror

type_synonym 'a go_result = "goerror + 'a"

fun errors_is :: "goerror \<Rightarrow> goerror \<Rightarrow> bool" where
  "errors_is (Wrapped m e) t = (Wrapped m e = t \<or> errors_is e t)"
| "errors_is e t = (e = t)"

fun is_panic :: "goerror \<Rightarrow> bool" where
  "is_panic (Panic _) = True"
| "is_panic (Wrapped _ e) = is_panic e"
| "is_panic _ = False"

fun bindE :: "'a go_result \<Rightarrow> ('a \<Rightarrow> 'b go_result) \<Rightarrow> 'b go_result" where
  "bindE (Inl e) f = Inl e"
| "bindE (Inr x) f = f x"

lemma bindE_Inr_iff [simp]: "bindE r f = Inr y \<longleftrightarrow> (\<exists>x. r = Inr x \<and> f x = Inr y)"
  by (cases r) auto

lemma bindE_Inl_iff: "bindE r f = Inl e \<longleftrightarrow> r = Inl e \<or> (\<exists>x. r = Inr x \<and> f x = Inl e)"
  by (cases r) auto

lemma bindE_cong [fundef_cong]:
  "r = r' \<Longrightarrow> (\<And>x. r' = Inr x \<Longrightarrow> f x = g x) \<Longrightarrow> bindE r f = bindE r' g"
  by (cases r') auto

section \<open>Byte strings\<close>

definition has_prefix :: "string \<Rightarrow> string \<Rightarrow> bool" where
  "has_prefix s p \<longleftrightarrow> take (length p) s = p"

definition has_suffix :: "string \<Rightarrow> string \<Rightarrow> bool" where
  "has_suffix s p \<longleftrightarrow> length p \<le> length s \<and> drop (length s - length p) s = p"

definition trim_prefix :: "string \<Rightarrow> string \<Rightarrow> string" where
  "trim_prefix s p = (if has_prefix s p then drop (length p) s else s)"

definition trim_suffix :: "string \<Rightarrow> string \<Rightarrow> string" where
  "trim_suffix s p = (if has_suffix s p then take (length s - length p) s else s)"

fun str_contains :: "string \<Rightarrow> string \<Rightarrow> bool" where
  "str_contains [] t \<longleftrightarrow> t = []"
| "str_contains (c # s) t \<longleftrightarrow> has_prefix (c # s) t \<or> str_contains s t"

definition trim_by :: "(char \<Rightarrow> bool) \<Rightarrow> string \<Rightarrow> string" where
  "trim_by P s = rev (dropWhile P (rev (dropWhile P s)))"

definition is_space :: "char \<Rightarrow> bool" where
  "is_space c \<longleftrightarrow> c = CHR '' '' \<or> c = CHR 0x09 \<or> c = CHR 0x0A \<or> c = CHR 0x0B \<or> c = CHR 0x0C \<or> c = CHR 0x0D"

definition trim_space :: "string \<Rightarrow> string" where
  "trim_space = trim_by is_space"

definition trim_cutset :: "string \<Rightarrow> string \<Rightarrow> string" where
  "trim_cutset s cs = trim_by (\<lambda>c. c \<in> set cs) s"

definition to_lower_char :: "char \<Rightarrow> char" where
  "to_lower_char c = (let n = (of_char c :: nat) in if 65 \<le> n \<and> n \<le> 90 then char_of (n + 32) else c)"

definition to_upper_char :: "char \<Rightarrow> char" where
  "to_upper_char c = (let n = (of_char c :: nat) in if 97 \<le> n \<and> n \<le> 122 then char_of (n - 32) else c)"

definition to_lower :: "string \<Rightarrow> string" where
  "to_lower = map to_lower_char"

definition to_upper :: "string \<Rightarrow> string" where
  "to_upper = map to_upper_char"

definition equal_fold :: "string \<Rightarrow> string \<Rightarrow> bool" where
  "equal_fold s t \<longleftrightarrow> to_lower s = to_lower t"

text \<open>\<open>strings.Split\<close> on a one-byte separator.\<close>

fun split_on :: "char \<Rightarrow> string \<Rightarrow> string list" where
  "split_on d [] = [[]]"
| "split_on d (c # s) =
     (if c = d then [] # split_on d s
      else case split_on d s of w # ws \<Rightarrow> (c # w) # ws | [] \<Rightarrow> [[c]])"

text \<open>\<open>strings.Fields\<close>: the maximal runs of non-space bytes.\<close>

fun fields_from :: "string \<Rightarrow> string \<Rightarrow> string list" where
  "fields_from w [] = (if w = [] then [] else [rev w])"
| "fields_from w (c # s) =
     (if is_space c then (if w = [] then fields_from [] s else rev w # fields_from [] s)
      else fields_from (c # w) s)"

definition str_fields :: "string \<Rightarrow> string list" where
  "str_fields s = fields_from [] s"

fun str_join :: "string list \<Rightarrow> string \<Rightarrow> string" where
  "str_join [] sep = []"
| "str_join [s] sep = s"
| "str_join (s # t # ss) sep = s @ sep @ str_join (t # ss) sep"

lemma has_prefix_Nil [simp]: "has_prefix s []"
  by (simp add: has_prefix_def)

lemma has_prefix_iff: "has_prefix s p \<longleftrightarrow> (\<exists>r. s = p @ r)"
  by (auto simp: has_prefix_def) (metis append_take_drop_id)

lemma has_suffix_iff: "has_suffix s p \<longleftrightarrow> (\<exists>r. s = r @ p)"
  by (auto simp: has_suffix_def) (metis append_take_drop_id)

lemma str_contains_iff: "str_contains s t \<longleftrightarrow> (\<exists>a b. s = a @ t @ b)"
proof (induction s)
  case Nil
  then show ?case by auto
next
  case (Cons c s)
  show ?case
  proof
    assume "str_contains (c # s) t"
    then consider (pre) r where "c # s = t @ r" | (later) a b where "s = a @ t @ b"
      using Cons.IH by (auto simp: has_prefix_iff)
    then show "\<exists>a b. c # s = a @ t @ b"
    proof cases
      case pre
      then show ?thesis by (metis append_Nil)
    next
      case later
      then show ?thesis by (metis append_Cons)
    qed
  next
    assume "\<exists>a b. c # s = a @ t @ b"
    then obtain a b where ab: "c # s = a @ t @ b" by blast
    show "str_contains (c # s) t"
    proof (cases a)
      case Nil
      with ab have "has_prefix (c # s) t" unfolding has_prefix_iff by simp
      then show ?thesis by simp
    next
      case (Cons x a')
      with ab have "s = a' @ t @ b" by simp
      with Cons.IH have "str_contains s t" by blast
      then show ?thesis by simp
    qed
  qed
qed

lemma split_on_nonempty [simp]: "split_on d s \<noteq> []"
  by (induction s) (auto split: list.splits)

lemma dropWhile_id: "(s \<noteq> [] \<Longrightarrow> \<not> P (hd s)) \<Longrightarrow> dropWhile P s = s"
  by (cases s) auto

lemma trim_by_id:
  assumes "s \<noteq> [] \<Longrightarrow> \<not> P (hd s)" and "s \<noteq> [] \<Longrightarrow> \<not> P (last s)"
  shows "trim_by P s = s"
proof -
  have "dropWhile P s = s" using assms(1) by (rule dropWhile_id)
  moreover have "dropWhile P (rev s) = rev s"
    using assms(2) by (intro dropWhile_id) (simp add: hd_rev)
  ultimately show ?thesis by (simp add: trim_by_def)
qed

section \<open>Decimal numerals: \<open>strconv.FormatInt\<close> and \<open>strconv.ParseInt\<close>\<close>

definition digit_char :: "nat \<Rightarrow> char" where
  "digit_char d = char_of (48 + d)"

definition is_digit :: "char \<Rightarrow> bool" where
  "is_digit c \<longleftrightarrow> 48 \<le> (of_char c :: nat) \<and> (of_char c :: nat) \<le> 57"

definition digit_val :: "char \<Rightarrow> nat" where
  "digit_val c = of_char c - 48"

fun nat_dec :: "nat \<Rightarrow> string" where
  "nat_dec n = (if n < 10 then [digit_char n] else nat_dec (n div 10) @ [digit_char (n mod 10)])"

declare nat_dec.simps [simp del]

definition format_int :: "int \<Rightarrow> string" where
  "format_int i = (if i < 0 then CHR ''-'' # nat_dec (nat (- i)) else nat_dec (nat i))"

definition digits_val :: "string \<Rightarrow> nat" where
  "digits_val s = foldl (\<lambda>n c. 10 * n + digit_val c) 0 s"

definition parse_digits :: "string \<Rightarrow> nat option" where
  "parse_digits s = (if s \<noteq> [] \<and> list_all is_digit s then Some (digits_val s) else None)"

definition min_int64 :: int where "min_int64 = - (2 ^ 63)"
definition max_int64 :: int where "max_int64 = 2 ^ 63 - 1"

definition in_int64 :: "int \<Rightarrow> bool" where
  "in_int64 i \<longleftrightarrow> min_int64 \<le> i \<and> i \<le> max_int64"

text \<open>\<open>ParseInt(s, 10, 64)\<close>: an optional sign, one digit or more, and the range of \<open>int64\<close>.\<close>

definition parse_int :: "string \<Rightarrow> int option" where
  "parse_int s =
     (case s of
        [] \<Rightarrow> None
      | c # r \<Rightarrow>
          (let (neg, ds) = (if c = CHR ''-'' then (True, r) else if c = CHR ''+'' then (False, r) else (False, s))
           in case parse_digits ds of
                None \<Rightarrow> None
              | Some n \<Rightarrow>
                  (let v = (if neg then - int n else int n) in if in_int64 v then Some v else None)))"

lemma digit_char_props:
  assumes "d < 10"
  shows "is_digit (digit_char d)" and "digit_val (digit_char d) = d"
proof -
  have "(of_char (digit_char d) :: nat) = 48 + d"
    using assms by (simp add: digit_char_def)
  then show "is_digit (digit_char d)" and "digit_val (digit_char d) = d"
    using assms by (auto simp: is_digit_def digit_val_def)
qed

lemma nat_dec_digits: "list_all is_digit (nat_dec n)" "nat_dec n \<noteq> []"
proof (induction n rule: nat_dec.induct)
  case (1 n)
  { case 1
    show ?case using "1.IH"(1) by (subst nat_dec.simps) (auto simp: digit_char_props) }
  { case 2
    show ?case by (subst nat_dec.simps) simp }
qed

lemma digits_val_append: "digits_val (s @ [c]) = 10 * digits_val s + digit_val c"
  by (simp add: digits_val_def)

lemma digits_val_nat_dec: "digits_val (nat_dec n) = n"
proof (induction n rule: nat_dec.induct)
  case (1 n)
  show ?case
  proof (cases "n < 10")
    case True
    then show ?thesis by (subst nat_dec.simps) (simp add: digits_val_def digit_char_props)
  next
    case False
    with 1 have "digits_val (nat_dec (n div 10)) = n div 10" by blast
    with False show ?thesis
      by (subst nat_dec.simps) (simp add: digits_val_append digit_char_props)
  qed
qed

lemma parse_digits_nat_dec [simp]: "parse_digits (nat_dec n) = Some n"
  by (simp add: parse_digits_def nat_dec_digits digits_val_nat_dec)

lemma nat_dec_hd:
  assumes "nat_dec n = c # r"
  shows "c \<noteq> CHR ''-'' \<and> c \<noteq> CHR ''+''"
proof -
  have "is_digit c" using nat_dec_digits(1)[of n] assms by simp
  then show ?thesis by (auto simp: is_digit_def)
qed

lemma nat_dec_inj: "nat_dec m = nat_dec n \<Longrightarrow> m = n"
  by (metis digits_val_nat_dec)

lemma format_int_inj: "format_int i = format_int j \<Longrightarrow> i = j"
proof -
  assume eq: "format_int i = format_int j"
  have neg: "nat_dec n \<noteq> CHR ''-'' # r" for n r using nat_dec_hd[of n] by auto
  show "i = j"
    using eq neg nat_dec_inj[of "nat (- i)" "nat (- j)"] nat_dec_inj[of "nat i" "nat j"]
    by (auto simp: format_int_def split: if_splits) (metis neg)+
qed

text \<open>The counter values the cache stores as text are read back unchanged.\<close>

lemma parse_int_format_int:
  assumes "in_int64 i"
  shows "parse_int (format_int i) = Some i"
proof (cases "i < 0")
  case True
  then show ?thesis using assms by (simp add: format_int_def parse_int_def)
next
  case False
  obtain c r where cr: "nat_dec (nat i) = c # r"
    using nat_dec_digits(2) by (cases "nat_dec (nat i)") auto
  have "parse_digits (c # r) = Some (nat i)"
    by (simp flip: cr)
  then show ?thesis
    using False assms nat_dec_hd[OF cr] by (simp add: format_int_def parse_int_def cr)
qed

section \<open>Go maps\<close>

type_synonym ('k, 'v) gomap = "('k \<times> 'v) list"
type_synonym keyset = "(string, bool) gomap"

abbreviation gm_get :: "('k, 'v) gomap \<Rightarrow> 'k \<Rightarrow> 'v option" where
  "gm_get m k \<equiv> map_of m k"

abbreviation gm_set :: "'k \<Rightarrow> 'v \<Rightarrow> ('k, 'v) gomap \<Rightarrow> ('k, 'v) gomap" where
  "gm_set k v m \<equiv> AList.update k v m"

abbreviation gm_del :: "'k \<Rightarrow> ('k, 'v) gomap \<Rightarrow> ('k, 'v) gomap" where
  "gm_del k m \<equiv> AList.delete k m"

text \<open>Reading a missing key of a \<open>map[string]bool\<close> gives false.\<close>

definition ks_has :: "keyset \<Rightarrow> string \<Rightarrow> bool" where
  "ks_has m k \<longleftrightarrow> gm_get m k = Some True"

definition gm_keys :: "('k, 'v) gomap \<Rightarrow> 'k list" where
  "gm_keys m = map fst m"

lemma gm_get_set [gomap_simps, simp]: "gm_get (gm_set k v m) j = (if j = k then Some v else gm_get m j)"
  by (simp add: update_conv')

lemma gm_get_del [gomap_simps, simp]: "gm_get (gm_del k m) j = (if j = k then None else gm_get m j)"
  by (simp add: AList.delete_conv')

lemma set_gm_keys [simp]: "k \<in> set (gm_keys m) \<longleftrightarrow> gm_get m k \<noteq> None"
  by (auto simp: gm_keys_def map_of_eq_None_iff)

lemma distinct_gm_set: "distinct (map fst m) \<Longrightarrow> distinct (map fst (gm_set k v m))"
  by (rule distinct_update)

lemma distinct_gm_del: "distinct (map fst m) \<Longrightarrow> distinct (map fst (gm_del k m))"
  by (rule distinct_delete)

lemma gm_set_nonempty [simp]: "gm_set k v m \<noteq> []"
  by (cases m) auto

lemma gm_nonempty_get: "m \<noteq> [] \<Longrightarrow> \<exists>k v. gm_get m k = Some v"
  by (cases m) auto

lemma ks_has_set [gomap_simps, simp]: "ks_has (gm_set k True m) j \<longleftrightarrow> j = k \<or> ks_has m j"
  by (simp add: ks_has_def)

lemma ks_has_del [gomap_simps, simp]: "ks_has (gm_del k m) j \<longleftrightarrow> j \<noteq> k \<and> ks_has m j"
  by (simp add: ks_has_def)

lemma ks_has_Nil [simp]: "\<not> ks_has [] k"
  by (simp add: ks_has_def)

end
