(* ===== verification/Go_Values.thy ===== *)
theory Go_Values
  imports Thing_Prelude
begin

text \<open>
  The dynamic values that reach the ORM through \<open>interface{}\<close> and \<open>reflect.Value\<close>: field values
  of a model and arguments of a query.

  A value carries its Go type, as \<open>reflect\<close> sees it. Integers are mathematical integers with the
  width recorded in the type, and conversion to a width wraps (\<open>wrap_int\<close>, \<open>wrap_uint\<close>). A
  floating point number is not a number, an infinity or \<open>m * 2 ^ e\<close>; conversions round to nearest,
  ties to even. A time is an instant in nanoseconds and a location. Outside the model: named
  types, arrays, maps, functions, channels, and the sign of a floating point zero.
\<close>

section \<open>Types and values\<close>

datatype isize = S0 | S8 | S16 | S32 | S64
datatype fsize = F32 | F64

datatype gotype =
    TBool
  | TInt isize
  | TUint isize
  | TFloat fsize
  | TString
  | TTime
  | TPtr gotype
  | TSlice gotype
  | TIface

datatype gofloat = FNaN | FInf bool | FFin int int

datatype goval =
    VNil
  | VBool bool
  | VInt isize int
  | VUint isize int
  | VFloat fsize gofloat
  | VString string
  | VTime int nat
  | VPtr gotype "goval option"
  | VSlice gotype "goval list option"

datatype gokind = KInvalid | KBool | KInt | KUint | KFloat | KString | KStruct | KPtr | KSlice

fun kind_of :: "goval \<Rightarrow> gokind" where
  "kind_of VNil = KInvalid"
| "kind_of (VBool _) = KBool"
| "kind_of (VInt _ _) = KInt"
| "kind_of (VUint _ _) = KUint"
| "kind_of (VFloat _ _) = KFloat"
| "kind_of (VString _) = KString"
| "kind_of (VTime _ _) = KStruct"
| "kind_of (VPtr _ _) = KPtr"
| "kind_of (VSlice _ _) = KSlice"

fun type_of :: "goval \<Rightarrow> gotype option" where
  "type_of VNil = None"
| "type_of (VBool _) = Some TBool"
| "type_of (VInt s _) = Some (TInt s)"
| "type_of (VUint s _) = Some (TUint s)"
| "type_of (VFloat s _) = Some (TFloat s)"
| "type_of (VString _) = Some TString"
| "type_of (VTime _ _) = Some TTime"
| "type_of (VPtr t _) = Some (TPtr t)"
| "type_of (VSlice t _) = Some (TSlice t)"

text \<open>\<open>int\<close> and \<open>uint\<close> are 64 bits wide.\<close>

fun width :: "isize \<Rightarrow> nat" where
  "width S0 = 64" | "width S8 = 8" | "width S16 = 16" | "width S32 = 32" | "width S64 = 64"

definition wrap_uint :: "isize \<Rightarrow> int \<Rightarrow> int" where
  "wrap_uint s i = i mod 2 ^ width s"

definition wrap_int :: "isize \<Rightarrow> int \<Rightarrow> int" where
  "wrap_int s i = (i + 2 ^ (width s - 1)) mod 2 ^ width s - 2 ^ (width s - 1)"

lemma wrap_uint_range: "0 \<le> wrap_uint s i \<and> wrap_uint s i < 2 ^ width s"
  by (simp add: wrap_uint_def)

lemma wrap_int_range: "- (2 ^ (width s - 1)) \<le> wrap_int s i \<and> wrap_int s i < 2 ^ (width s - 1)"
proof -
  have "(2::int) ^ width s = 2 * 2 ^ (width s - 1)"
    by (cases s) simp_all
  moreover have "0 \<le> (i + 2 ^ (width s - 1)) mod 2 ^ width s"
    and "(i + 2 ^ (width s - 1)) mod 2 ^ width s < 2 ^ width s"
    by simp_all
  ultimately show ?thesis by (simp add: wrap_int_def)
qed

lemma wrap_int_id:
  assumes "- (2 ^ (width s - 1)) \<le> i" and "i < 2 ^ (width s - 1)"
  shows "wrap_int s i = i"
proof -
  have "(2::int) ^ width s = 2 * 2 ^ (width s - 1)"
    by (cases s) simp_all
  then show ?thesis using assms by (simp add: wrap_int_def)
qed

section \<open>Floating point numbers\<close>

function bitlen :: "int \<Rightarrow> int" where
  "bitlen n = (if n \<le> 0 then 0 else 1 + bitlen (n div 2))"
  by pat_completeness auto
termination
  by (relation "measure nat") auto

declare bitlen.simps [simp del]

fun mant_bits :: "fsize \<Rightarrow> int" where "mant_bits F32 = 24" | "mant_bits F64 = 53"
fun min_exp :: "fsize \<Rightarrow> int" where "min_exp F32 = -149" | "min_exp F64 = -1074"
fun top_exp :: "fsize \<Rightarrow> int" where "top_exp F32 = 128" | "top_exp F64 = 1024"

text \<open>\<open>scaled_div e a b\<close>: quotient, remainder and divisor of \<open>a / (b * 2 ^ e)\<close>.\<close>

definition scaled_div :: "int \<Rightarrow> int \<Rightarrow> int \<Rightarrow> int \<times> int \<times> int" where
  "scaled_div e a b =
     (let a' = (if e < 0 then a * 2 ^ nat (- e) else a);
          b' = (if e < 0 then b else b * 2 ^ nat e)
      in (a' div b', a' mod b', b'))"

definition round_half_even :: "int \<times> int \<times> int \<Rightarrow> int" where
  "round_half_even qrd = (case qrd of (q, r, d) \<Rightarrow> if d < 2 * r \<or> (2 * r = d \<and> odd q) then q + 1 else q)"

text \<open>The float of width \<open>fs\<close> nearest to \<open>a / b\<close> for \<open>0 \<le> a\<close> and \<open>0 < b\<close>, negated when \<open>neg\<close>.\<close>

definition round_ratio :: "fsize \<Rightarrow> bool \<Rightarrow> int \<Rightarrow> int \<Rightarrow> gofloat" where
  "round_ratio fs neg a b =
     (if a = 0 then FFin 0 0
      else
        let e0 = bitlen a - bitlen b - mant_bits fs;
            e1 = (if mant_bits fs < bitlen (fst (scaled_div e0 a b)) then e0 + 1 else e0);
            e = max e1 (min_exp fs);
            m = round_half_even (scaled_div e a b)
        in if top_exp fs < bitlen m + e then FInf neg
           else FFin (if neg then - m else m) e)"

definition float_of_int :: "fsize \<Rightarrow> int \<Rightarrow> gofloat" where
  "float_of_int fs i = round_ratio fs (i < 0) \<bar>i\<bar> 1"

fun resize_float :: "fsize \<Rightarrow> gofloat \<Rightarrow> gofloat" where
  "resize_float F64 f = f"
| "resize_float F32 FNaN = FNaN"
| "resize_float F32 (FInf n) = FInf n"
| "resize_float F32 (FFin m e) =
     (if 0 \<le> e then round_ratio F32 (m < 0) (\<bar>m\<bar> * 2 ^ nat e) 1
      else round_ratio F32 (m < 0) \<bar>m\<bar> (2 ^ nat (- e)))"

fun float_less :: "gofloat \<Rightarrow> gofloat \<Rightarrow> bool" where
  "float_less FNaN g = False"
| "float_less f FNaN = False"
| "float_less (FInf n) (FInf k) = (n \<and> \<not> k)"
| "float_less (FInf n) (FFin _ _) = n"
| "float_less (FFin _ _) (FInf k) = (\<not> k)"
| "float_less (FFin m d) (FFin k e) = (m * 2 ^ nat (d - min d e) < k * 2 ^ nat (e - min d e))"

fun float_eq :: "gofloat \<Rightarrow> gofloat \<Rightarrow> bool" where
  "float_eq (FInf n) (FInf k) = (n = k)"
| "float_eq (FFin m d) (FFin k e) = (m * 2 ^ nat (d - min d e) = k * 2 ^ nat (e - min d e))"
| "float_eq f g = False"

definition trunc_fin :: "int \<Rightarrow> int \<Rightarrow> int" where
  "trunc_fin m e = (if 0 \<le> e then m * 2 ^ nat e else sgn m * (\<bar>m\<bar> div 2 ^ nat (- e)))"

text \<open>
  \<open>int64(f)\<close> and \<open>uint64(f)\<close>: truncation. A value the target cannot represent is
  implementation-dependent in Go; here it is the bit pattern \<open>2 ^ 63\<close> of the common targets.
\<close>

fun float_to_int64 :: "gofloat \<Rightarrow> int" where
  "float_to_int64 (FFin m e) = (if in_int64 (trunc_fin m e) then trunc_fin m e else min_int64)"
| "float_to_int64 _ = min_int64"

fun float_to_uint64 :: "gofloat \<Rightarrow> int" where
  "float_to_uint64 (FFin m e) =
     (let v = trunc_fin m e
      in if 0 \<le> v \<and> v < 2 ^ 64 then v else if in_int64 v then v mod 2 ^ 64 else 2 ^ 63)"
| "float_to_uint64 _ = 2 ^ 63"

subsection \<open>\<open>strconv.ParseFloat\<close>\<close>

definition hex_val :: "char \<Rightarrow> nat option" where
  "hex_val c =
     (let n = (of_char (to_lower_char c) :: nat)
      in if 48 \<le> n \<and> n \<le> 57 then Some (n - 48) else if 97 \<le> n \<and> n \<le> 102 then Some (n - 87) else None)"

definition mant_digit :: "bool \<Rightarrow> char \<Rightarrow> nat option" where
  "mant_digit hex c = (if hex then hex_val c else if is_digit c then Some (digit_val c) else None)"

text \<open>Mantissa: value, digits after the dot, a dot seen, a digit seen, and the rest of the input.\<close>

fun read_mant :: "bool \<Rightarrow> int \<Rightarrow> nat \<Rightarrow> bool \<Rightarrow> bool \<Rightarrow> string \<Rightarrow> int \<times> nat \<times> bool \<times> string" where
  "read_mant hex m k dot seen [] = (m, k, seen, [])"
| "read_mant hex m k dot seen (c # s) =
     (if c = CHR ''_'' then read_mant hex m k dot seen s
      else if c = CHR ''.'' then
        (if dot then (m, k, seen, c # s) else read_mant hex m k True seen s)
      else case mant_digit hex c of
        Some d \<Rightarrow> read_mant hex ((if hex then 16 else 10) * m + int d) (if dot then Suc k else k) dot True s
      | None \<Rightarrow> (m, k, seen, c # s))"

fun read_exp :: "int \<Rightarrow> bool \<Rightarrow> string \<Rightarrow> int option" where
  "read_exp e seen [] = (if seen then Some e else None)"
| "read_exp e seen (c # s) =
     (if is_digit c then read_exp (if e < 10000 then 10 * e + int (digit_val c) else e) True s
      else if c = CHR ''_'' then read_exp e seen s
      else None)"

text \<open>\<open>underscoreOK\<close>: an underscore stands between digits (or after the base prefix).\<close>

fun underscore_scan :: "bool \<Rightarrow> char \<Rightarrow> string \<Rightarrow> bool" where
  "underscore_scan hex i [] = (i \<noteq> CHR ''_'')"
| "underscore_scan hex i (c # s) =
     (if is_digit c \<or> hex \<and> hex_val c \<noteq> None then underscore_scan hex CHR ''0'' s
      else if c = CHR ''_'' then (if i = CHR ''0'' then underscore_scan hex CHR ''_'' s else False)
      else if i = CHR ''_'' then False
      else underscore_scan hex CHR ''!'' s)"

definition strip_sign :: "string \<Rightarrow> bool \<times> string" where
  "strip_sign s =
     (case s of c # r \<Rightarrow> if c = CHR ''-'' then (True, r) else if c = CHR ''+'' then (False, r) else (False, s)
      | [] \<Rightarrow> (False, s))"

definition is_hex_prefix :: "string \<Rightarrow> bool" where
  "is_hex_prefix s \<longleftrightarrow> to_lower (take 2 s) = ''0x''"

definition read_float :: "string \<Rightarrow> gofloat option" where
  "read_float s =
     (let (neg, t) = strip_sign s;
          hex = (is_hex_prefix t \<and> 2 < length t);
          body = (if hex then drop 2 t else t);
          (m, k, seen, rest) = read_mant hex 0 0 False False body;
          under_ok = (CHR ''_'' \<notin> set t \<or> underscore_scan hex (if hex then CHR ''0'' else CHR ''.'') body);
          expo = (case rest of
                    [] \<Rightarrow> if hex then None else Some 0
                  | c # r \<Rightarrow>
                      if to_lower_char c = (if hex then CHR ''p'' else CHR ''e'') then
                        (let (eneg, ds) = strip_sign r
                         in map_option (\<lambda>e. if eneg then - e else e) (read_exp 0 False ds))
                      else None)
      in if \<not> seen \<or> \<not> under_ok then None
         else case expo of
           None \<Rightarrow> None
         | Some x \<Rightarrow>
             (let y = (if hex then x - 4 * int k else x - int k);
                  base = (if hex then 2 else 10);
                  f = (if 0 \<le> y then round_ratio F64 neg (m * base ^ nat y) 1
                       else round_ratio F64 neg m (base ^ nat (- y)))
              in case f of FInf _ \<Rightarrow> None | _ \<Rightarrow> Some f))"

definition parse_float :: "string \<Rightarrow> gofloat option" where
  "parse_float s =
     (let (neg, t) = strip_sign s; l = to_lower t
      in if l = ''inf'' \<or> l = ''infinity'' then Some (FInf neg)
         else if to_lower s = ''nan'' then Some FNaN
         else read_float s)"

section \<open>Conversion between types: \<open>ConvertibleTo\<close> and \<open>Convert\<close>\<close>

fun utf8_encode :: "int \<Rightarrow> string" where
  "utf8_encode i =
     (let r = (if i < 0 \<or> 0x10FFFF < i \<or> (0xD800 \<le> i \<and> i \<le> 0xDFFF) then 0xFFFD else nat i)
      in if r < 0x80 then [char_of r]
         else if r < 0x800 then [char_of (0xC0 + r div 64), char_of (0x80 + r mod 64)]
         else if r < 0x10000 then
           [char_of (0xE0 + r div 4096), char_of (0x80 + r div 64 mod 64), char_of (0x80 + r mod 64)]
         else
           [char_of (0xF0 + r div 262144), char_of (0x80 + r div 4096 mod 64),
            char_of (0x80 + r div 64 mod 64), char_of (0x80 + r mod 64)])"

definition is_numeric :: "gotype \<Rightarrow> bool" where
  "is_numeric t \<longleftrightarrow> (case t of TInt _ \<Rightarrow> True | TUint _ \<Rightarrow> True | TFloat _ \<Rightarrow> True | _ \<Rightarrow> False)"

text \<open>
  Strings convert to and from byte slices; the conversions between strings and slices of runes
  are left out (\<open>convertible\<close> is false there).
\<close>

definition convertible :: "gotype \<Rightarrow> gotype \<Rightarrow> bool" where
  "convertible t u \<longleftrightarrow>
     t = u \<or> u = TIface \<or>
     (is_numeric t \<and> is_numeric u) \<or>
     (u = TString \<and> (case t of TInt _ \<Rightarrow> True | TUint _ \<Rightarrow> True | TSlice (TUint S8) \<Rightarrow> True | _ \<Rightarrow> False)) \<or>
     (t = TString \<and> u = TSlice (TUint S8))"

fun to_int_value :: "goval \<Rightarrow> int option" where
  "to_int_value (VInt _ i) = Some i"
| "to_int_value (VUint _ i) = Some i"
| "to_int_value _ = None"

definition bytes_of_slice :: "goval list \<Rightarrow> string" where
  "bytes_of_slice vs = map (\<lambda>v. case to_int_value v of Some i \<Rightarrow> char_of (nat i) | None \<Rightarrow> CHR 0x00) vs"

fun convert_num :: "gotype \<Rightarrow> goval \<Rightarrow> goval option" where
  "convert_num (TInt s) v =
     (case v of VInt _ i \<Rightarrow> Some (VInt s (wrap_int s i))
      | VUint _ i \<Rightarrow> Some (VInt s (wrap_int s i))
      | VFloat _ f \<Rightarrow> Some (VInt s (wrap_int s (float_to_int64 f)))
      | _ \<Rightarrow> None)"
| "convert_num (TUint s) v =
     (case v of VInt _ i \<Rightarrow> Some (VUint s (wrap_uint s i))
      | VUint _ i \<Rightarrow> Some (VUint s (wrap_uint s i))
      | VFloat _ f \<Rightarrow> Some (VUint s (wrap_uint s (float_to_uint64 f)))
      | _ \<Rightarrow> None)"
| "convert_num (TFloat fs) v =
     (case v of VInt _ i \<Rightarrow> Some (VFloat fs (float_of_int fs i))
      | VUint _ i \<Rightarrow> Some (VFloat fs (float_of_int fs i))
      | VFloat _ f \<Rightarrow> Some (VFloat fs (resize_float fs f))
      | _ \<Rightarrow> None)"
| "convert_num TString v =
     (case v of VInt _ i \<Rightarrow> Some (VString (utf8_encode i))
      | VUint _ i \<Rightarrow> Some (VString (utf8_encode i))
      | VSlice t vs \<Rightarrow>
          if t = TUint S8 then Some (VString (case vs of None \<Rightarrow> [] | Some xs \<Rightarrow> bytes_of_slice xs)) else None
      | _ \<Rightarrow> None)"
| "convert_num (TSlice t) v =
     (case v of VString s \<Rightarrow>
        if t = TUint S8 then Some (VSlice t (Some (map (\<lambda>c. VUint S8 (int (of_char c))) s))) else None
      | _ \<Rightarrow> None)"
| "convert_num _ v = None"

definition convert :: "gotype \<Rightarrow> goval \<Rightarrow> goval option" where
  "convert t v = (if type_of v = Some t \<or> t = TIface then Some v else convert_num t v)"

section \<open>\<open>reflect.DeepEqual\<close>\<close>

fun deep_eq :: "goval \<Rightarrow> goval \<Rightarrow> bool"
  and deep_eq_list :: "goval list \<Rightarrow> goval list \<Rightarrow> bool" where
  "deep_eq VNil w = (w = VNil)"
| "deep_eq (VBool a) w = (w = VBool a)"
| "deep_eq (VInt s a) w = (w = VInt s a)"
| "deep_eq (VUint s a) w = (w = VUint s a)"
| "deep_eq (VFloat s a) w = (case w of VFloat t b \<Rightarrow> s = t \<and> float_eq a b | _ \<Rightarrow> False)"
| "deep_eq (VString a) w = (w = VString a)"
| "deep_eq (VTime a l) w = (w = VTime a l)"
| "deep_eq (VPtr t None) w = (w = VPtr t None)"
| "deep_eq (VPtr t (Some a)) w = (case w of VPtr u (Some b) \<Rightarrow> t = u \<and> deep_eq a b | _ \<Rightarrow> False)"
| "deep_eq (VSlice t None) w = (w = VSlice t None)"
| "deep_eq (VSlice t (Some a)) w =
     (case w of VSlice u (Some b) \<Rightarrow> t = u \<and> deep_eq_list a b | _ \<Rightarrow> False)"
| "deep_eq_list [] ws = (ws = [])"
| "deep_eq_list (x # xs) ws = (case ws of y # ys \<Rightarrow> deep_eq x y \<and> deep_eq_list xs ys | [] \<Rightarrow> False)"

text \<open>Deeply equal values are equal, up to two representations of one finite float.\<close>

fun float_free :: "goval \<Rightarrow> bool"
  and float_free_list :: "goval list \<Rightarrow> bool" where
  "float_free (VFloat _ _) = False"
| "float_free (VPtr _ (Some v)) = float_free v"
| "float_free (VSlice _ (Some vs)) = float_free_list vs"
| "float_free _ = True"
| "float_free_list [] = True"
| "float_free_list (v # vs) = (float_free v \<and> float_free_list vs)"

lemma deep_eq_imp_eq:
  "deep_eq v w \<Longrightarrow> float_free v \<Longrightarrow> v = w"
  "deep_eq_list vs ws \<Longrightarrow> float_free_list vs \<Longrightarrow> vs = ws"
  by (induction v w and vs ws rule: deep_eq_deep_eq_list.induct)
    (auto split: goval.splits option.splits list.splits)

lemma deep_eq_refl:
  "float_free v \<Longrightarrow> deep_eq v v"
  "float_free_list vs \<Longrightarrow> deep_eq_list vs vs"
  by (induction v and vs rule: float_free_float_free_list.induct) auto

section \<open>Zero values\<close>

text \<open>The instant of the zero \<open>time.Time\<close>: 1 January of year 1, in nanoseconds of Unix time.\<close>

definition zero_instant :: int where
  "zero_instant = - 62135596800 * 1000000000"

fun zero_of :: "gotype \<Rightarrow> goval" where
  "zero_of TBool = VBool False"
| "zero_of (TInt s) = VInt s 0"
| "zero_of (TUint s) = VUint s 0"
| "zero_of (TFloat s) = VFloat s (FFin 0 0)"
| "zero_of TString = VString []"
| "zero_of TTime = VTime zero_instant 0"
| "zero_of (TPtr t) = VPtr t None"
| "zero_of (TSlice t) = VSlice t None"
| "zero_of TIface = VNil"

lemma type_of_zero: "t \<noteq> TIface \<Longrightarrow> type_of (zero_of t) = Some t"
  by (cases t) auto

section \<open>Models\<close>

text \<open>
  A model instance is the list of its fields by Go name, those promoted from the embedded
  \<open>BaseModel\<close> included. \<open>FieldByName\<close> is the first field of that name.
\<close>

type_synonym gomodel = "(string \<times> goval) list"

abbreviation FieldByName :: "gomodel \<Rightarrow> string \<Rightarrow> goval option" where
  "FieldByName m f \<equiv> map_of m f"

end
