(* ===== verification/Query_Predicate.thy ===== *)
theory Query_Predicate
  imports Go_Values
begin

text \<open>
  The WHERE clause parser of \<^verbatim>\<open>internal/cache/query_predicate.go\<close>: tokens, the recursive
  descent parser, and the two analyses of a parsed predicate that the cache index uses, its
  fields and its exact-match values. Evaluation of a predicate is in the theory of query
  matching.

  A position \<open>i\<close> in the clause is modelled by the suffix of the clause from \<open>i\<close>. The mutually
  recursive parser functions take fuel; running out is the error \<open>OutOfFuel\<close>, and
  \<open>parseQueryPredicate\<close> passes enough of it (six units per token and six more: at most six nested
  calls happen between two tokens that are consumed), as proved below.
\<close>

section \<open>Query parameters\<close>

record QueryParams =
  Where :: string
  Args :: "goval list"
  Order :: string
  Preloads :: "string list"
  IncludeDeleted :: bool

section \<open>Predicates\<close>

record predicateOperand =
  argIndex :: nat
  ovalue :: goval
  hasLiteral :: bool

datatype predicateNode =
    logicalPredicateNode (nop: string) (nleft: predicateNode) (nright: predicateNode)
  | conditionPredicateNode (nfield: string) (noperator: string) (noperands: "predicateOperand list")

record queryPredicate =
  root :: "predicateNode option"
  pargs :: "goval list"

section \<open>Tokens\<close>

datatype tokenKind =
    tokenEOF | tokenIdentifier | tokenOperator | tokenPlaceholder | tokenLiteral
  | tokenAnd | tokenOr | tokenNot | tokenLParen | tokenRParen | tokenComma

record predicateToken =
  kind :: tokenKind
  tvalue :: string
  literal :: goval

definition tok :: "tokenKind \<Rightarrow> string \<Rightarrow> predicateToken" where
  "tok k v = \<lparr>kind = k, tvalue = v, literal = VNil\<rparr>"

definition tok_lit :: "string \<Rightarrow> goval \<Rightarrow> predicateToken" where
  "tok_lit v l = \<lparr>kind = tokenLiteral, tvalue = v, literal = l\<rparr>"

definition is_blank :: "char \<Rightarrow> bool" where
  "is_blank c \<longleftrightarrow> c = CHR '' '' \<or> c = CHR 0x09 \<or> c = CHR 0x0A \<or> c = CHR 0x0D"

definition is_symbol :: "char \<Rightarrow> bool" where
  "is_symbol c \<longleftrightarrow> c \<in> set ''=<>!''"

abbreviation quote_char :: char where
  "quote_char \<equiv> CHR 0x27"

definition scanSymbolOperator :: "string \<Rightarrow> (string \<times> string) go_result" where
  "scanSymbolOperator s =
     (if 2 \<le> length s \<and> take 2 s \<in> set [''>='', ''<='', ''!='', ''<>''] then Inr (take 2 s, drop 2 s)
      else case s of
        c # r \<Rightarrow> if c \<in> set ''=><'' then Inr ([c], r) else Inl (Errorf ''unsupported operator starting at'')
      | [] \<Rightarrow> Inl (Errorf ''unsupported operator starting at''))"

definition scanQuotedIdentifier :: "string \<Rightarrow> (string \<times> string) go_result" where
  "scanQuotedIdentifier s =
     (let q = hd s; cl = (if q = CHR ''['' then CHR '']'' else q);
          body = takeWhile (\<lambda>c. c \<noteq> cl) (tl s); rest = dropWhile (\<lambda>c. c \<noteq> cl) (tl s)
      in case rest of
           [] \<Rightarrow> Inl (Errorf ''unterminated quoted identifier in WHERE clause'')
         | c # r \<Rightarrow> Inr (q # body @ [c], r))"

fun scanStringBody :: "string \<Rightarrow> (string \<times> string) option" where
  "scanStringBody [] = None"
| "scanStringBody (c # r) =
     (if c \<noteq> quote_char then map_option (\<lambda>(b, r'). (c # b, r')) (scanStringBody r)
      else case r of
        d # r' \<Rightarrow> if d = quote_char then map_option (\<lambda>(b, r''). (quote_char # b, r'')) (scanStringBody r')
                  else Some ([], r)
      | [] \<Rightarrow> Some ([], []))"

definition scanStringLiteral :: "string \<Rightarrow> (string \<times> string) go_result" where
  "scanStringLiteral s =
     (case scanStringBody (tl s) of
        None \<Rightarrow> Inl (Errorf ''unterminated string literal in WHERE clause'')
      | Some br \<Rightarrow> Inr br)"

definition stops_word :: "char \<Rightarrow> bool" where
  "stops_word c \<longleftrightarrow>
     is_blank c \<or> c = CHR ''('' \<or> c = CHR '')'' \<or> c = CHR '','' \<or> c = CHR ''?'' \<or> is_symbol c"

definition scanWord :: "string \<Rightarrow> string \<times> string" where
  "scanWord s = (takeWhile (\<lambda>c. \<not> stops_word c) s, dropWhile (\<lambda>c. \<not> stops_word c) s)"

definition classifyWordToken :: "string \<Rightarrow> predicateToken" where
  "classifyWordToken word =
     (let upper = to_upper word
      in if upper = ''AND'' then tok tokenAnd upper
         else if upper = ''OR'' then tok tokenOr upper
         else if upper = ''NOT'' then tok tokenNot upper
         else if upper = ''LIKE'' \<or> upper = ''IN'' then tok tokenOperator upper
         else if upper = ''TRUE'' then tok_lit word (VBool True)
         else if upper = ''FALSE'' then tok_lit word (VBool False)
         else if upper = ''NULL'' then tok_lit word VNil
         else case parse_int word of
           Some n \<Rightarrow> tok_lit word (VInt S64 n)
         | None \<Rightarrow>
             (case parse_float word of
                Some f \<Rightarrow> tok_lit word (VFloat F64 f)
              | None \<Rightarrow> tok tokenIdentifier word))"

definition cons_tok :: "predicateToken \<Rightarrow> predicateToken list go_result \<Rightarrow> predicateToken list go_result" where
  "cons_tok t r = (case r of Inl e \<Rightarrow> Inl e | Inr ts \<Rightarrow> Inr (t # ts))"

lemma scanSymbolOperator_less:
  "scanSymbolOperator s = Inr (w, r) \<Longrightarrow> length r < length s"
  by (auto simp: scanSymbolOperator_def split: list.splits if_splits)

lemma scanQuotedIdentifier_less:
  assumes "scanQuotedIdentifier (c # s) = Inr (w, r)"
  shows "length r < Suc (length s)"
proof -
  have "length (d # r') \<le> length s" if "dropWhile (\<lambda>x. x \<noteq> d') s = d # r'" for d d' r'
    using that length_dropWhile_le[of "\<lambda>x. x \<noteq> d'" s] by simp
  with assms show ?thesis
    by (fastforce simp: scanQuotedIdentifier_def Let_def split: list.splits if_splits)
qed

lemma scanStringBody_less: "scanStringBody s = Some (w, r) \<Longrightarrow> length r < length s"
  by (induction s arbitrary: w rule: scanStringBody.induct)
    (fastforce split: if_splits list.splits)+

lemma scanStringLiteral_less:
  "scanStringLiteral (c # s) = Inr (w, r) \<Longrightarrow> length r < Suc (length s)"
  by (auto simp: scanStringLiteral_def split: option.splits dest!: scanStringBody_less)

lemma scanWord_less:
  assumes "\<not> stops_word c"
  shows "length (snd (scanWord (c # s))) < Suc (length s)"
  using assms length_dropWhile_le[of "\<lambda>c. \<not> stops_word c" s] by (simp add: scanWord_def)

function tokenize_from :: "string \<Rightarrow> predicateToken list go_result" where
  "tokenize_from [] = Inr [tok tokenEOF []]"
| "tokenize_from (ch # rest) =
     (if is_blank ch then tokenize_from rest
      else if ch = CHR ''('' then cons_tok (tok tokenLParen ''('') (tokenize_from rest)
      else if ch = CHR '')'' then cons_tok (tok tokenRParen '')'') (tokenize_from rest)
      else if ch = CHR '','' then cons_tok (tok tokenComma '','') (tokenize_from rest)
      else if ch = CHR ''?'' then cons_tok (tok tokenPlaceholder ''?'') (tokenize_from rest)
      else if is_symbol ch then
        bindE (scanSymbolOperator (ch # rest))
          (\<lambda>(operator, next). cons_tok (tok tokenOperator operator) (tokenize_from next))
      else if ch = quote_char then
        bindE (scanStringLiteral (ch # rest))
          (\<lambda>(lit, next). cons_tok (tok_lit lit (VString lit)) (tokenize_from next))
      else if ch = CHR 0x60 \<or> ch = CHR 0x22 \<or> ch = CHR ''['' then
        bindE (scanQuotedIdentifier (ch # rest))
          (\<lambda>(identifier, next). cons_tok (classifyWordToken identifier) (tokenize_from next))
      else
        (let wn = scanWord (ch # rest)
         in cons_tok (classifyWordToken (fst wn)) (tokenize_from (snd wn))))"
  by pat_completeness auto
termination
proof (relation "measure length", goal_cases)
  case (7 ch rest x operator nx)
  then show ?case using scanSymbolOperator_less[of "ch # rest" operator nx] by simp
next
  case (8 ch rest x lit nx)
  then show ?case using scanStringLiteral_less[of ch rest lit nx] by simp
next
  case (9 ch rest x idn nx)
  then show ?case using scanQuotedIdentifier_less[of ch rest idn nx] by simp
next
  case (10 ch rest x)
  then show ?case using scanWord_less[of ch rest] by (simp add: stops_word_def)
qed simp_all

definition tokenizeWhere :: "string \<Rightarrow> predicateToken list go_result" where
  "tokenizeWhere w = tokenize_from w"

section \<open>Parser\<close>

record predicateParser =
  tokens :: "predicateToken list"
  pos :: nat
  args :: "goval list"
  nextArg :: nat

definition current :: "predicateParser \<Rightarrow> predicateToken" where
  "current p = (if length (tokens p) \<le> pos p then tok tokenEOF [] else tokens p ! pos p)"

definition advance :: "predicateParser \<Rightarrow> predicateParser" where
  "advance p = p\<lparr>pos := pos p + 1\<rparr>"

definition match_tok :: "predicateParser \<Rightarrow> tokenKind \<Rightarrow> bool \<times> predicateParser" where
  "match_tok p k = (if kind (current p) \<noteq> k then (False, p) else (True, advance p))"

definition normalizeWhereIdentifier :: "string \<Rightarrow> string" where
  "normalizeWhereIdentifier i0 =
     (let identifier = trim_space i0
      in if identifier = [] then identifier
         else
           let parts = split_on CHR ''.'' identifier;
               id1 = trim_space (last parts);
               id2 = trim_cutset id1 [CHR 0x5C, CHR 0x22, CHR 0x60, CHR 0x27]
           in if has_prefix id2 ''['' \<and> has_suffix id2 '']''
              then trim_prefix (trim_suffix id2 '']'') ''[''
              else id2)"

definition parseOperand :: "predicateParser \<Rightarrow> (predicateOperand \<times> predicateParser) go_result" where
  "parseOperand p =
     (let t = current p
      in if kind t = tokenPlaceholder then
           (if length (args p) \<le> nextArg p then Inl (Errorf ''not enough arguments for WHERE clause'')
            else Inr (\<lparr>argIndex = nextArg p, ovalue = VNil, hasLiteral = False\<rparr>,
                      (advance p)\<lparr>nextArg := nextArg p + 1\<rparr>))
         else if kind t = tokenLiteral then
           Inr (\<lparr>argIndex = 0, ovalue = literal t, hasLiteral = True\<rparr>, advance p)
         else Inl (Errorf ''expected placeholder or literal in WHERE clause, got''))"

text \<open>Every token the parser accepts is a real one, so a step moves towards the end.\<close>

lemma current_less: "kind (current p) \<noteq> tokenEOF \<Longrightarrow> pos p < length (tokens p)"
  by (auto simp: current_def tok_def split: if_splits)

lemma match_tok_fields [simp]:
  "tokens (snd (match_tok p k)) = tokens p" "args (snd (match_tok p k)) = args p"
  "nextArg (snd (match_tok p k)) = nextArg p"
  by (auto simp: match_tok_def advance_def)

lemma match_tok_pos: "fst (match_tok p k) \<Longrightarrow> pos (snd (match_tok p k)) = pos p + 1"
  by (auto simp: match_tok_def advance_def split: if_splits)

lemma parseOperand_step:
  assumes "parseOperand p = Inr (x, q)"
  shows "pos q = pos p + 1 \<and> pos p < length (tokens p) \<and> tokens q = tokens p \<and> args q = args p"
proof -
  have "kind (current p) \<noteq> tokenEOF"
    using assms by (auto simp: parseOperand_def Let_def split: if_splits)
  then have "pos p < length (tokens p)" by (rule current_less)
  moreover have "pos q = pos p + 1 \<and> tokens q = tokens p \<and> args q = args p"
    using assms by (auto simp: parseOperand_def advance_def Let_def split: if_splits)
  ultimately show ?thesis by simp
qed

function parseOperandLoop ::
  "predicateOperand list \<Rightarrow> predicateParser \<Rightarrow> (predicateOperand list \<times> predicateParser) go_result" where
  "parseOperandLoop ops p =
     bindE (parseOperand p)
       (\<lambda>(operand, q). let r = match_tok q tokenComma
                        in if \<not> fst r then Inr (ops @ [operand], snd r)
                           else parseOperandLoop (ops @ [operand]) (snd r))"
  by pat_completeness auto
termination
  by (relation "measure (\<lambda>(ops, p). length (tokens p) - pos p)")
    (auto dest!: parseOperand_step simp: match_tok_pos)

declare parseOperandLoop.simps [simp del]

definition parseOperands ::
  "predicateParser \<Rightarrow> string \<Rightarrow> (predicateOperand list \<times> predicateParser) go_result" where
  "parseOperands p operator =
     (if operator = ''IN'' \<or> operator = ''NOT IN'' then
        (let r = match_tok p tokenLParen
         in if \<not> fst r then Inl (Errorf ''requires operands inside parentheses'')
            else bindE (parseOperandLoop [] (snd r))
              (\<lambda>(operands, q).
                 if operands = [] then Inl (Errorf ''requires at least one operand'')
                 else let c = match_tok q tokenRParen
                      in if \<not> fst c then Inl (Errorf ''requires closing ')' after operands'')
                         else Inr (operands, snd c)))
      else bindE (parseOperand p) (\<lambda>(operand, q). Inr ([operand], q)))"

definition parseOperator :: "predicateParser \<Rightarrow> (string \<times> predicateParser) go_result" where
  "parseOperator p =
     (let t = current p
      in if kind t = tokenNot then
           (let p1 = advance p; nx = current p1
            in if kind nx \<noteq> tokenOperator \<or> (tvalue nx \<noteq> ''LIKE'' \<and> tvalue nx \<noteq> ''IN'')
               then Inl (Errorf ''NOT must be followed by LIKE or IN in WHERE clause'')
               else Inr (''NOT '' @ tvalue nx, advance p1))
         else if kind t \<noteq> tokenOperator then Inl (Errorf ''expected operator in WHERE clause, got'')
         else Inr (tvalue t, advance p))"

definition parseCondition :: "predicateParser \<Rightarrow> (predicateNode \<times> predicateParser) go_result" where
  "parseCondition p =
     (let fieldTok = current p
      in if kind fieldTok \<noteq> tokenIdentifier
         then Inl (Errorf ''expected field name in WHERE clause, got'')
         else bindE (parseOperator (advance p))
           (\<lambda>(operator, q). bindE (parseOperands q operator)
              (\<lambda>(operands, r).
                 Inr (conditionPredicateNode (normalizeWhereIdentifier (tvalue fieldTok)) operator operands, r))))"

fun parseExpression :: "nat \<Rightarrow> predicateParser \<Rightarrow> (predicateNode \<times> predicateParser) go_result"
  and parseOr :: "nat \<Rightarrow> predicateParser \<Rightarrow> (predicateNode \<times> predicateParser) go_result"
  and parseOrLoop :: "nat \<Rightarrow> predicateNode \<Rightarrow> predicateParser \<Rightarrow> (predicateNode \<times> predicateParser) go_result"
  and parseAnd :: "nat \<Rightarrow> predicateParser \<Rightarrow> (predicateNode \<times> predicateParser) go_result"
  and parseAndLoop :: "nat \<Rightarrow> predicateNode \<Rightarrow> predicateParser \<Rightarrow> (predicateNode \<times> predicateParser) go_result"
  and parsePrimary :: "nat \<Rightarrow> predicateParser \<Rightarrow> (predicateNode \<times> predicateParser) go_result" where
  "parseExpression 0 p = Inl OutOfFuel"
| "parseExpression (Suc n) p = parseOr n p"
| "parseOr 0 p = Inl OutOfFuel"
| "parseOr (Suc n) p = bindE (parseAnd n p) (\<lambda>(left, q). parseOrLoop n left q)"
| "parseOrLoop 0 left p = Inl OutOfFuel"
| "parseOrLoop (Suc n) left p =
     (let r = match_tok p tokenOr
      in if fst r then
           bindE (parseAnd n (snd r)) (\<lambda>(right, q). parseOrLoop n (logicalPredicateNode ''OR'' left right) q)
         else Inr (left, snd r))"
| "parseAnd 0 p = Inl OutOfFuel"
| "parseAnd (Suc n) p = bindE (parsePrimary n p) (\<lambda>(left, q). parseAndLoop n left q)"
| "parseAndLoop 0 left p = Inl OutOfFuel"
| "parseAndLoop (Suc n) left p =
     (let r = match_tok p tokenAnd
      in if fst r then
           bindE (parsePrimary n (snd r)) (\<lambda>(right, q). parseAndLoop n (logicalPredicateNode ''AND'' left right) q)
         else Inr (left, snd r))"
| "parsePrimary 0 p = Inl OutOfFuel"
| "parsePrimary (Suc n) p =
     (let r = match_tok p tokenLParen
      in if fst r then
           bindE (parseExpression n (snd r))
             (\<lambda>(node, q). let c = match_tok q tokenRParen
                           in if \<not> fst c then Inl (Errorf ''expected ')' in WHERE clause'')
                              else Inr (node, snd c))
         else parseCondition (snd r))"

definition parse_fuel :: "predicateToken list \<Rightarrow> nat" where
  "parse_fuel ts = 6 * length ts + 6"

definition parseQueryPredicate :: "QueryParams \<Rightarrow> queryPredicate go_result" where
  "parseQueryPredicate params =
     (let w = trim_space (Where params)
      in if w = [] then Inr \<lparr>root = None, pargs = Args params\<rparr>
         else bindE (tokenizeWhere w)
           (\<lambda>ts. bindE (parseExpression (parse_fuel ts) \<lparr>tokens = ts, pos = 0, args = Args params, nextArg = 0\<rparr>)
              (\<lambda>(node, p).
                 if kind (current p) \<noteq> tokenEOF then Inl (Errorf ''unsupported WHERE clause structure near'')
                 else if nextArg p \<noteq> length (Args params)
                   then Inl (Errorf ''mismatched number of placeholders and arguments'')
                   else Inr \<lparr>root = Some node, pargs = Args params\<rparr>)))"

section \<open>Fields and exact-match values of a predicate\<close>

fun node_fields :: "predicateNode \<Rightarrow> keyset \<Rightarrow> keyset" where
  "node_fields (logicalPredicateNode _ l r) out = node_fields r (node_fields l out)"
| "node_fields (conditionPredicateNode f _ _) out = gm_set f True out"

definition Fields :: "queryPredicate \<Rightarrow> string list" where
  "Fields p = (case root p of None \<Rightarrow> [] | Some n \<Rightarrow> gm_keys (node_fields n []))"

fun resolveOperands :: "predicateOperand list \<Rightarrow> goval list \<Rightarrow> goval list go_result" where
  "resolveOperands [] as = Inr []"
| "resolveOperands (o1 # os) as =
     (if hasLiteral o1 then bindE (resolveOperands os as) (\<lambda>vs. Inr (ovalue o1 # vs))
      else if length as \<le> argIndex o1 then Inl (Errorf ''argument index out of bounds'')
      else bindE (resolveOperands os as) (\<lambda>vs. Inr (as ! argIndex o1 # vs)))"

definition expandExactMatchValues :: "goval \<Rightarrow> goval list" where
  "expandExactMatchValues v = (case v of VSlice _ (Some xs) \<Rightarrow> xs | _ \<Rightarrow> [])"

definition append_vals :: "string \<Rightarrow> goval list \<Rightarrow> (string, goval list) gomap \<Rightarrow> (string, goval list) gomap" where
  "append_vals f vs out = gm_set f ((case gm_get out f of None \<Rightarrow> [] | Some ws \<Rightarrow> ws) @ vs) out"

fun add_in_values :: "string \<Rightarrow> goval list \<Rightarrow> (string, goval list) gomap \<Rightarrow> (string, goval list) gomap" where
  "add_in_values f [] out = out"
| "add_in_values f (v # vs) out =
     (let xs = expandExactMatchValues v
      in add_in_values f vs (append_vals f (if xs \<noteq> [] then xs else [v]) out))"

definition single_placeholder :: "predicateOperand list \<Rightarrow> goval list \<Rightarrow> bool" where
  "single_placeholder ops vs \<longleftrightarrow> length vs = 1 \<and> length ops = 1 \<and> \<not> hasLiteral (hd ops)"

fun node_exact :: "predicateNode \<Rightarrow> goval list \<Rightarrow> (string, goval list) gomap \<Rightarrow> (string, goval list) gomap" where
  "node_exact (logicalPredicateNode _ l r) as out = node_exact r as (node_exact l as out)"
| "node_exact (conditionPredicateNode f oper ops) as out =
     (case resolveOperands ops as of
        Inl _ \<Rightarrow> out
      | Inr vs \<Rightarrow>
          if oper = ''='' then (if length vs = 1 then append_vals f [hd vs] out else out)
          else if oper = ''IN'' then
            (if single_placeholder ops vs then
               (let xs = expandExactMatchValues (hd vs) in if xs \<noteq> [] then append_vals f xs out else out)
             else add_in_values f vs out)
          else out)"

definition ExactMatches :: "queryPredicate \<Rightarrow> (string, goval list) gomap" where
  "ExactMatches p = (case root p of None \<Rightarrow> [] | Some n \<Rightarrow> node_exact n (pargs p) [])"

end
