(* ===== verification/Predicate_Parsing.thy ===== *)
theory Predicate_Parsing
  imports Query_Predicate
begin

text \<open>
  Correctness of the WHERE clause parser: it always returns (the fuel of the model is enough and
  no loop of the code runs forever), every placeholder of an accepted clause has exactly one
  argument, in order, and the operands of an accepted clause always resolve.
\<close>

section \<open>What a parser step keeps\<close>

text \<open>\<open>moved p q\<close>: the parser went from \<open>p\<close> to \<open>q\<close> over the same tokens and arguments.\<close>

definition moved :: "predicateParser \<Rightarrow> predicateParser \<Rightarrow> bool" where
  "moved p q \<longleftrightarrow> tokens q = tokens p \<and> args q = args p \<and> pos p \<le> pos q \<and>
     (pos p \<le> length (tokens p) \<longrightarrow> pos q \<le> length (tokens p)) \<and>
     nextArg p \<le> nextArg q \<and> (nextArg p \<le> length (args p) \<longrightarrow> nextArg q \<le> length (args p))"

definition consumed :: "predicateParser \<Rightarrow> predicateParser \<Rightarrow> bool" where
  "consumed p q \<longleftrightarrow> moved p q \<and> pos p < pos q \<and> pos p < length (tokens p)"

definition remaining :: "predicateParser \<Rightarrow> nat" where
  "remaining p = length (tokens p) - pos p"

lemma moved_refl [simp]: "moved p p"
  by (simp add: moved_def)

lemma moved_trans: "moved p q \<Longrightarrow> moved q r \<Longrightarrow> moved p r"
  by (auto simp: moved_def)

lemma consumed_moved: "consumed p q \<Longrightarrow> moved p q"
  by (simp add: consumed_def)

lemma consumed_trans1: "consumed p q \<Longrightarrow> moved q r \<Longrightarrow> consumed p r"
  by (auto simp: consumed_def moved_def)

lemma consumed_trans2: "moved p q \<Longrightarrow> consumed q r \<Longrightarrow> consumed p r"
  by (auto simp: consumed_def moved_def)

lemmas parser_trans = moved_trans consumed_trans1 consumed_trans2

lemma consumed_remaining: "consumed p q \<Longrightarrow> remaining q < remaining p"
  by (auto simp: consumed_def moved_def remaining_def)

lemma moved_remaining: "moved p q \<Longrightarrow> remaining q \<le> remaining p"
  by (auto simp: moved_def remaining_def)

lemma advance_consumed: "kind (current p) \<noteq> tokenEOF \<Longrightarrow> consumed p (advance p)"
  using current_less[of p] by (auto simp: consumed_def moved_def advance_def)

lemma match_tok_consumed: "fst (match_tok p k) \<Longrightarrow> k \<noteq> tokenEOF \<Longrightarrow> consumed p (snd (match_tok p k))"
  using advance_consumed[of p] by (auto simp: match_tok_def split: if_splits)

lemma match_tok_False [simp]: "\<not> fst (match_tok p k) \<Longrightarrow> snd (match_tok p k) = p"
  by (auto simp: match_tok_def split: if_splits)

section \<open>The placeholders of a predicate\<close>

definition operand_args :: "predicateOperand list \<Rightarrow> nat list" where
  "operand_args ops = map argIndex (filter (\<lambda>x. \<not> hasLiteral x) ops)"

fun node_args :: "predicateNode \<Rightarrow> nat list" where
  "node_args (logicalPredicateNode _ l r) = node_args l @ node_args r"
| "node_args (conditionPredicateNode _ _ ops) = operand_args ops"

lemma operand_args_append [simp]: "operand_args (xs @ ys) = operand_args xs @ operand_args ys"
  by (simp add: operand_args_def)


text \<open>
  \<open>parsed p as q\<close>: at least one token was consumed from \<open>p\<close> to \<open>q\<close>, and the placeholders met on
  the way are \<open>as\<close>, numbered consecutively. \<open>parsed0\<close> also allows no token.
\<close>

definition parsed0 :: "predicateParser \<Rightarrow> nat list \<Rightarrow> predicateParser \<Rightarrow> bool" where
  "parsed0 p as q \<longleftrightarrow> moved p q \<and> as = [nextArg p..<nextArg q]"

definition parsed :: "predicateParser \<Rightarrow> nat list \<Rightarrow> predicateParser \<Rightarrow> bool" where
  "parsed p as q \<longleftrightarrow> consumed p q \<and> as = [nextArg p..<nextArg q]"

lemma upt_split: "i \<le> j \<Longrightarrow> j \<le> k \<Longrightarrow> [i..<k] = [i..<j] @ [j..<k]"
  by (metis le_Suc_ex upt_add_eq_append)

lemma parsed0_refl [simp]: "parsed0 p [] p"
  by (simp add: parsed0_def)

lemma parsed0_trans: "parsed0 p xs q \<Longrightarrow> parsed0 q ys r \<Longrightarrow> parsed0 p (xs @ ys) r"
  using upt_split[of "nextArg p" "nextArg q" "nextArg r"] moved_trans[of p q r]
  by (simp add: parsed0_def) (simp add: moved_def)

lemma parsed_trans: "parsed p xs q \<Longrightarrow> parsed0 q ys r \<Longrightarrow> parsed p (xs @ ys) r"
  using upt_split[of "nextArg p" "nextArg q" "nextArg r"] consumed_trans1[of p q r]
  by (simp add: parsed_def parsed0_def) (simp add: consumed_def moved_def)

lemma parsed_imp_parsed0: "parsed p as q \<Longrightarrow> parsed0 p as q"
  by (simp add: parsed_def parsed0_def consumed_moved)

lemma parsed_silent: "consumed p q \<Longrightarrow> nextArg q = nextArg p \<Longrightarrow> parsed p [] q"
  by (simp add: parsed_def)

lemma match_tok_parsed: "fst (match_tok p k) \<Longrightarrow> k \<noteq> tokenEOF \<Longrightarrow> parsed p [] (snd (match_tok p k))"
  by (simp add: parsed_silent match_tok_consumed)

lemma advance_parsed: "kind (current p) \<noteq> tokenEOF \<Longrightarrow> parsed p [] (advance p)"
  by (rule parsed_silent) (auto simp: advance_consumed, simp add: advance_def)

lemma parseOperand_parsed:
  assumes "parseOperand p = Inr (x, q)"
  shows "parsed p (operand_args [x]) q"
proof (cases "kind (current p) = tokenPlaceholder")
  case True
  with assms have lt: "nextArg p < length (args p)"
    and x: "x = \<lparr>argIndex = nextArg p, ovalue = VNil, hasLiteral = False\<rparr>"
    and q: "q = (advance p)\<lparr>nextArg := nextArg p + 1\<rparr>"
    by (auto simp: parseOperand_def Let_def split: if_splits)
  have "pos p < length (tokens p)" using True by (intro current_less) simp
  then show ?thesis using lt by (simp add: x q parsed_def consumed_def moved_def operand_args_def advance_def)
next
  case False
  with assms have "kind (current p) = tokenLiteral"
    and "x = \<lparr>argIndex = 0, ovalue = literal (current p), hasLiteral = True\<rparr>" and "q = advance p"
    by (auto simp: parseOperand_def Let_def split: if_splits)
  then show ?thesis using advance_parsed[of p] by (simp add: operand_args_def)
qed

lemma parseOperandLoop_parsed:
  "parseOperandLoop ops p = Inr (xs, q) \<Longrightarrow> \<exists>ys. xs = ops @ ys \<and> parsed p (operand_args ys) q"
proof (induction ops p rule: parseOperandLoop.induct)
  case (1 ops p)
  from "1.prems" obtain x r where xr: "parseOperand p = Inr (x, r)"
    by (subst (asm) parseOperandLoop.simps) auto
  note px = parseOperand_parsed[OF xr]
  show ?case
  proof (cases "fst (match_tok r tokenComma)")
    case True
    with "1.prems" xr have "parseOperandLoop (ops @ [x]) (snd (match_tok r tokenComma)) = Inr (xs, q)"
      by (subst (asm) parseOperandLoop.simps) (simp add: Let_def)
    with "1.IH"[OF xr] True obtain ys where ys: "xs = (ops @ [x]) @ ys"
      and py: "parsed (snd (match_tok r tokenComma)) (operand_args ys) q"
      by (metis prod.collapse)
    have "parsed0 r (operand_args ys) q"
      using parsed0_trans[OF parsed_imp_parsed0[OF match_tok_parsed[OF True]] parsed_imp_parsed0[OF py]]
      by simp
    then have "parsed p (operand_args [x] @ operand_args ys) q" using px parsed_trans by blast
    then have "parsed p (operand_args (x # ys)) q" by (simp flip: operand_args_append)
    with ys show ?thesis by auto
  next
    case False
    with "1.prems" xr have "xs = ops @ [x]" and "q = r"
      by (subst (asm) parseOperandLoop.simps, simp add: Let_def)+
    with px show ?thesis by auto
  qed
qed

lemma parseOperands_parsed:
  assumes "parseOperands p oper = Inr (ops, q)"
  shows "parsed p (operand_args ops) q"
proof (cases "oper = ''IN'' \<or> oper = ''NOT IN''")
  case True
  then obtain r where m: "fst (match_tok p tokenLParen)"
    and l: "parseOperandLoop [] (snd (match_tok p tokenLParen)) = Inr (ops, r)"
    and c: "fst (match_tok r tokenRParen)" and q: "q = snd (match_tok r tokenRParen)"
    using assms by (auto simp: parseOperands_def Let_def split: if_splits)
  have "parsed (snd (match_tok p tokenLParen)) (operand_args ops) r"
    using parseOperandLoop_parsed[OF l] by auto
  then have "parsed0 (snd (match_tok p tokenLParen)) (operand_args ops @ []) q"
    using c q parsed0_trans parsed_imp_parsed0 match_tok_parsed by blast
  then show ?thesis using parsed_trans[OF match_tok_parsed[OF m]] by fastforce
next
  case False
  with assms show ?thesis by (auto simp: parseOperands_def parseOperand_parsed)
qed

lemma parseOperator_parsed:
  assumes "parseOperator p = Inr (oper, q)"
  shows "parsed p [] q"
proof (cases "kind (current p) = tokenNot")
  case True
  with assms have "kind (current (advance p)) = tokenOperator" and q: "q = advance (advance p)"
    by (auto simp: parseOperator_def Let_def split: if_splits)
  then have "parsed0 (advance p) [] q" using parsed_imp_parsed0[OF advance_parsed] by simp
  then show ?thesis using parsed_trans[OF advance_parsed[of p]] True by force
next
  case False
  with assms show ?thesis by (auto simp: parseOperator_def Let_def advance_parsed split: if_splits)
qed

lemma parseCondition_parsed:
  assumes "parseCondition p = Inr (n, q)"
  shows "parsed p (node_args n) q"
proof -
  from assms obtain oper r ops where k: "kind (current p) = tokenIdentifier"
    and oper: "parseOperator (advance p) = Inr (oper, r)"
    and ops: "parseOperands r oper = Inr (ops, q)"
    and n: "n = conditionPredicateNode (normalizeWhereIdentifier (tvalue (current p))) oper ops"
    by (auto simp: parseCondition_def Let_def split: if_splits)
  have "parsed p ([] @ []) r"
    using k by (intro parsed_trans[OF advance_parsed parsed_imp_parsed0[OF parseOperator_parsed[OF oper]]]) simp
  from parsed_trans[OF this parsed_imp_parsed0[OF parseOperands_parsed[OF ops]]] show ?thesis
    by (simp add: n)
qed

lemma parse_parsed:
  "parseExpression n p = Inr (a, q) \<Longrightarrow> parsed p (node_args a) q"
  "parseOr n p = Inr (a, q) \<Longrightarrow> parsed p (node_args a) q"
  "parseOrLoop n left p = Inr (a, q) \<Longrightarrow> \<exists>as. node_args a = node_args left @ as \<and> parsed0 p as q"
  "parseAnd n p = Inr (a, q) \<Longrightarrow> parsed p (node_args a) q"
  "parseAndLoop n left p = Inr (a, q) \<Longrightarrow> \<exists>as. node_args a = node_args left @ as \<and> parsed0 p as q"
  "parsePrimary n p = Inr (a, q) \<Longrightarrow> parsed p (node_args a) q"
proof (induction n p and n p and n left p and n p and n left p and n p arbitrary: a q and a q and a q and a q and a q and a q
    rule: parseExpression_parseOr_parseOrLoop_parseAnd_parseAndLoop_parsePrimary.induct)
  case (4 n p)
  then obtain l r where l: "parseAnd n p = Inr (l, r)" and lp: "parseOrLoop n l r = Inr (a, q)" by auto
  from "4.IH"(2)[OF l refl lp] "4.IH"(1)[OF l] show ?case by (auto dest: parsed_trans)
next
  case (6 n left p)
  show ?case
  proof (cases "fst (match_tok p tokenOr)")
    case True
    with "6.prems" obtain b r where b: "parseAnd n (snd (match_tok p tokenOr)) = Inr (b, r)"
      and lp: "parseOrLoop n (logicalPredicateNode ''OR'' left b) r = Inr (a, q)" by (auto simp: Let_def)
    from "6.IH"(2)[OF refl True b refl lp] obtain as where
      as: "node_args a = node_args left @ node_args b @ as" "parsed0 r as q" by auto
    have "parsed0 p ([] @ node_args b) r"
      using "6.IH"(1)[OF refl True b] match_tok_parsed[OF True] parsed0_trans parsed_imp_parsed0 by blast
    then show ?thesis using as parsed0_trans by fastforce
  next
    case False
    with "6.prems" show ?thesis by (auto simp: Let_def)
  qed
next
  case (8 n p)
  then obtain l r where l: "parsePrimary n p = Inr (l, r)" and lp: "parseAndLoop n l r = Inr (a, q)" by auto
  from "8.IH"(2)[OF l refl lp] "8.IH"(1)[OF l] show ?case by (auto dest: parsed_trans)
next
  case (10 n left p)
  show ?case
  proof (cases "fst (match_tok p tokenAnd)")
    case True
    with "10.prems" obtain b r where b: "parsePrimary n (snd (match_tok p tokenAnd)) = Inr (b, r)"
      and lp: "parseAndLoop n (logicalPredicateNode ''AND'' left b) r = Inr (a, q)" by (auto simp: Let_def)
    from "10.IH"(2)[OF refl True b refl lp] obtain as where
      as: "node_args a = node_args left @ node_args b @ as" "parsed0 r as q" by auto
    have "parsed0 p ([] @ node_args b) r"
      using "10.IH"(1)[OF refl True b] match_tok_parsed[OF True] parsed0_trans parsed_imp_parsed0 by blast
    then show ?thesis using as parsed0_trans by fastforce
  next
    case False
    with "10.prems" show ?thesis by (auto simp: Let_def)
  qed
next
  case (12 n p)
  show ?case
  proof (cases "fst (match_tok p tokenLParen)")
    case True
    with "12.prems" obtain r where e: "parseExpression n (snd (match_tok p tokenLParen)) = Inr (a, r)"
      and c: "fst (match_tok r tokenRParen)" and q: "q = snd (match_tok r tokenRParen)"
      by (auto simp: Let_def split: if_splits)
    have "parsed0 (snd (match_tok p tokenLParen)) (node_args a @ []) q"
      using "12.IH"[OF refl True e] match_tok_parsed[OF c] q parsed0_trans parsed_imp_parsed0 by blast
    then show ?thesis using parsed_trans[OF match_tok_parsed[OF True]] by fastforce
  next
    case False
    with "12.prems" show ?thesis by (auto simp: Let_def parseCondition_parsed)
  qed
qed auto


section \<open>The fuel is enough\<close>

lemma scan_errors:
  "scanSymbolOperator s \<noteq> Inl OutOfFuel" "scanStringLiteral s \<noteq> Inl OutOfFuel"
  "scanQuotedIdentifier s \<noteq> Inl OutOfFuel"
  by (auto simp: scanSymbolOperator_def scanStringLiteral_def scanQuotedIdentifier_def Let_def
      split: list.splits option.splits)

lemma cons_tok_Inl [simp]: "cons_tok t r = Inl e \<longleftrightarrow> r = Inl e"
  by (auto simp: cons_tok_def split: sum.splits)

text \<open>A clause is tokenized by cases on its first byte; \<open>tokenize_from_cases\<close> names the branches.\<close>

lemma tokenize_from_cases:
  obtains (skip) "tokenize_from (ch # rest) = tokenize_from rest"
  | (char) t where "tokenize_from (ch # rest) = cons_tok t (tokenize_from rest)"
  | (scan) scan :: "(string \<times> string) go_result" and f where "tokenize_from (ch # rest) =
        bindE scan (\<lambda>(w, r). cons_tok (f w) (tokenize_from r))"
      and "scan \<noteq> Inl OutOfFuel" and "\<And>w r. scan = Inr (w, r) \<Longrightarrow> length r \<le> length rest"
proof -
  consider "is_blank ch" | t where "tokenize_from (ch # rest) = cons_tok t (tokenize_from rest)"
    | "\<not> is_blank ch" "ch \<notin> set ''(),?''" by fastforce
  then show thesis
  proof cases
    case 3
    then have other: "\<not> is_blank ch" "ch \<noteq> CHR ''(''" "ch \<noteq> CHR '')''" "ch \<noteq> CHR '',''" "ch \<noteq> CHR ''?''"
      by auto
    consider (sym) "is_symbol ch" | (str) "\<not> is_symbol ch" "ch = quote_char"
      | (quo) "\<not> is_symbol ch" "ch \<noteq> quote_char" "ch = CHR 0x60 \<or> ch = CHR 0x22 \<or> ch = CHR ''[''"
      | (word) "\<not> is_symbol ch" "ch \<noteq> quote_char" "\<not> (ch = CHR 0x60 \<or> ch = CHR 0x22 \<or> ch = CHR ''['')"
      by blast
    then show thesis
    proof cases
      case sym
      have "tokenize_from (ch # rest) =
          bindE (scanSymbolOperator (ch # rest)) (\<lambda>(w, r). cons_tok (tok tokenOperator w) (tokenize_from r))"
        using other sym by simp
      from scan[OF this scan_errors(1)] show thesis using scanSymbolOperator_less by fastforce
    next
      case str
      have "tokenize_from (ch # rest) =
          bindE (scanStringLiteral (ch # rest)) (\<lambda>(w, r). cons_tok (tok_lit w (VString w)) (tokenize_from r))"
        using other str by simp
      from scan[OF this scan_errors(2)] show thesis using scanStringLiteral_less by fastforce
    next
      case quo
      have "tokenize_from (ch # rest) =
          bindE (scanQuotedIdentifier (ch # rest)) (\<lambda>(w, r). cons_tok (classifyWordToken w) (tokenize_from r))"
        using other quo by simp
      from scan[OF this scan_errors(3)] show thesis using scanQuotedIdentifier_less by fastforce
    next
      case word
      have "tokenize_from (ch # rest) =
          bindE (Inr (scanWord (ch # rest))) (\<lambda>(w, r). cons_tok (classifyWordToken w) (tokenize_from r))"
        using other word by (simp add: Let_def split_beta)
      moreover have "length r \<le> length rest" if "scanWord (ch # rest) = (w, r)" for w r
        using scanWord_less[of ch rest] other word that by (simp add: stops_word_def)
      ultimately show thesis by (intro scan) auto
    qed
  qed (use skip char in auto)
qed

lemma tokenize_from_fuel: "tokenize_from s \<noteq> Inl OutOfFuel"
proof (induction "length s" arbitrary: s rule: less_induct)
  case less
  show ?case
  proof (cases s)
    case (Cons ch rest)
    show ?thesis
    proof (cases ch rest rule: tokenize_from_cases)
      case (scan scan f)
      have "cons_tok (f w) (tokenize_from r) \<noteq> Inl OutOfFuel" if "scan = Inr (w, r)" for w r
        using scan(3)[OF that] less Cons by simp
      with scan(2) have "bindE scan (\<lambda>(w, r). cons_tok (f w) (tokenize_from r)) \<noteq> Inl OutOfFuel"
        by (auto simp: bindE_Inl_iff simp del: bindE.simps)
      with scan(1) Cons show ?thesis by metis
    qed (use less Cons in \<open>simp_all del: tokenize_from.simps\<close>)
  qed simp
qed

lemma parseOperand_fuel: "parseOperand p \<noteq> Inl OutOfFuel"
  by (auto simp: parseOperand_def Let_def)

lemma parseOperandLoop_fuel: "parseOperandLoop ops p \<noteq> Inl OutOfFuel"
proof (induction ops p rule: parseOperandLoop.induct)
  case (1 ops p)
  then show ?case
    by (subst parseOperandLoop.simps)
      (auto simp: bindE_Inl_iff parseOperand_fuel Let_def simp del: bindE.simps)
qed

lemma parseOperands_fuel: "parseOperands p oper \<noteq> Inl OutOfFuel"
  by (simp add: parseOperands_def bindE_Inl_iff Let_def parseOperand_fuel parseOperandLoop_fuel
      split_beta del: bindE.simps)

lemma parseOperator_fuel: "parseOperator p \<noteq> Inl OutOfFuel"
  by (simp add: parseOperator_def Let_def)

lemma parseCondition_fuel: "parseCondition p \<noteq> Inl OutOfFuel"
  by (simp add: parseCondition_def bindE_Inl_iff Let_def parseOperands_fuel parseOperator_fuel
      split_beta del: bindE.simps)

lemmas parse_remaining =
  parse_parsed(2,4,6)[unfolded parsed_def, THEN conjunct1, THEN consumed_remaining]

lemma match_tok_remaining: "fst (match_tok p k) \<Longrightarrow> k \<noteq> tokenEOF \<Longrightarrow> remaining (snd (match_tok p k)) < remaining p"
  by (intro consumed_remaining match_tok_consumed)

lemma parse_enough_fuel:
  "6 * remaining p + 5 \<le> n \<Longrightarrow> parseExpression n p \<noteq> Inl OutOfFuel"
  "6 * remaining p + 4 \<le> n \<Longrightarrow> parseOr n p \<noteq> Inl OutOfFuel"
  "6 * remaining p + 1 \<le> n \<Longrightarrow> parseOrLoop n left p \<noteq> Inl OutOfFuel"
  "6 * remaining p + 3 \<le> n \<Longrightarrow> parseAnd n p \<noteq> Inl OutOfFuel"
  "6 * remaining p + 1 \<le> n \<Longrightarrow> parseAndLoop n left p \<noteq> Inl OutOfFuel"
  "6 * remaining p + 2 \<le> n \<Longrightarrow> parsePrimary n p \<noteq> Inl OutOfFuel"
proof (induction n p and n p and n left p and n p and n left p and n p
    rule: parseExpression_parseOr_parseOrLoop_parseAnd_parseAndLoop_parsePrimary.induct)
  case (4 n p)
  have "parseOrLoop n l q \<noteq> Inl OutOfFuel" if "parseAnd n p = Inr (l, q)" for l q
    using "4.IH"(2)[OF that refl] parse_remaining(2)[OF that] "4.prems" by simp
  with 4 show ?case by (auto simp: bindE_Inl_iff simp del: bindE.simps)
next
  case (6 n left p)
  show ?case
  proof (cases "fst (match_tok p tokenOr)")
    case True
    have m: "remaining (snd (match_tok p tokenOr)) < remaining p"
      using match_tok_remaining[OF True] by simp
    have "parseAnd n (snd (match_tok p tokenOr)) \<noteq> Inl OutOfFuel"
      using "6.IH"(1)[OF refl True] m "6.prems" by simp
    moreover have "parseOrLoop n (logicalPredicateNode ''OR'' left b) q \<noteq> Inl OutOfFuel"
      if "parseAnd n (snd (match_tok p tokenOr)) = Inr (b, q)" for b q
      using "6.IH"(2)[OF refl True that refl] parse_remaining(2)[OF that] m "6.prems" by simp
    ultimately show ?thesis using True by (auto simp: bindE_Inl_iff Let_def simp del: bindE.simps)
  qed (simp add: Let_def)
next
  case (8 n p)
  have "parseAndLoop n l q \<noteq> Inl OutOfFuel" if "parsePrimary n p = Inr (l, q)" for l q
    using "8.IH"(2)[OF that refl] parse_remaining(3)[OF that] "8.prems" by simp
  with 8 show ?case by (auto simp: bindE_Inl_iff simp del: bindE.simps)
next
  case (10 n left p)
  show ?case
  proof (cases "fst (match_tok p tokenAnd)")
    case True
    have m: "remaining (snd (match_tok p tokenAnd)) < remaining p"
      using match_tok_remaining[OF True] by simp
    have "parsePrimary n (snd (match_tok p tokenAnd)) \<noteq> Inl OutOfFuel"
      using "10.IH"(1)[OF refl True] m "10.prems" by simp
    moreover have "parseAndLoop n (logicalPredicateNode ''AND'' left b) q \<noteq> Inl OutOfFuel"
      if "parsePrimary n (snd (match_tok p tokenAnd)) = Inr (b, q)" for b q
      using "10.IH"(2)[OF refl True that refl] parse_remaining(3)[OF that] m "10.prems" by simp
    ultimately show ?thesis using True by (auto simp: bindE_Inl_iff Let_def simp del: bindE.simps)
  qed (simp add: Let_def)
next
  case (12 n p)
  show ?case
  proof (cases "fst (match_tok p tokenLParen)")
    case True
    have "parseExpression n (snd (match_tok p tokenLParen)) \<noteq> Inl OutOfFuel"
      using "12.IH"[OF refl True] match_tok_remaining[OF True] "12.prems" by simp
    with True show ?thesis by (auto simp: bindE_Inl_iff Let_def simp del: bindE.simps split: if_splits)
  qed (simp add: Let_def parseCondition_fuel)
qed auto

text \<open>More fuel does not change a result.\<close>

definition fuel_le :: "'a go_result \<Rightarrow> 'a go_result \<Rightarrow> bool" where
  "fuel_le r r' \<longleftrightarrow> r = Inl OutOfFuel \<or> r' = r"

lemma fuel_le_refl [simp]: "fuel_le r r"
  by (simp add: fuel_le_def)

lemma fuel_le_bindE:
  "fuel_le a a' \<Longrightarrow> (\<And>x. a = Inr x \<Longrightarrow> fuel_le (f x) (f' x)) \<Longrightarrow> fuel_le (bindE a f) (bindE a' f')"
  by (cases a) (auto simp: fuel_le_def)

lemma parse_fuel_mono:
  "n \<le> m \<Longrightarrow> fuel_le (parseExpression n p) (parseExpression m p)"
  "n \<le> m \<Longrightarrow> fuel_le (parseOr n p) (parseOr m p)"
  "n \<le> m \<Longrightarrow> fuel_le (parseOrLoop n left p) (parseOrLoop m left p)"
  "n \<le> m \<Longrightarrow> fuel_le (parseAnd n p) (parseAnd m p)"
  "n \<le> m \<Longrightarrow> fuel_le (parseAndLoop n left p) (parseAndLoop m left p)"
  "n \<le> m \<Longrightarrow> fuel_le (parsePrimary n p) (parsePrimary m p)"
proof (induction n p and n p and n left p and n p and n left p and n p
    arbitrary: m and m and m and m and m and m
    rule: parseExpression_parseOr_parseOrLoop_parseAnd_parseAndLoop_parsePrimary.induct)
  case (2 n p)
  then show ?case by (cases m) auto
next
  case (4 n p)
  then obtain k where "m = Suc k" "n \<le> k" by (cases m) auto
  with "4.IH" show ?case by (auto intro!: fuel_le_bindE)
next
  case (6 n left p)
  then obtain k where k: "m = Suc k" "n \<le> k" by (cases m) auto
  with "6.IH"[OF refl] show ?case by (auto simp: Let_def intro!: fuel_le_bindE)
next
  case (8 n p)
  then obtain k where "m = Suc k" "n \<le> k" by (cases m) auto
  with "8.IH" show ?case by (auto intro!: fuel_le_bindE)
next
  case (10 n left p)
  then obtain k where "m = Suc k" "n \<le> k" by (cases m) auto
  with "10.IH"[OF refl] show ?case by (auto simp: Let_def intro!: fuel_le_bindE)
next
  case (12 n p)
  then obtain k where "m = Suc k" "n \<le> k" by (cases m) auto
  with "12.IH"[OF refl] show ?case by (auto simp: Let_def intro!: fuel_le_bindE)
qed (auto simp: fuel_le_def)


section \<open>Properties\<close>

text \<open>
  C26: parsing a WHERE clause always terminates with a predicate or an error. The recursive
  descent and its loops consume a token between two visits, so the fuel of six units per token
  never runs out, for any clause and any arguments.
\<close>

theorem parse_terminates: "parseQueryPredicate params \<noteq> Inl OutOfFuel"
proof -
  have "parseExpression (parse_fuel ts) \<lparr>tokens = ts, pos = 0, args = as, nextArg = 0\<rparr> \<noteq> Inl OutOfFuel"
    for ts as
    by (rule parse_enough_fuel(1)) (simp add: parse_fuel_def remaining_def)
  then show ?thesis
    by (simp add: parseQueryPredicate_def tokenizeWhere_def tokenize_from_fuel bindE_Inl_iff
        Let_def split_beta del: bindE.simps)
qed

lemma parse_root:
  assumes "parseQueryPredicate params = Inr pr"
  shows "pargs pr = Args params"
    and "root pr = None \<longleftrightarrow> trim_space (Where params) = []"
    and "root pr = Some n \<Longrightarrow> node_args n = [0..<length (Args params)]"
  using assms parse_parsed(1)[unfolded parsed_def]
  by (fastforce simp: parseQueryPredicate_def Let_def split: if_splits)+

text \<open>The operands of every condition of a node, and resolving them.\<close>

fun node_conditions :: "predicateNode \<Rightarrow> (string \<times> string \<times> predicateOperand list) list" where
  "node_conditions (logicalPredicateNode _ l r) = node_conditions l @ node_conditions r"
| "node_conditions (conditionPredicateNode f oper ops) = [(f, oper, ops)]"

lemma node_args_conditions:
  "(f, oper, ops) \<in> set (node_conditions n) \<Longrightarrow> set (operand_args ops) \<subseteq> set (node_args n)"
  by (induction n) auto

lemma resolveOperands_total:
  "\<forall>i \<in> set (operand_args ops). i < length as \<Longrightarrow> \<exists>vs. resolveOperands ops as = Inr vs \<and> length vs = length ops"
  by (induction ops) (auto simp: operand_args_def split: if_splits)

text \<open>
  C28: in an accepted clause the placeholders, read from left to right, are the arguments
  \<open>0, 1, ..., n - 1\<close>, each exactly once, and the operands of every condition resolve to
  values: the out-of-bounds error of \<open>resolveOperands\<close> cannot happen after parsing.
\<close>

theorem parse_placeholders:
  assumes "parseQueryPredicate params = Inr pr" and "root pr = Some n"
  shows "node_args n = [0..<length (Args params)] \<and>
    (\<forall>(f, oper, ops) \<in> set (node_conditions n).
       \<exists>vs. resolveOperands ops (pargs pr) = Inr vs \<and> length vs = length ops)"
proof -
  have n: "node_args n = [0..<length (Args params)]" and p: "pargs pr = Args params"
    using parse_root[OF assms(1)] assms(2) by auto
  have "\<exists>vs. resolveOperands ops (pargs pr) = Inr vs \<and> length vs = length ops"
    if "(f, oper, ops) \<in> set (node_conditions n)" for f oper ops
    using node_args_conditions[OF that] n p by (intro resolveOperands_total) auto
  with n show ?thesis by blast
qed

definition example_params :: QueryParams where
  "example_params = \<lparr>Where = ''age > ? AND (name = ? OR id IN (?, 7))'',
     Args = [VInt S64 18, VString ''bob'', VInt S64 3], Order = [], Preloads = [], IncludeDeleted = False\<rparr>"

definition example_root :: predicateNode where
  "example_root =
     logicalPredicateNode ''AND''
       (conditionPredicateNode ''age'' ''>'' [\<lparr>argIndex = 0, ovalue = VNil, hasLiteral = False\<rparr>])
       (logicalPredicateNode ''OR''
         (conditionPredicateNode ''name'' ''='' [\<lparr>argIndex = 1, ovalue = VNil, hasLiteral = False\<rparr>])
         (conditionPredicateNode ''id'' ''IN''
           [\<lparr>argIndex = 2, ovalue = VNil, hasLiteral = False\<rparr>,
            \<lparr>argIndex = 0, ovalue = VInt S64 7, hasLiteral = True\<rparr>]))"

lemma example_parse:
  "parseQueryPredicate example_params = Inr \<lparr>root = Some example_root, pargs = Args example_params\<rparr>"
  by code_simp

theorem parse_placeholders_witness:
  "node_args example_root = [0, 1, 2] \<and>
    list_all (\<lambda>(f, oper, ops). \<exists>vs. resolveOperands ops (Args example_params) = Inr vs \<and> length vs = length ops)
      (node_conditions example_root)"
  using parse_placeholders[OF example_parse, of example_root]
  by (simp add: list_all_iff example_params_def numeral_2_eq_2)

end
