(* ===== verification/Predicate_Roundtrip.thy ===== *)
theory Predicate_Roundtrip
  imports Predicate_Parsing
begin

text \<open>
  Printing a predicate as a WHERE clause and parsing it back. The printer is a specification, not
  a function of the code: it fixes the concrete syntax of each operator and puts every operand of
  a logical operator in parentheses. That the parser inverts it on every printable predicate says
  that the grammar it accepts covers all operators, nesting and operands, with nothing lost.
\<close>

section \<open>Printing\<close>

definition is_in_op :: "string \<Rightarrow> bool" where
  "is_in_op oper \<longleftrightarrow> oper = ''IN'' \<or> oper = ''NOT IN''"

definition symbol_ops :: "string list" where
  "symbol_ops = [''='', ''!='', ''<>'', ''<'', ''>'', ''<='', ''>='']"

definition word_ops :: "string list" where
  "word_ops = [''LIKE'', ''IN'']"

definition known_ops :: "string list" where
  "known_ops = symbol_ops @ word_ops @ map ((@) ''NOT '') word_ops"

definition escape_quotes :: "string \<Rightarrow> string" where
  "escape_quotes s = concat (map (\<lambda>c. if c = quote_char then [quote_char, quote_char] else [c]) s)"

fun show_literal :: "goval \<Rightarrow> string" where
  "show_literal (VString s) = quote_char # escape_quotes s @ [quote_char]"
| "show_literal (VBool b) = (if b then ''TRUE'' else ''FALSE'')"
| "show_literal (VInt _ i) = format_int i"
| "show_literal _ = ''NULL''"

definition show_operand :: "predicateOperand \<Rightarrow> string" where
  "show_operand x = (if hasLiteral x then show_literal (ovalue x) else ''?'')"

fun show_node :: "predicateNode \<Rightarrow> string" where
  "show_node (conditionPredicateNode f oper ops) =
     f @ '' '' @ oper @ '' '' @
     (if is_in_op oper then ''('' @ str_join (map show_operand ops) '', '' @ '')'' else show_operand (hd ops))"
| "show_node (logicalPredicateNode oper l r) =
     ''('' @ show_node l @ '') '' @ oper @ '' ('' @ show_node r @ '')''"

text \<open>The predicates the printer covers.\<close>

definition printable_field :: "string \<Rightarrow> bool" where
  "printable_field f \<longleftrightarrow> f \<noteq> [] \<and> list_all (\<lambda>c. \<not> stops_word c \<and> \<not> is_space c) f \<and>
     hd f \<notin> {quote_char, CHR 0x60, CHR 0x22, CHR ''[''} \<and>
     classifyWordToken f = tok tokenIdentifier f \<and> normalizeWhereIdentifier f = f"

definition printable_literal :: "goval \<Rightarrow> bool" where
  "printable_literal v \<longleftrightarrow>
     (case v of VString _ \<Rightarrow> True | VBool _ \<Rightarrow> True | VNil \<Rightarrow> True | VInt s i \<Rightarrow> s = S64 \<and> in_int64 i | _ \<Rightarrow> False)"

definition printable_operand :: "predicateOperand \<Rightarrow> bool" where
  "printable_operand x \<longleftrightarrow>
     (if hasLiteral x then argIndex x = 0 \<and> printable_literal (ovalue x) else ovalue x = VNil)"

fun printable :: "predicateNode \<Rightarrow> bool" where
  "printable (conditionPredicateNode f oper ops) \<longleftrightarrow>
     printable_field f \<and> oper \<in> set known_ops \<and> list_all printable_operand ops \<and>
     (if is_in_op oper then ops \<noteq> [] else length ops = 1)"
| "printable (logicalPredicateNode oper l r) \<longleftrightarrow> (oper = ''AND'' \<or> oper = ''OR'') \<and> printable l \<and> printable r"

section \<open>The tokens of a printed predicate\<close>

definition literal_tok :: "goval \<Rightarrow> predicateToken" where
  "literal_tok v = (case v of VString s \<Rightarrow> tok_lit s v | _ \<Rightarrow> tok_lit (show_literal v) v)"

definition operand_tok :: "predicateOperand \<Rightarrow> predicateToken" where
  "operand_tok x = (if hasLiteral x then literal_tok (ovalue x) else tok tokenPlaceholder ''?'')"

definition op_toks :: "string \<Rightarrow> predicateToken list" where
  "op_toks oper =
     (if has_prefix oper ''NOT '' then [tok tokenNot ''NOT'', tok tokenOperator (drop 4 oper)]
      else [tok tokenOperator oper])"

fun sep_toks :: "predicateToken list \<Rightarrow> predicateToken list" where
  "sep_toks [] = []"
| "sep_toks [t] = [t]"
| "sep_toks (t # u # ts) = t # tok tokenComma '','' # sep_toks (u # ts)"

definition logic_tok :: "string \<Rightarrow> predicateToken" where
  "logic_tok oper = tok (if oper = ''AND'' then tokenAnd else tokenOr) oper"

definition lp :: predicateToken where "lp = tok tokenLParen ''(''"
definition rp :: predicateToken where "rp = tok tokenRParen '')''"

fun node_toks :: "predicateNode \<Rightarrow> predicateToken list" where
  "node_toks (conditionPredicateNode f oper ops) =
     tok tokenIdentifier f # op_toks oper @
     (if is_in_op oper then lp # sep_toks (map operand_tok ops) @ [rp] else [operand_tok (hd ops)])"
| "node_toks (logicalPredicateNode oper l r) =
     lp # node_toks l @ rp # logic_tok oper # lp # node_toks r @ [rp]"

abbreviation prepend :: "predicateToken list \<Rightarrow> predicateToken list go_result \<Rightarrow> predicateToken list go_result" where
  "prepend ts r \<equiv> foldr cons_tok ts r"

lemma tokenize_blank [simp]: "tokenize_from (CHR '' '' # s) = tokenize_from s"
  by (simp add: is_blank_def)

lemma tokenize_paren [simp]:
  "tokenize_from (CHR ''('' # s) = cons_tok lp (tokenize_from s)"
  "tokenize_from (CHR '')'' # s) = cons_tok rp (tokenize_from s)"
  "tokenize_from (CHR '','' # s) = cons_tok (tok tokenComma '','') (tokenize_from s)"
  "tokenize_from (CHR ''?'' # s) = cons_tok (tok tokenPlaceholder ''?'') (tokenize_from s)"
  by (simp_all add: is_blank_def lp_def rp_def)

definition ends_word :: "string \<Rightarrow> bool" where
  "ends_word s \<longleftrightarrow> (case s of [] \<Rightarrow> True | c # _ \<Rightarrow> stops_word c)"

lemma tokenize_word:
  assumes "w \<noteq> []" and "list_all (\<lambda>c. \<not> stops_word c) w"
    and "hd w \<notin> {quote_char, CHR 0x60, CHR 0x22, CHR ''[''}" and "ends_word rest"
  shows "tokenize_from (w @ rest) = cons_tok (classifyWordToken w) (tokenize_from rest)"
proof -
  from assms(1) obtain c v where w: "w = c # v" by (cases w) auto
  have tw: "takeWhile (\<lambda>c. \<not> stops_word c) (w @ rest) = w" "dropWhile (\<lambda>c. \<not> stops_word c) (w @ rest) = rest"
    using assms(2,4) by (auto simp: list_all_iff ends_word_def takeWhile_append dropWhile_append split: list.splits)
  have "\<not> is_blank c" "c \<noteq> CHR ''(''" "c \<noteq> CHR '')''" "c \<noteq> CHR '',''" "c \<noteq> CHR ''?''" "\<not> is_symbol c"
    using assms(2) by (auto simp: w stops_word_def)
  with tw assms(3) show ?thesis by (simp add: w scanWord_def Let_def)
qed

lemma scanStringBody_escape:
  assumes "rest = [] \<or> hd rest \<noteq> quote_char"
  shows "scanStringBody (escape_quotes s @ quote_char # rest) = Some (s, rest)"
proof (induction s)
  case Nil
  with assms show ?case by (cases rest) (auto simp: escape_quotes_def)
next
  case (Cons c s)
  then show ?case by (simp add: escape_quotes_def)
qed

lemma upper_first: "w = c # v \<Longrightarrow> to_upper w = to_upper_char c # to_upper v"
  by (simp add: to_upper_def)

lemma digits_not_stop:
  assumes "is_digit c \<or> c = CHR ''-''"
  shows "\<not> stops_word c \<and> c \<notin> {quote_char, CHR 0x60, CHR 0x22, CHR ''[''} \<and> \<not> is_space c
    \<and> to_upper_char c = c"
proof -
  have n: "(of_char c :: nat) \<in> {45} \<union> {48..57}"
    using assms by (auto simp: is_digit_def)
  have "c \<noteq> d" if "(of_char d :: nat) \<notin> {45} \<union> {48..57}" for d
    using that n by auto
  then have "\<not> stops_word c" "c \<notin> {quote_char, CHR 0x60, CHR 0x22, CHR ''[''}" "\<not> is_space c"
    by (auto simp: stops_word_def is_blank_def is_symbol_def is_space_def)
  moreover have "to_upper_char c = c" using n by (auto simp: to_upper_char_def Let_def)
  ultimately show ?thesis by blast
qed

lemma format_int_chars: "format_int i \<noteq> [] \<and> list_all (\<lambda>c. is_digit c \<or> c = CHR ''-'') (format_int i)"
  using nat_dec_digits by (auto simp: format_int_def list_all_iff)

lemma classify_int:
  assumes "in_int64 i"
  shows "classifyWordToken (format_int i) = tok_lit (format_int i) (VInt S64 i)"
proof -
  obtain c v where cv: "format_int i = c # v" and c: "is_digit c \<or> c = CHR ''-''"
    using format_int_chars[of i] by (cases "format_int i") auto
  have "to_upper (format_int i) = c # to_upper v"
    using upper_first[OF cv] digits_not_stop[OF c] by simp
  moreover have "c \<noteq> d" if "(of_char d :: nat) \<ge> 65" for d
    using c that by (auto simp: is_digit_def)
  ultimately show ?thesis
    using parse_int_format_int[OF assms] by (simp add: classifyWordToken_def Let_def)
qed

lemma classify_keywords:
  "classifyWordToken ''TRUE'' = tok_lit ''TRUE'' (VBool True)"
  "classifyWordToken ''FALSE'' = tok_lit ''FALSE'' (VBool False)"
  "classifyWordToken ''NULL'' = tok_lit ''NULL'' VNil"
  "classifyWordToken ''AND'' = tok tokenAnd ''AND''"
  "classifyWordToken ''OR'' = tok tokenOr ''OR''"
  "classifyWordToken ''NOT'' = tok tokenNot ''NOT''"
  "classifyWordToken ''LIKE'' = tok tokenOperator ''LIKE''"
  "classifyWordToken ''IN'' = tok tokenOperator ''IN''"
  by (code_simp)+


lemma stops_word_simps [simp]:
  "\<not> stops_word CHR ''T''" "\<not> stops_word CHR ''R''" "\<not> stops_word CHR ''U''" "\<not> stops_word CHR ''E''"
  "\<not> stops_word CHR ''F''" "\<not> stops_word CHR ''A''" "\<not> stops_word CHR ''L''" "\<not> stops_word CHR ''S''"
  "\<not> stops_word CHR ''N''" "\<not> stops_word CHR ''D''" "\<not> stops_word CHR ''O''" "\<not> stops_word CHR ''I''"
  "\<not> stops_word CHR ''K''" "stops_word CHR '' ''" "stops_word CHR ''('' " "stops_word CHR '')'' " "stops_word CHR '','' "
  by (simp_all add: stops_word_def is_blank_def is_symbol_def)

lemma tokenize_literal:
  assumes "printable_literal v" and "ends_word rest"
  shows "tokenize_from (show_literal v @ rest) = cons_tok (literal_tok v) (tokenize_from rest)"
proof (cases v)
  case VNil
  then show ?thesis using tokenize_word[of "''NULL''" rest] assms(2)
    by (simp add: classify_keywords literal_tok_def)
next
  case (VBool b)
  then show ?thesis using tokenize_word[of "''TRUE''" rest] tokenize_word[of "''FALSE''" rest] assms(2)
    by (cases b) (simp_all add: classify_keywords literal_tok_def)
next
  case (VInt s i)
  with assms(1) have i: "s = S64" "in_int64 i" by (auto simp: printable_literal_def)
  have "list_all (\<lambda>c. \<not> stops_word c) (format_int i)"
    and "hd (format_int i) \<notin> {quote_char, CHR 0x60, CHR 0x22, CHR ''[''}"
    using format_int_chars[of i] digits_not_stop by (auto simp: list_all_iff)
  then show ?thesis using tokenize_word[of "format_int i" rest] assms(2) i format_int_chars[of i]
    by (simp add: classify_int literal_tok_def VInt)
next
  case (VString s)
  have "rest = [] \<or> hd rest \<noteq> quote_char"
    using assms(2) by (cases rest) (auto simp: ends_word_def stops_word_def is_blank_def is_symbol_def)
  from scanStringBody_escape[OF this, of s] show ?thesis
    by (simp add: VString literal_tok_def scanStringLiteral_def is_blank_def is_symbol_def)
qed (use assms in \<open>auto simp: printable_literal_def\<close>)

lemma tokenize_operand:
  assumes "printable_operand x" and "ends_word rest"
  shows "tokenize_from (show_operand x @ rest) = cons_tok (operand_tok x) (tokenize_from rest)"
  using assms tokenize_literal[of "ovalue x" rest]
  by (auto simp: show_operand_def operand_tok_def printable_operand_def simp del: tokenize_from.simps split: if_splits)

lemma tokenize_operands:
  assumes "list_all printable_operand ops"
  shows "tokenize_from (str_join (map show_operand ops) '', '' @ CHR '')'' # rest) =
    prepend (sep_toks (map operand_tok ops)) (tokenize_from (CHR '')'' # rest))"
  using assms
proof (induction "map show_operand ops" "'', ''::string" arbitrary: ops rule: str_join.induct)
  case (2 s)
  then obtain x where "ops = [x]" by auto
  with 2 show ?case by (simp add: tokenize_operand ends_word_def del: tokenize_from.simps)
next
  case (3 s t ss)
  then obtain x y ys where ops: "ops = x # y # ys" by (metis map_eq_Cons_conv)
  have "t # ss = map show_operand (y # ys)" using 3(2) ops by simp
  from 3(1)[OF this] 3(3) ops show ?case
    by (simp add: tokenize_operand ends_word_def del: tokenize_from.simps)
qed (simp del: tokenize_from.simps)

lemma tokenize_symbol_op:
  assumes "oper \<in> set symbol_ops"
  shows "tokenize_from (oper @ CHR '' '' # rest) = cons_tok (tok tokenOperator oper) (tokenize_from rest)"
  using assms
  by (auto simp: symbol_ops_def is_blank_def is_symbol_def scanSymbolOperator_def)

lemma tokenize_word_op:
  assumes "oper \<in> set word_ops" and "ends_word rest"
  shows "tokenize_from (oper @ rest) = cons_tok (tok tokenOperator oper) (tokenize_from rest)"
  using assms tokenize_word[of oper rest] by (auto simp: word_ops_def classify_keywords simp del: tokenize_from.simps)

lemma tokenize_op:
  assumes "oper \<in> set known_ops"
  shows "tokenize_from (oper @ CHR '' '' # rest) = prepend (op_toks oper) (tokenize_from rest)"
proof -
  have not: "tokenize_from (''NOT '' @ s) = cons_tok (tok tokenNot ''NOT'') (tokenize_from s)" for s
    using tokenize_word[of "''NOT''" "CHR '' '' # s"] by (simp add: classify_keywords ends_word_def del: tokenize_from.simps)
  have sp: "ends_word (CHR '' '' # rest)" by (simp add: ends_word_def)
  consider "oper \<in> set symbol_ops" | "oper \<in> set word_ops" | o' where "o' \<in> set word_ops" "oper = ''NOT '' @ o'"
    using assms by (auto simp: known_ops_def)
  then show ?thesis
  proof cases
    case 1
    then show ?thesis using tokenize_symbol_op[OF 1]
      by (auto simp: symbol_ops_def op_toks_def has_prefix_def simp del: tokenize_from.simps)
  next
    case 2
    then show ?thesis using tokenize_word_op[OF 2 sp]
      by (auto simp: word_ops_def op_toks_def has_prefix_def simp del: tokenize_from.simps)
  next
    case 3
    then show ?thesis using not[of "o' @ CHR '' '' # rest"] tokenize_word_op[OF 3(1) sp]
      by (auto simp: word_ops_def op_toks_def has_prefix_def simp del: tokenize_from.simps)
  qed
qed

definition closes :: "string \<Rightarrow> bool" where
  "closes rest \<longleftrightarrow> (case rest of [] \<Rightarrow> True | c # _ \<Rightarrow> c = CHR '')'')"

lemma closes_ends_word: "closes rest \<Longrightarrow> ends_word rest"
  by (auto simp: closes_def ends_word_def split: list.splits)

lemma tokenize_show_node:
  "printable n \<Longrightarrow> closes rest \<Longrightarrow> tokenize_from (show_node n @ rest) = prepend (node_toks n) (tokenize_from rest)"
proof (induction n arbitrary: rest)
  case (logicalPredicateNode oper l r)
  have logic: "tokenize_from (oper @ CHR '' '' # s) = cons_tok (logic_tok oper) (tokenize_from s)" for s
    using logicalPredicateNode.prems(1) tokenize_word[of "''AND''" "CHR '' '' # s"] tokenize_word[of "''OR''" "CHR '' '' # s"]
    by (auto simp: classify_keywords ends_word_def logic_tok_def simp del: tokenize_from.simps)
  have cl: "closes (CHR '')'' # s)" for s by (simp add: closes_def)
  show ?case
    using logicalPredicateNode.prems logicalPredicateNode.IH(1)[OF _ cl] logicalPredicateNode.IH(2)[OF _ cl]
    by (simp add: logic del: tokenize_from.simps)
next
  case (conditionPredicateNode f oper ops)
  have f: "tokenize_from (f @ CHR '' '' # s) = cons_tok (tok tokenIdentifier f) (tokenize_from s)" for s
    using conditionPredicateNode.prems(1) tokenize_word[of f "CHR '' '' # s"]
    by (simp add: printable_field_def ends_word_def list_all_iff del: tokenize_from.simps)
  have oper: "tokenize_from (oper @ CHR '' '' # s) = prepend (op_toks oper) (tokenize_from s)" for s
    using conditionPredicateNode.prems(1) by (intro tokenize_op) simp
  show ?case
  proof (cases "is_in_op oper")
    case True
    with conditionPredicateNode.prems show ?thesis
      by (simp add: f oper tokenize_operands del: tokenize_from.simps)
  next
    case False
    with conditionPredicateNode.prems have "printable_operand (hd ops)" by (cases ops) auto
    with False conditionPredicateNode.prems(2) show ?thesis
      by (simp add: f oper tokenize_operand closes_ends_word del: tokenize_from.simps)
  qed
qed


section \<open>Parsing the tokens\<close>

definition ahead :: "predicateParser \<Rightarrow> predicateToken list" where
  "ahead p = drop (pos p) (tokens p)"

text \<open>The parser after the tokens \<open>ts\<close>, which hold the placeholders \<open>as\<close>.\<close>

definition skip :: "predicateParser \<Rightarrow> predicateToken list \<Rightarrow> nat list \<Rightarrow> predicateParser" where
  "skip p ts as = p\<lparr>pos := pos p + length ts, nextArg := nextArg p + length as\<rparr>"

definition numbered :: "predicateParser \<Rightarrow> nat list \<Rightarrow> bool" where
  "numbered p as \<longleftrightarrow> as = [nextArg p..<nextArg p + length as] \<and> nextArg p + length as \<le> length (args p)"

lemma ahead_skip [simp]: "ahead (skip p ts as) = drop (length ts) (ahead p)"
  by (simp add: ahead_def skip_def add.commute)

lemma skip_skip [simp]: "skip (skip p ts as) us bs = skip p (ts @ us) (as @ bs)"
  by (simp add: skip_def add.assoc)

lemma skip_Nil [simp]: "skip p [] [] = p"
  by (simp add: skip_def)

lemma skip_cong: "length ts = length us \<Longrightarrow> length as = length bs \<Longrightarrow> skip p ts as = skip p us bs"
  by (simp add: skip_def)

lemma numbered_append:
  "numbered p (xs @ ys) \<longleftrightarrow> numbered p xs \<and> numbered (skip p ts xs) ys"
proof -
  let ?a = "nextArg p"
  have split: "[?a..<?a + (length xs + length ys)] =
      [?a..<?a + length xs] @ [?a + length xs..<?a + length xs + length ys]"
    by (metis add.assoc le_add1 upt_add_eq_append)
  show ?thesis by (auto simp: numbered_def skip_def split append_eq_append_conv)
qed

lemma numbered_skip [simp]: "numbered (skip p ts []) as = numbered p as"
  by (simp add: numbered_def skip_def)

lemma ahead_current: "ahead p = t # ts \<Longrightarrow> current p = t"
  by (auto simp: ahead_def current_def nth_via_drop)

lemma advance_skip: "advance p = skip p [t] []"
  by (simp add: advance_def skip_def)

lemma match_tok_ahead:
  "ahead p = t # ts \<Longrightarrow> match_tok p k = (if kind t = k then (True, skip p [t] []) else (False, p))"
  by (simp add: match_tok_def ahead_current advance_skip[of _ t])

lemma parseOperand_print:
  assumes "ahead p = operand_tok x # ts" and "printable_operand x" and "numbered p (operand_args [x])"
  shows "parseOperand p = Inr (x, skip p [operand_tok x] (operand_args [x]))"
proof (cases "hasLiteral x")
  case True
  then show ?thesis using assms
    by (cases x; cases "ovalue x")
      (simp_all add: parseOperand_def ahead_current operand_tok_def literal_tok_def tok_lit_def advance_def
        printable_operand_def skip_def operand_args_def)
next
  case False
  then show ?thesis using assms
    by (cases x) (simp add: parseOperand_def ahead_current operand_tok_def tok_def advance_def
        printable_operand_def skip_def operand_args_def numbered_def upt_conv_Cons)
qed

lemma kind_simps [simp]:
  "kind lp = tokenLParen" "kind rp = tokenRParen" "kind (tok k w) = k"
  by (simp_all add: lp_def rp_def tok_def)

lemma operand_args_Cons: "operand_args (x # xs) = operand_args [x] @ operand_args xs"
  by (simp add: operand_args_def)

lemma parseOperandLoop_print:
  assumes "ops \<noteq> []" and "list_all printable_operand ops" and "numbered p (operand_args ops)"
    and "ahead p = sep_toks (map operand_tok ops) @ rp # ts"
  shows "parseOperandLoop acc p = Inr (acc @ ops, skip p (sep_toks (map operand_tok ops)) (operand_args ops))"
  using assms
proof (induction ops arbitrary: acc p)
  case (Cons x xs)
  have nums: "numbered p (operand_args [x])" "numbered (skip p us (operand_args [x])) (operand_args xs)" for us
    using Cons.prems(3) by (simp_all add: operand_args_Cons[of x xs] numbered_append[where ts = us])
  have x: "parseOperand p = Inr (x, skip p [operand_tok x] (operand_args [x]))"
    using Cons.prems nums(1) by (intro parseOperand_print[of _ _ "tl (ahead p)"]) (cases xs; simp)+
  show ?case
  proof (cases xs)
    case Nil
    have "ahead (skip p [operand_tok x] (operand_args [x])) = rp # ts" using Cons.prems(4) Nil by simp
    from match_tok_ahead[OF this] show ?thesis
      by (simp add: parseOperandLoop.simps x Nil)
  next
    case (Cons y ys)
    let ?q = "skip p [operand_tok x] (operand_args [x])"
    have a: "ahead ?q = tok tokenComma '','' # sep_toks (map operand_tok xs) @ rp # ts"
      using Cons.prems(4) Cons by simp
    have b: "ahead (skip p [operand_tok x, tok tokenComma '',''] (operand_args [x])) =
        sep_toks (map operand_tok xs) @ rp # ts"
      using Cons.prems(4) Cons by simp
    show ?thesis
      using Cons.IH[OF _ _ nums(2) b, of "acc @ [x]"] Cons.prems(2) Cons match_tok_ahead[OF a]
      by (subst parseOperandLoop.simps) (simp add: x operand_args_Cons[of x "y # ys"])
  qed
qed simp


lemma parseOperator_print:
  assumes "oper \<in> set known_ops" and "ahead p = op_toks oper @ ts"
  shows "parseOperator p = Inr (oper, skip p (op_toks oper) [])"
proof (cases "has_prefix oper ''NOT ''")
  case True
  have "\<not> has_prefix w ''NOT ''" if "w \<in> set (symbol_ops @ word_ops)" for w
    using that by (auto simp: symbol_ops_def word_ops_def has_prefix_def)
  with True obtain o' where o': "o' \<in> set word_ops" "oper = ''NOT '' @ o'"
    using assms(1) by (auto simp: known_ops_def)
  then have ops: "op_toks oper = [tok tokenNot ''NOT'', tok tokenOperator o']"
    by (simp add: op_toks_def has_prefix_def)
  with assms(2) have a: "ahead p = tok tokenNot ''NOT'' # tok tokenOperator o' # ts" by simp
  then have "ahead (skip p [tok tokenNot ''NOT''] []) = tok tokenOperator o' # ts" by simp
  moreover have "advance p = skip p [tok tokenNot ''NOT''] []"
    and "advance (skip p [tok tokenNot ''NOT''] []) = skip p (op_toks oper) []"
    by (simp_all add: advance_def skip_def ops)
  moreover have "tvalue (tok tokenOperator o') = o'" "o' = ''LIKE'' \<or> o' = ''IN''"
    using o'(1) by (auto simp: tok_def word_ops_def)
  ultimately show ?thesis using ahead_current[OF a] ahead_current[of "skip p [tok tokenNot ''NOT''] []"] o'(2)
    by (simp add: parseOperator_def Let_def)
next
  case False
  then have ops: "op_toks oper = [tok tokenOperator oper]" by (simp add: op_toks_def)
  with assms(2) have "ahead p = tok tokenOperator oper # ts" by simp
  from ahead_current[OF this] show ?thesis
    by (simp add: parseOperator_def Let_def ops advance_def skip_def tok_def)
qed

lemma parseOperands_print:
  assumes "list_all printable_operand ops" and "if is_in_op oper then ops \<noteq> [] else length ops = 1"
    and "numbered p (operand_args ops)"
    and "us = (if is_in_op oper then lp # sep_toks (map operand_tok ops) @ [rp] else [operand_tok (hd ops)])"
    and "ahead p = us @ ts"
  shows "parseOperands p oper = Inr (ops, skip p us (operand_args ops))"
proof (cases "is_in_op oper")
  case True
  let ?ts = "sep_toks (map operand_tok ops)"
  have a: "ahead p = lp # ?ts @ rp # ts" using assms(4,5) True by simp
  then have b: "ahead (skip p [lp] []) = ?ts @ rp # ts" by simp
  have "parseOperandLoop [] (skip p [lp] []) = Inr (ops, skip p (lp # ?ts) (operand_args ops))"
    using parseOperandLoop_print[OF _ assms(1) _ b, of "[]"] assms(2,3) True by simp
  moreover have "ahead (skip p (lp # ?ts) (operand_args ops)) = rp # ts" using a by simp
  from match_tok_ahead[OF this] have "match_tok (skip p (lp # ?ts) (operand_args ops)) tokenRParen =
      (True, skip p us (operand_args ops))" using assms(4) True by simp
  ultimately show ?thesis using True assms(2) match_tok_ahead[OF a]
    by (simp add: parseOperands_def is_in_op_def Let_def)
next
  case False
  then obtain x where x: "ops = [x]" using assms(2) by (cases ops) auto
  have "parseOperand p = Inr (x, skip p [operand_tok x] (operand_args [x]))"
    using assms False x by (intro parseOperand_print[of _ _ ts]) auto
  with False x assms(4) show ?thesis by (auto simp: parseOperands_def is_in_op_def)
qed

lemma parseCondition_print:
  assumes "printable (conditionPredicateNode f oper ops)"
    and "numbered p (operand_args ops)" and "ahead p = node_toks (conditionPredicateNode f oper ops) @ ts"
  shows "parseCondition p =
    Inr (conditionPredicateNode f oper ops, skip p (node_toks (conditionPredicateNode f oper ops)) (operand_args ops))"
proof -
  let ?us = "if is_in_op oper then lp # sep_toks (map operand_tok ops) @ [rp] else [operand_tok (hd ops)]"
  have c: "current p = tok tokenIdentifier f"
    using assms(3) by (intro ahead_current) simp
  have n: "numbered (skip p us []) (operand_args ops)" for us using assms(2) by simp
  have advance_eq: "advance p = skip p [\<lparr>kind = tokenIdentifier, tvalue = f, literal = VNil\<rparr>] []"
    by (simp add: advance_def skip_def)
  have "parseOperator (skip p [tok tokenIdentifier f] []) =
      Inr (oper, skip p (tok tokenIdentifier f # op_toks oper) [])"
    using parseOperator_print[of oper "skip p [tok tokenIdentifier f] []" "?us @ ts"] assms by simp
  moreover have "parseOperands (skip p (tok tokenIdentifier f # op_toks oper) []) oper =
      Inr (ops, skip p (node_toks (conditionPredicateNode f oper ops)) (operand_args ops))"
    using parseOperands_print[OF _ _ n refl, of oper "tok tokenIdentifier f # op_toks oper" ts] assms by simp
  ultimately show ?thesis using assms(1)
    by (simp add: parseCondition_def c advance_eq printable_field_def tok_def del: node_toks.simps)
qed

text \<open>\<open>settles f r\<close>: with enough fuel \<open>f\<close> returns \<open>r\<close>.\<close>

definition settles :: "(nat \<Rightarrow> 'a go_result) \<Rightarrow> 'a \<Rightarrow> bool" where
  "settles f r \<longleftrightarrow> (\<exists>N. \<forall>n\<ge>N. f n = Inr r)"

lemma settles_const: "settles (\<lambda>_. Inr r) r"
  by (auto simp: settles_def)

lemma settles_Suc: "settles (\<lambda>n. f (Suc n)) r \<Longrightarrow> settles f r"
  unfolding settles_def by (metis Suc_le_D Suc_le_mono)

lemma settles_bind:
  assumes "settles f x" and "settles (\<lambda>n. g n x) r"
  shows "settles (\<lambda>n. bindE (f n) (g n)) r"
proof -
  from assms obtain N M where "\<And>n. N \<le> n \<Longrightarrow> f n = Inr x" and "\<And>n. M \<le> n \<Longrightarrow> g n x = Inr r"
    by (auto simp: settles_def)
  then have "\<forall>n\<ge>max N M. bindE (f n) (g n) = Inr r" by simp
  then show ?thesis unfolding settles_def by blast
qed

lemma settles_bind2:
  assumes "settles f (x, y)" and "settles (\<lambda>n. g n x y) r"
  shows "settles (\<lambda>n. bindE (f n) (\<lambda>(a, b). g n a b)) r"
  using settles_bind[OF assms(1), of "\<lambda>n (a, b). g n a b"] assms(2) by simp

lemma loops_stop:
  "ahead q = t # ts \<Longrightarrow> kind t \<noteq> tokenOr \<Longrightarrow> settles (\<lambda>n. parseOrLoop n l q) (l, q)"
  "ahead q = t # ts \<Longrightarrow> kind t \<noteq> tokenAnd \<Longrightarrow> settles (\<lambda>n. parseAndLoop n l q) (l, q)"
  by (rule settles_Suc, simp add: match_tok_ahead settles_const)+

lemma parseOrLoop_go:
  assumes "ahead p = t # ts" and "kind t = tokenOr" and "settles (\<lambda>n. parseAnd n (skip p [t] [])) (r, q)"
    and "settles (\<lambda>n. parseOrLoop n (logicalPredicateNode ''OR'' l r) q) res"
  shows "settles (\<lambda>n. parseOrLoop n l p) res"
  by (rule settles_Suc) (simp add: match_tok_ahead[OF assms(1)] assms(2), rule settles_bind2, rule assms(3), rule assms(4))

lemma parseAndLoop_go:
  assumes "ahead p = t # ts" and "kind t = tokenAnd" and "settles (\<lambda>n. parsePrimary n (skip p [t] [])) (r, q)"
    and "settles (\<lambda>n. parseAndLoop n (logicalPredicateNode ''AND'' l r) q) res"
  shows "settles (\<lambda>n. parseAndLoop n l p) res"
  by (rule settles_Suc) (simp add: match_tok_ahead[OF assms(1)] assms(2), rule settles_bind2, rule assms(3), rule assms(4))

lemma parseAnd_settles:
  assumes "settles (\<lambda>n. parsePrimary n p) (l, q)" and "settles (\<lambda>n. parseAndLoop n l q) r"
  shows "settles (\<lambda>n. parseAnd n p) r"
  by (rule settles_Suc) (simp, rule settles_bind2, rule assms(1), rule assms(2))

lemma parseOr_settles:
  assumes "settles (\<lambda>n. parseAnd n p) (l, q)" and "settles (\<lambda>n. parseOrLoop n l q) r"
  shows "settles (\<lambda>n. parseOr n p) r"
  by (rule settles_Suc) (simp, rule settles_bind2, rule assms(1), rule assms(2))

lemma parsePrimary_paren:
  assumes "ahead p = lp # us @ rp # ts" and "settles (\<lambda>n. parseOr n (skip p [lp] [])) (x, skip p (lp # us) as)"
  shows "settles (\<lambda>n. parsePrimary n p) (x, skip p (lp # us @ [rp]) as)"
proof -
  have "ahead (skip p (lp # us) as) = rp # ts" using assms(1) by simp
  from match_tok_ahead[OF this] have close:
    "match_tok (skip p (lp # us) as) tokenRParen = (True, skip p (lp # us @ [rp]) as)" by simp
  have "settles (\<lambda>n. parseExpression n (skip p [lp] [])) (x, skip p (lp # us) as)"
    by (rule settles_Suc) (use assms(2) in simp)
  from settles_bind[OF this, of "\<lambda>_ (node, q). let c = match_tok q tokenRParen
        in if \<not> fst c then Inl (Errorf ''expected ')' in WHERE clause'') else Inr (node, snd c)"]
  show ?thesis
    by (intro settles_Suc[of "\<lambda>n. parsePrimary n p"]) (simp add: match_tok_ahead[OF assms(1)] close settles_const)
qed

lemma parsePrimary_condition:
  assumes "ahead p = tok tokenIdentifier f # ts" and "parseCondition p = Inr r"
  shows "settles (\<lambda>n. parsePrimary n p) r"
  by (rule settles_Suc) (simp add: match_tok_ahead[OF assms(1)] assms(2) settles_const)

lemma parseOr_print:
  "printable n \<Longrightarrow> numbered p (node_args n) \<Longrightarrow> ahead p = node_toks n @ t # ts \<Longrightarrow>
   kind t = tokenRParen \<or> kind t = tokenEOF \<Longrightarrow>
   settles (\<lambda>k. parseOr k p) (n, skip p (node_toks n) (node_args n))"
proof (induction n arbitrary: p t ts)
  case (conditionPredicateNode f oper ops)
  let ?n = "conditionPredicateNode f oper ops"
  have "ahead (skip p (node_toks ?n) (operand_args ops)) = t # ts"
    using conditionPredicateNode.prems(3) by simp
  moreover have "settles (\<lambda>k. parsePrimary k p) (?n, skip p (node_toks ?n) (operand_args ops))"
    using conditionPredicateNode.prems
    by (intro parsePrimary_condition[of p f "tl (ahead p)"] parseCondition_print) auto
  ultimately show ?case using conditionPredicateNode.prems(4) unfolding node_args.simps
    by (intro parseOr_settles[OF parseAnd_settles[OF _ loops_stop(2)] loops_stop(1)]) auto
next
  case (logicalPredicateNode oper l r)
  let ?L = "lp # node_toks l @ [rp]" and ?R = "lp # node_toks r @ [rp]" and ?o = "logic_tok oper"
  let ?q = "skip p ?L (node_args l)" and ?q' = "skip p (?L @ [?o]) (node_args l)"
  let ?e = "skip p (?L @ ?o # ?R) (node_args l @ node_args r)"
  have nums: "numbered p (node_args l)" "numbered (skip p us (node_args l)) (node_args r)" for us
    using logicalPredicateNode.prems(2) by (simp_all add: numbered_append[where ts = us])
  have l: "settles (\<lambda>n. parsePrimary n p) (l, ?q)"
    using logicalPredicateNode.prems logicalPredicateNode.IH(1)[of "skip p [lp] []" rp] nums(1)
    by (intro parsePrimary_paren) auto
  have "settles (\<lambda>n. parsePrimary n ?q') (r, skip ?q' ?R (node_args r))"
    using logicalPredicateNode.prems logicalPredicateNode.IH(2)[of "skip ?q' [lp] []" rp] nums(2)
    by (intro parsePrimary_paren) auto
  then have r: "settles (\<lambda>n. parsePrimary n (skip ?q [?o] [])) (r, ?e)" by simp
  have q: "ahead ?q = ?o # ?R @ t # ts" and e: "ahead ?e = t # ts"
    using logicalPredicateNode.prems(3) by (simp_all add: numeral_eq_Suc)
  note stop = loops_stop(1)[OF e] loops_stop(2)[OF e]
  have t: "kind t \<noteq> tokenOr" "kind t \<noteq> tokenAnd" using logicalPredicateNode.prems(4) by auto
  consider "oper = ''AND''" | "oper = ''OR''" using logicalPredicateNode.prems(1) by auto
  then have "settles (\<lambda>k. parseOr k p) (logicalPredicateNode oper l r, ?e)"
  proof cases
    case 1
    then have "kind ?o = tokenAnd" by (simp add: logic_tok_def)
    from parseAndLoop_go[OF q this r stop(2)[OF t(2)]] 1 show ?thesis
      by (intro parseOr_settles[OF parseAnd_settles[OF l] stop(1)[OF t(1)]]) simp
  next
    case 2
    then have o: "kind ?o = tokenOr" by (simp add: logic_tok_def)
    have "settles (\<lambda>n. parseAndLoop n l ?q) (l, ?q)" by (rule loops_stop(2)[OF q]) (simp add: o)
    from parseOr_settles[OF parseAnd_settles[OF l this]]
      parseOrLoop_go[OF q o parseAnd_settles[OF r stop(2)[OF t(2)]] stop(1)[OF t(1)]] 2
    show ?thesis by simp
  qed
  then show ?case by simp
qed


section \<open>The round trip\<close>

lemma show_literal_ends:
  assumes "printable_literal v"
  shows "show_literal v \<noteq> [] \<and> \<not> is_space (last (show_literal v))"
proof -
  have "\<not> is_space (last (format_int i))" for i
    using format_int_chars[of i] digits_not_stop by (auto simp: list_all_iff)
  with assms format_int_chars show ?thesis
    by (cases v) (auto simp: printable_literal_def is_space_def)
qed

lemma show_node_ends:
  assumes "printable n"
  shows "show_node n \<noteq> [] \<and> \<not> is_space (hd (show_node n)) \<and> \<not> is_space (last (show_node n))"
proof (cases n)
  case (conditionPredicateNode f oper ops)
  with assms have "f \<noteq> []" "\<not> is_space (hd f)" by (auto simp: printable_field_def list_all_iff)
  moreover have "show_operand (hd ops) \<noteq> [] \<and> \<not> is_space (last (show_operand (hd ops)))"
    if "\<not> is_in_op oper"
  proof -
    have "printable_operand (hd ops)" using assms conditionPredicateNode that by (cases ops) auto
    then show ?thesis using show_literal_ends
      by (auto simp: show_operand_def printable_operand_def is_space_def split: if_splits)
  qed
  ultimately show ?thesis using conditionPredicateNode by (auto simp: is_space_def)
qed (simp add: is_space_def)

lemma prepend_Inr: "prepend ts (Inr us) = Inr (ts @ us)"
  by (induction ts) (auto simp: cons_tok_def)

text \<open>
  C27: the parser inverts the printer. For every predicate built from the operators the code knows
  (comparisons, LIKE, IN and their negations) with any nesting of AND and OR, whose placeholders
  are numbered from left to right, parsing the printed clause with as many arguments as it has
  placeholders gives back exactly that predicate.
\<close>

theorem parse_show:
  assumes "printable n" and "node_args n = [0..<length (Args params)]" and "Where params = show_node n"
  shows "parseQueryPredicate params = Inr \<lparr>root = Some n, pargs = Args params\<rparr>"
proof -
  let ?ts = "node_toks n @ [tok tokenEOF []]"
  let ?p = "\<lparr>tokens = ?ts, pos = 0, args = Args params, nextArg = 0\<rparr>"
  let ?q = "skip ?p (node_toks n) (node_args n)"
  have w: "trim_space (Where params) = show_node n" "show_node n \<noteq> []"
    using show_node_ends[OF assms(1)] by (simp_all add: assms(3) trim_space_def trim_by_id)
  have toks: "tokenizeWhere (show_node n) = Inr ?ts"
    using tokenize_show_node[OF assms(1), of "[]"] by (simp add: tokenizeWhere_def closes_def prepend_Inr)
  have ahead: "ahead ?p = node_toks n @ tok tokenEOF [] # []" by (simp add: ahead_def)
  have "numbered ?p (node_args n)" by (simp add: numbered_def assms(2))
  from parseOr_print[OF assms(1) this ahead] have "settles (\<lambda>k. parseOr k ?p) (n, ?q)" by simp
  then obtain N where N: "\<And>k. N \<le> k \<Longrightarrow> parseOr k ?p = Inr (n, ?q)" by (auto simp: settles_def)
  have "parseExpression (parse_fuel ?ts) ?p \<noteq> Inl OutOfFuel"
    by (rule parse_enough_fuel(1)) (simp add: parse_fuel_def remaining_def)
  then have "parseExpression (parse_fuel ?ts) ?p = parseExpression (Suc (max N (parse_fuel ?ts))) ?p"
    using parse_fuel_mono(1)[of "parse_fuel ?ts" "Suc (max N (parse_fuel ?ts))" ?p] by (simp add: fuel_le_def)
  also have "\<dots> = Inr (n, ?q)" using N by simp
  finally have "parseExpression (parse_fuel ?ts) ?p = Inr (n, ?q)" .
  moreover have "current ?q = tok tokenEOF []" by (simp add: current_def skip_def)
  moreover have "nextArg ?q = length (Args params)" by (simp add: skip_def assms(2))
  ultimately show ?thesis by (simp add: parseQueryPredicate_def w toks)
qed

definition roundtrip_node :: predicateNode where
  "roundtrip_node =
     logicalPredicateNode ''AND''
       (logicalPredicateNode ''OR''
         (conditionPredicateNode ''name'' ''NOT LIKE'' [\<lparr>argIndex = 0, ovalue = VNil, hasLiteral = False\<rparr>])
         (conditionPredicateNode ''note'' ''='' [\<lparr>argIndex = 0, ovalue = VString ''it's'', hasLiteral = True\<rparr>]))
       (conditionPredicateNode ''id'' ''IN''
           [\<lparr>argIndex = 1, ovalue = VNil, hasLiteral = False\<rparr>,
            \<lparr>argIndex = 0, ovalue = VInt S64 (- 7), hasLiteral = True\<rparr>])"

definition roundtrip_params :: QueryParams where
  "roundtrip_params = \<lparr>Where = show_node roundtrip_node, Args = [VString ''a%'', VInt S64 3],
     Order = [], Preloads = [], IncludeDeleted = False\<rparr>"

lemma roundtrip_printable: "printable roundtrip_node"
  by code_simp

theorem parse_show_witness:
  "show_node roundtrip_node = ''((name NOT LIKE ?) OR (note = '' @ [quote_char] @ ''it'' @ [quote_char, quote_char] @ ''s'' @ [quote_char] @
     '')) AND (id IN (?, -7))'' \<and>
   parseQueryPredicate roundtrip_params = Inr \<lparr>root = Some roundtrip_node, pargs = Args roundtrip_params\<rparr>"
proof
  show "show_node roundtrip_node = ''((name NOT LIKE ?) OR (note = '' @ [quote_char] @ ''it'' @ [quote_char, quote_char] @ ''s'' @ [quote_char] @
     '')) AND (id IN (?, -7))''" by code_simp
  show "parseQueryPredicate roundtrip_params = Inr \<lparr>root = Some roundtrip_node, pargs = Args roundtrip_params\<rparr>"
    by (rule parse_show[OF roundtrip_printable])
      (simp_all add: roundtrip_params_def roundtrip_node_def operand_args_def numeral_2_eq_2)
qed

end
