(* ===== verification/Query_Match.thy ===== *)
theory Query_Match
  imports Predicate_Parsing
begin

text \<open>
  Evaluation of a predicate on a model instance: \<^verbatim>\<open>internal/cache/query_match.go\<close> and the
  \<open>Match\<close> methods of \<^verbatim>\<open>internal/cache/query_predicate.go\<close>. A model is the list of its fields,
  \<open>columnToFieldMap\<close> maps a database column to a Go field name (\<open>None\<close> is a nil map).

  A nil interface argument reaches \<open>reflect.Value.Interface\<close> in \<open>compareValues\<close>, which panics; the
  model returns \<open>Panic\<close> there. The panics of \<open>Convert\<close> in \<open>checkInOperator\<close> are recovered by the code
  and become an error.
\<close>

section \<open>Nil values\<close>

definition isArgNil :: "goval \<Rightarrow> bool" where
  "isArgNil v = (case v of VNil \<Rightarrow> True | VPtr _ p \<Rightarrow> p = None | VSlice _ xs \<Rightarrow> xs = None | _ \<Rightarrow> False)"

definition isFieldNil :: "goval \<Rightarrow> bool" where
  "isFieldNil v = (case v of VPtr _ p \<Rightarrow> p = None | VSlice _ xs \<Rightarrow> xs = None | _ \<Rightarrow> False)"

section \<open>Equality\<close>

definition fieldEqualsArg :: "goval \<Rightarrow> goval \<Rightarrow> bool" where
  "fieldEqualsArg fieldVal argValue =
     (if isFieldNil fieldVal then False
      else
        let actual = (case fieldVal of
                        VPtr _ (Some x) \<Rightarrow> if kind_of argValue \<noteq> KPtr then x else fieldVal
                      | _ \<Rightarrow> fieldVal)
        in case (type_of argValue, type_of actual) of
             (Some t, Some u) \<Rightarrow>
               if convertible t u
               then (case convert u argValue of Some c \<Rightarrow> deep_eq actual c | None \<Rightarrow> False)
               else deep_eq actual argValue
           | _ \<Rightarrow> deep_eq actual argValue)"

section \<open>LIKE\<close>

text \<open>The string, whether the value is a string or a pointer to one, and whether it is nil.\<close>

definition stringValueForLike :: "goval \<Rightarrow> string \<times> bool \<times> bool" where
  "stringValueForLike v =
     (case v of
        VNil \<Rightarrow> ([], False, True)
      | VPtr t p \<Rightarrow>
          if t \<noteq> TString then ([], False, False)
          else (case p of None \<Rightarrow> ([], True, True)
                | Some x \<Rightarrow> (case x of VString s \<Rightarrow> s | _ \<Rightarrow> [], True, False))
      | VString s \<Rightarrow> (s, True, False)
      | _ \<Rightarrow> ([], False, False))"

definition matchLike :: "string \<Rightarrow> string \<Rightarrow> bool go_result" where
  "matchLike s pattern0 =
     (if str_contains pattern0 ''_'' then Inl (Errorf ''LIKE pattern with '_' wildcard not supported'')
      else
        let pattern = trim_space pattern0
        in if has_prefix pattern ''%'' \<and> has_suffix pattern ''%'' then
             Inr (str_contains s (trim_cutset pattern ''%''))
           else if has_prefix pattern ''%'' then Inr (has_suffix s (trim_prefix pattern ''%''))
           else if has_suffix pattern ''%'' then Inr (has_prefix s (trim_suffix pattern ''%''))
           else Inr (s = pattern))"

definition like_condition :: "bool \<Rightarrow> goval \<Rightarrow> goval \<Rightarrow> bool go_result" where
  "like_condition negated fieldVal argValue =
     (case (stringValueForLike fieldVal, stringValueForLike argValue) of
        ((modelStr, modelOk, modelNil), (patternStr, patternOk, patternNil)) \<Rightarrow>
          if \<not> modelOk \<or> \<not> patternOk then Inl (Errorf ''LIKE operator requires string field and pattern'')
          else if modelNil \<or> patternNil then Inr False
          else (case matchLike modelStr patternStr of
                  Inl e \<Rightarrow> Inl (Wrapped ''error matching LIKE for field'' e)
                | Inr b \<Rightarrow> Inr (if negated then \<not> b else b)))"

section \<open>Ordering\<close>

definition convertToInt64 :: "goval \<Rightarrow> int option" where
  "convertToInt64 v =
     (case v of
        VInt _ i \<Rightarrow> Some i
      | VUint _ u \<Rightarrow> if max_int64 < u then None else Some u
      | VFloat _ f \<Rightarrow> Some (float_to_int64 f)
      | _ \<Rightarrow> None)"

definition convertToUint64 :: "goval \<Rightarrow> int option" where
  "convertToUint64 v =
     (case v of
        VInt _ i \<Rightarrow> if i < 0 then None else Some i
      | VUint _ u \<Rightarrow> Some u
      | VFloat _ f \<Rightarrow> if float_less f (FFin 0 0) then None else Some (float_to_uint64 f)
      | _ \<Rightarrow> None)"

definition convertToFloat64 :: "goval \<Rightarrow> gofloat option" where
  "convertToFloat64 v =
     (case v of
        VInt _ i \<Rightarrow> Some (float_of_int F64 i)
      | VUint _ u \<Rightarrow> Some (float_of_int F64 u)
      | VFloat _ f \<Rightarrow> Some f
      | _ \<Rightarrow> None)"

text \<open>Go compares strings by bytes.\<close>

fun str_less :: "string \<Rightarrow> string \<Rightarrow> bool" where
  "str_less s [] = False"
| "str_less [] (d # t) = True"
| "str_less (c # s) (d # t) = ((of_char c :: nat) < of_char d \<or> c = d \<and> str_less s t)"

text \<open>The four operators from the strict order and equality of a type.\<close>

definition by_order :: "('a \<Rightarrow> 'a \<Rightarrow> bool) \<Rightarrow> ('a \<Rightarrow> 'a \<Rightarrow> bool) \<Rightarrow> string \<Rightarrow> 'a \<Rightarrow> 'a \<Rightarrow> bool go_result" where
  "by_order lt eq operator m a =
     (if operator = ''>'' then Inr (lt a m)
      else if operator = ''<'' then Inr (lt m a)
      else if operator = ''>='' then Inr (lt a m \<or> eq m a)
      else if operator = ''<='' then Inr (lt m a \<or> eq m a)
      else Inl (Errorf ''unexpected operator in compareValues''))"

definition deref_for_compare :: "string \<Rightarrow> goval \<Rightarrow> goval go_result" where
  "deref_for_compare msg v =
     (case v of VPtr _ None \<Rightarrow> Inl (Errorf msg) | VPtr _ (Some x) \<Rightarrow> Inr x | _ \<Rightarrow> Inr v)"

definition compareValues :: "goval \<Rightarrow> goval \<Rightarrow> string \<Rightarrow> bool go_result" where
  "compareValues modelVal argVal operator =
     bindE (deref_for_compare ''cannot compare a nil model value'' modelVal) (\<lambda>mVal.
     bindE (deref_for_compare ''cannot compare against a nil argument value'' argVal) (\<lambda>aVal.
       if mVal = VNil \<or> aVal = VNil then Inl (Panic ''reflect: call of reflect.Value.Interface on zero Value'')
       else case (mVal, aVal) of
         (VTime m _, VTime a _) \<Rightarrow> by_order (<) (=) operator m a
       | (VInt _ m, _) \<Rightarrow>
           (case convertToInt64 aVal of
              None \<Rightarrow> Inl (Errorf ''model is int type, but arg is incompatible type'')
            | Some a \<Rightarrow> by_order (<) (=) operator m a)
       | (VUint _ m, _) \<Rightarrow>
           (case convertToUint64 aVal of
              None \<Rightarrow> Inl (Errorf ''model is uint type, but arg is incompatible type'')
            | Some a \<Rightarrow> by_order (<) (=) operator m a)
       | (VFloat _ m, _) \<Rightarrow>
           (case convertToFloat64 aVal of
              None \<Rightarrow> Inl (Errorf ''model is float type, but arg is incompatible type'')
            | Some a \<Rightarrow> by_order float_less float_eq operator m a)
       | (VString m, VString a) \<Rightarrow> by_order str_less (=) operator m a
       | (VString _, _) \<Rightarrow> Inl (Errorf ''model is string, but arg is not'')
       | _ \<Rightarrow> Inl (Errorf ''unsupported type for comparison operators'')))"

section \<open>IN\<close>

definition comparable :: "gotype \<Rightarrow> bool" where
  "comparable t = (case t of TSlice _ \<Rightarrow> False | _ \<Rightarrow> True)"

text \<open>
  The loop over the elements: \<open>errs\<close> tells whether a conversion failed so far. \<open>sliceElem.Convert\<close>
  panics, and the panic is recorded, when the element type does not convert to the field type.
\<close>

fun in_loop :: "goval \<Rightarrow> gotype \<Rightarrow> gotype \<Rightarrow> bool \<Rightarrow> bool \<Rightarrow> goval list \<Rightarrow> bool go_result" where
  "in_loop v t u canConvert errs [] =
     (if errs then Inl (Errorf ''incompatible types for IN operator: conversion failed'') else Inr False)"
| "in_loop v t u canConvert errs (x # xs) =
     (if deep_eq v x then Inr True
      else if canConvert \<and> t \<noteq> u then
        (if convertible u t then
           (case convert t x of
              Some c \<Rightarrow> if deep_eq v c then Inr True else in_loop v t u canConvert errs xs
            | None \<Rightarrow> in_loop v t u canConvert True xs)
         else in_loop v t u canConvert True xs)
      else in_loop v t u canConvert errs xs)"

definition checkInOperator :: "goval \<Rightarrow> goval \<Rightarrow> bool go_result" where
  "checkInOperator modelField argSlice =
     (case argSlice of
        VSlice u xs0 \<Rightarrow>
          (let xs = (case xs0 of None \<Rightarrow> [] | Some ys \<Rightarrow> ys)
           in if xs = [] then Inr False
              else case type_of modelField of
                None \<Rightarrow> Inl (Panic ''reflect: Type of zero Value'')
              | Some t \<Rightarrow>
                  (let direct = (comparable t \<and> comparable u \<and> t = u); canConvert = convertible t u
                   in if \<not> direct \<and> \<not> canConvert then Inl (Errorf ''incompatible types for IN operator'')
                      else in_loop modelField t u canConvert False xs))
      | _ \<Rightarrow> Inl (Errorf ''IN operator requires a slice or array argument''))"

section \<open>One condition\<close>

definition resolve_column :: "gomodel \<Rightarrow> (string, string) gomap \<Rightarrow> string \<Rightarrow> goval go_result" where
  "resolve_column modelVal columnToFieldMap colName =
     (case gm_get columnToFieldMap colName of
        Some goFieldName \<Rightarrow>
          (case FieldByName modelVal goFieldName of
             None \<Rightarrow> Inl (Errorf ''field not valid on model'') | Some v \<Rightarrow> Inr v)
      | None \<Rightarrow>
          (case FieldByName modelVal colName of
             None \<Rightarrow> Inl (Errorf ''column from WHERE clause not found in map'') | Some v \<Rightarrow> Inr v))"

definition eval_operator :: "string \<Rightarrow> goval \<Rightarrow> goval \<Rightarrow> bool go_result" where
  "eval_operator operator fieldVal argValue =
     (if operator = ''='' then
        Inr (if isArgNil argValue then isFieldNil fieldVal else fieldEqualsArg fieldVal argValue)
      else if operator = ''!='' \<or> operator = ''<>'' then
        Inr (if isArgNil argValue then \<not> isFieldNil fieldVal else \<not> fieldEqualsArg fieldVal argValue)
      else if operator = ''LIKE'' then like_condition False fieldVal argValue
      else if operator = ''NOT LIKE'' then like_condition True fieldVal argValue
      else if operator \<in> set [''>'', ''<'', ''>='', ''<=''] then compareValues fieldVal argValue operator
      else if operator = ''IN'' then checkInOperator fieldVal argValue
      else if operator = ''NOT IN'' then bindE (checkInOperator fieldVal argValue) (\<lambda>b. Inr (\<not> b))
      else Inl (Errorf ''unsupported operator''))"

definition matchPredicateCondition ::
  "gomodel \<Rightarrow> (string, string) gomap \<Rightarrow> string \<Rightarrow> string \<Rightarrow> goval \<Rightarrow> bool go_result" where
  "matchPredicateCondition modelVal columnToFieldMap colName operator argValue =
     bindE (resolve_column modelVal columnToFieldMap colName)
       (\<lambda>fieldVal. eval_operator operator fieldVal argValue)"

section \<open>Predicates\<close>

fun matchAnyPredicateValue ::
  "gomodel \<Rightarrow> (string, string) gomap \<Rightarrow> string \<Rightarrow> goval list \<Rightarrow> bool go_result" where
  "matchAnyPredicateValue modelVal columnToFieldMap field [] = Inr False"
| "matchAnyPredicateValue modelVal columnToFieldMap field (v # vs) =
     bindE (matchPredicateCondition modelVal columnToFieldMap field ''='' v)
       (\<lambda>matches. if matches then Inr True else matchAnyPredicateValue modelVal columnToFieldMap field vs)"

definition condition_match ::
  "gomodel \<Rightarrow> (string, string) gomap \<Rightarrow> goval list \<Rightarrow> string \<Rightarrow> string \<Rightarrow> predicateOperand list \<Rightarrow> bool go_result" where
  "condition_match modelVal columnToFieldMap as field operator operands =
     bindE (resolveOperands operands as) (\<lambda>values.
       if values = [] then Inl (Errorf ''condition for field has no operands'')
       else if operator = ''IN'' \<or> operator = ''NOT IN'' then
         (if single_placeholder operands values
          then matchPredicateCondition modelVal columnToFieldMap field operator (hd values)
          else bindE (matchAnyPredicateValue modelVal columnToFieldMap field values)
            (\<lambda>matches. Inr (if operator = ''NOT IN'' then \<not> matches else matches)))
       else if length values \<noteq> 1 then Inl (Errorf ''operator requires exactly one operand'')
       else matchPredicateCondition modelVal columnToFieldMap field operator (hd values))"

fun node_match :: "gomodel \<Rightarrow> (string, string) gomap \<Rightarrow> goval list \<Rightarrow> predicateNode \<Rightarrow> bool go_result" where
  "node_match modelVal columnToFieldMap as (logicalPredicateNode oper l r) =
     bindE (node_match modelVal columnToFieldMap as l) (\<lambda>left.
       if oper = ''AND'' then (if \<not> left then Inr False else node_match modelVal columnToFieldMap as r)
       else if oper = ''OR'' then (if left then Inr True else node_match modelVal columnToFieldMap as r)
       else Inl (Errorf ''unsupported logical operator''))"
| "node_match modelVal columnToFieldMap as (conditionPredicateNode f oper ops) =
     condition_match modelVal columnToFieldMap as f oper ops"

definition Match :: "queryPredicate option \<Rightarrow> gomodel \<Rightarrow> (string, string) gomap \<Rightarrow> bool go_result" where
  "Match p modelVal columnToFieldMap =
     (case p of
        None \<Rightarrow> Inr True
      | Some pr \<Rightarrow> (case root pr of None \<Rightarrow> Inr True | Some n \<Rightarrow> node_match modelVal columnToFieldMap (pargs pr) n))"

definition CheckQueryMatchWithPredicate ::
  "gomodel option \<Rightarrow> string \<Rightarrow> (string, string) gomap option \<Rightarrow> QueryParams \<Rightarrow> queryPredicate option \<Rightarrow> bool go_result" where
  "CheckQueryMatchWithPredicate model tableName columnToFieldMap params pred =
     (case model of
        None \<Rightarrow> Inl (Errorf ''model cannot be nil'')
      | Some modelVal \<Rightarrow>
          if tableName = [] then Inl (Errorf ''tableName cannot be empty'')
          else case columnToFieldMap of
            None \<Rightarrow> Inl (Errorf ''columnToFieldMap cannot be nil'')
          | Some m \<Rightarrow>
              (case pred of
                 Some pr \<Rightarrow> Match (Some pr) modelVal m
               | None \<Rightarrow> bindE (parseQueryPredicate params) (\<lambda>pr. Match (Some pr) modelVal m)))"

definition CheckQueryMatch ::
  "gomodel option \<Rightarrow> string \<Rightarrow> (string, string) gomap option \<Rightarrow> QueryParams \<Rightarrow> bool go_result" where
  "CheckQueryMatch model tableName columnToFieldMap params =
     CheckQueryMatchWithPredicate model tableName columnToFieldMap params None"


section \<open>A predicate reads only its fields\<close>

text \<open>The columns of a predicate, and models that agree on them.\<close>

fun node_columns :: "predicateNode \<Rightarrow> string set" where
  "node_columns (logicalPredicateNode _ l r) = node_columns l \<union> node_columns r"
| "node_columns (conditionPredicateNode f _ _) = {f}"

lemma ks_node_fields: "ks_has (node_fields n out) c \<longleftrightarrow> c \<in> node_columns n \<or> ks_has out c"
  by (induction n arbitrary: out) auto

lemma node_fields_get: "gm_get (node_fields n out) c = (if c \<in> node_columns n then Some True else gm_get out c)"
  by (induction n arbitrary: out) auto

lemma set_Fields: "set (Fields p) = (case root p of None \<Rightarrow> {} | Some n \<Rightarrow> node_columns n)"
  by (auto simp: Fields_def node_fields_get split: option.splits if_splits)

definition agree_on :: "(string, string) gomap \<Rightarrow> string set \<Rightarrow> gomodel \<Rightarrow> gomodel \<Rightarrow> bool" where
  "agree_on colmap C m m' \<longleftrightarrow> (\<forall>c\<in>C. resolve_column m colmap c = resolve_column m' colmap c)"

lemma agree_on_mono: "agree_on colmap C m m' \<Longrightarrow> D \<subseteq> C \<Longrightarrow> agree_on colmap D m m'"
  by (auto simp: agree_on_def)

lemma condition_match_agree:
  assumes "agree_on colmap {f} m m'"
  shows "condition_match m colmap as f oper ops = condition_match m' colmap as f oper ops"
proof -
  have "matchPredicateCondition m colmap f op' v = matchPredicateCondition m' colmap f op' v" for op' v
    using assms by (simp add: matchPredicateCondition_def agree_on_def)
  moreover from this have "matchAnyPredicateValue m colmap f vs = matchAnyPredicateValue m' colmap f vs" for vs
    by (induction vs) (simp_all cong: bindE_cong if_cong)
  ultimately show ?thesis by (simp add: condition_match_def cong: bindE_cong if_cong)
qed

lemma node_match_agree:
  "agree_on colmap (node_columns n) m m' \<Longrightarrow> node_match m colmap as n = node_match m' colmap as n"
proof (induction n)
  case (logicalPredicateNode oper l r)
  then have "agree_on colmap (node_columns l) m m'" "agree_on colmap (node_columns r) m m'"
    by (auto elim: agree_on_mono)
  with logicalPredicateNode.IH show ?case by (simp cong: bindE_cong if_cong)
qed (simp add: condition_match_agree)

lemma Match_agree:
  assumes "agree_on colmap (set (Fields pr)) m m'"
  shows "Match (Some pr) m colmap = Match (Some pr) m' colmap"
  using assms by (auto simp: Match_def set_Fields node_match_agree split: option.splits)

section \<open>LIKE against its SQL meaning\<close>

text \<open>The meaning of a pattern without \<open>_\<close> and escapes: a percent sign stands for any bytes.\<close>

fun sql_like :: "string \<Rightarrow> string \<Rightarrow> bool" where
  "sql_like [] s \<longleftrightarrow> s = []"
| "sql_like (c # p) s \<longleftrightarrow>
     (if c = CHR ''%'' then (\<exists>k \<le> length s. sql_like p (drop k s))
      else case s of [] \<Rightarrow> False | d # s' \<Rightarrow> c = d \<and> sql_like p s')"

lemma sql_like_literal: "CHR ''%'' \<notin> set t \<Longrightarrow> sql_like (t @ p) s \<longleftrightarrow> (\<exists>r. s = t @ r \<and> sql_like p r)"
  by (induction t arbitrary: s) (auto split: list.splits)

lemma sql_like_percent: "sql_like (CHR ''%'' # p) s \<longleftrightarrow> (\<exists>a r. s = a @ r \<and> sql_like p r)"
proof -
  have "(\<exists>k \<le> length s. sql_like p (drop k s)) \<longleftrightarrow> (\<exists>a r. s = a @ r \<and> sql_like p r)"
    by (metis append_eq_conv_conj append_take_drop_id length_append le_add1)
  then show ?thesis by simp
qed

lemma sql_like_percents: "0 < n \<Longrightarrow> sql_like (replicate n CHR ''%'' @ p) s \<longleftrightarrow> (\<exists>a r. s = a @ r \<and> sql_like p r)"
proof (induction n arbitrary: s)
  case (Suc n)
  have "sql_like (replicate (Suc n) CHR ''%'' @ p) s \<longleftrightarrow> (\<exists>a r. s = a @ r \<and> sql_like (replicate n CHR ''%'' @ p) r)"
    by (simp add: sql_like_percent del: sql_like.simps)
  also have "\<dots> \<longleftrightarrow> (\<exists>a r. s = a @ r \<and> sql_like p r)"
  proof (cases "n = 0")
    case False
    with Suc.IH show ?thesis by (auto simp: ) (metis append.assoc)+
  qed simp
  finally show ?case .
qed simp


lemma trim_cutset_percent:
  assumes "CHR ''%'' \<notin> set t"
  shows "trim_cutset (replicate a CHR ''%'' @ t @ replicate b CHR ''%'') ''%'' = t"
proof -
  have drop: "dropWhile (\<lambda>c. c = CHR ''%'') (replicate k CHR ''%'' @ r) = dropWhile (\<lambda>c. c = CHR ''%'') r" for k r
    by (induction k) auto
  have all: "dropWhile (\<lambda>c. c = CHR ''%'') (replicate k CHR ''%'') = []" for k
    by (induction k) auto
  have id: "dropWhile (\<lambda>c. c = CHR ''%'') (u @ r) = u @ r" if "u \<noteq> []" "CHR ''%'' \<notin> set u" for u r
    using that by (cases u) auto
  show ?thesis
  proof (cases "t = []")
    case True
    then show ?thesis
      by (simp add: trim_cutset_def trim_by_def drop all)
  next
    case False
    with assms show ?thesis
      using id[of t "replicate b CHR ''%''"] id[of "rev t" "[]"] by (simp add: trim_cutset_def trim_by_def drop)
  qed
qed

lemma has_prefix_percent:
  "CHR ''%'' \<notin> set t \<Longrightarrow>
   has_prefix (replicate a CHR ''%'' @ t @ replicate b CHR ''%'') ''%'' \<longleftrightarrow> 0 < a \<or> t = [] \<and> 0 < b"
  by (cases a; cases t; cases b) (auto simp: has_prefix_def)

lemma has_suffix_percent:
  assumes "CHR ''%'' \<notin> set t"
  shows "has_suffix (replicate a CHR ''%'' @ t @ replicate b CHR ''%'') ''%'' \<longleftrightarrow> 0 < b \<or> t = [] \<and> 0 < a"
proof -
  have rev: "has_suffix s p \<longleftrightarrow> has_prefix (rev s) (rev p)" for s p
    by (auto simp: has_suffix_iff has_prefix_iff) (metis rev_append rev_rev_ident)
  show ?thesis using has_prefix_percent[of "rev t" b a] assms by (simp add: rev)
qed

lemma sql_like_ends:
  assumes "CHR ''%'' \<notin> set t"
  shows "sql_like (replicate a CHR ''%'' @ t @ replicate b CHR ''%'') s \<longleftrightarrow>
    (\<exists>x y. s = x @ t @ y \<and> (a = 0 \<longrightarrow> x = []) \<and> (b = 0 \<longrightarrow> y = []))"
proof -
  have tail: "sql_like (replicate b CHR ''%'') r \<longleftrightarrow> (b = 0 \<longrightarrow> r = [])" for r
    using sql_like_percents[of b "[]" r] by (cases b) auto
  have mid: "sql_like (t @ replicate b CHR ''%'') r \<longleftrightarrow> (\<exists>y. r = t @ y \<and> (b = 0 \<longrightarrow> y = []))" for r
    by (simp add: sql_like_literal[OF assms] tail)
  show ?thesis
  proof (cases "a = 0")
    case False
    then show ?thesis using sql_like_percents[of a "t @ replicate b CHR ''%''" s] by (auto simp: mid)
  qed (auto simp: mid)
qed

text \<open>
  C29: LIKE. For a pattern without \<open>_\<close> whose percent signs are at its ends, and which has no
  surrounding white space, \<open>matchLike\<close> decides the SQL meaning of the pattern.
\<close>

theorem matchLike_sql:
  assumes "CHR ''%'' \<notin> set t" and "CHR ''_'' \<notin> set t"
    and "t \<noteq> [] \<Longrightarrow> (a \<le> 1 \<or> 0 < b) \<and> (b \<le> 1 \<or> 0 < a)"
    and "t \<noteq> [] \<Longrightarrow> a = 0 \<Longrightarrow> \<not> is_space (hd t)" and "t \<noteq> [] \<Longrightarrow> b = 0 \<Longrightarrow> \<not> is_space (last t)"
    and "p = replicate a CHR ''%'' @ t @ replicate b CHR ''%''"
  shows "matchLike s p = Inr (sql_like p s)"
proof -
  have "CHR ''_'' \<notin> set p" using assms(2,6) by auto
  then have no_us: "\<not> str_contains p ''_''" by (auto simp: str_contains_iff)
  have trim: "trim_space p = p" unfolding trim_space_def
  proof (rule trim_by_id)
    show "\<not> is_space (hd p)" if "p \<noteq> []"
      using that assms(4,6) by (cases a; cases t; cases b) (auto simp: is_space_def)
    show "\<not> is_space (last p)" if "p \<noteq> []"
      using that assms(5,6) by (cases b; cases "t = []"; cases a) (auto simp: is_space_def last_append)
  qed
  note pre = has_prefix_percent[OF assms(1), of a b, folded assms(6)]
  note suf = has_suffix_percent[OF assms(1), of a b, folded assms(6)]
  note like = sql_like_ends[OF assms(1), of a b s, folded assms(6)]
  note simps = matchLike_def no_us trim pre suf like
  consider "0 < a \<and> 0 < b \<or> t = [] \<and> 0 < a + b" | "a = 1" "b = 0" "t \<noteq> []" | "a = 0" "b = 1" "t \<noteq> []" | "a = 0" "b = 0"
    using assms(3) by fastforce
  then show ?thesis
  proof cases
    case 1
    have "trim_cutset p ''%'' = t" using trim_cutset_percent[OF assms(1)] assms(6) by simp
    with 1 show ?thesis using str_contains_iff[of s t] by (auto simp: simps)
  next
    case 2
    moreover have "trim_prefix p ''%'' = t" using 2 by (simp add: trim_prefix_def pre) (simp add: assms(6))
    ultimately show ?thesis using has_suffix_iff[of s t] by (simp add: simps)
  next
    case 3
    moreover have "trim_suffix p ''%'' = t" using 3 by (simp add: trim_suffix_def suf) (simp add: assms(6))
    ultimately show ?thesis using has_prefix_iff[of s t] by (simp add: simps)
  next
    case 4
    then show ?thesis by (simp add: simps) (simp add: assms(6))
  qed
qed

theorem matchLike_sql_witness:
  "matchLike ''alice'' ''%lic%'' = Inr (sql_like ''%lic%'' ''alice'') \<and> matchLike ''alice'' ''%lic%'' = Inr True"
proof
  show "matchLike ''alice'' ''%lic%'' = Inr (sql_like ''%lic%'' ''alice'')"
    by (rule matchLike_sql[of "''lic''" 1 1]) simp_all
  show "matchLike ''alice'' ''%lic%'' = Inr True" by code_simp
qed

text \<open>A percent sign inside the pattern is matched literally, which SQL does not do.\<close>

lemma matchLike_interior_percent:
  "matchLike ''axb'' ''a%b'' = Inr False \<and> sql_like ''a%b'' ''axb''"
proof
  show "matchLike ''axb'' ''a%b'' = Inr False" by code_simp
  have "sql_like ''%b'' ''xb''" unfolding sql_like_percent by (rule exI[of _ "''x''"], rule exI[of _ "''b''"]) simp
  then show "sql_like ''a%b'' ''axb''" using sql_like_literal[of "''a''" "''%b''" "''axb''"] by (simp del: sql_like.simps)
qed

end
