(* ===== verification/Cache_Index.thy ===== *)
theory Cache_Index
  imports Query_Match
begin

text \<open>
  The index from tables and columns to the query cache keys that depend on them:
  \<^verbatim>\<open>internal/cache/index.go\<close>. The nested maps of the code are nested association lists; a map of the
  outer levels has one entry per key (\<open>index_ok\<close>), as a Go map has. The methods of the code run
  under the lock of the index, so each is one step here.

  \<open>fmt_v\<close> stands for what \<^verbatim>\<open>fmt.Sprintf\<close> and \<^verbatim>\<open>String\<close> print for floats, times, pointers and
  slices. Every theorem holds for any such function.
\<close>

section \<open>Dependencies of a query\<close>

record QueryDependencies =
  WhereFields :: keyset
  OrderFields :: keyset
  HasUncertainOrder :: bool

definition uncertainDependencyField :: string where
  "uncertainDependencyField = ''*''"

definition contains_any :: "string \<Rightarrow> string \<Rightarrow> bool" where
  "contains_any s cs \<longleftrightarrow> list_ex (\<lambda>c. c \<in> set cs) s"

definition normalizeOrderIdentifier :: "string \<Rightarrow> string option" where
  "normalizeOrderIdentifier i0 =
     (let identifier = trim_space i0
      in if identifier = [] \<or> contains_any identifier ''()+-*/'' then None
         else
           let parts = split_on CHR ''.'' identifier;
               id1 = trim_space (last parts);
               id2 = trim_cutset id1 [CHR 0x22, CHR 0x60];
               id3 = (if has_prefix id2 ''['' \<and> has_suffix id2 '']''
                      then trim_prefix (trim_suffix id2 '']'') ''['' else id2)
           in if id3 = [] \<or> contains_any id3 [CHR '' '', CHR 0x09, CHR 0x0A, CHR 0x0D] then None else Some id3)"

fun order_loop :: "string list \<Rightarrow> string list \<Rightarrow> bool \<Rightarrow> string list \<times> bool" where
  "order_loop [] flds uncertain = (flds, uncertain)"
| "order_loop (clause0 # cs) flds uncertain =
     (let clause = trim_space clause0
      in if clause = [] then order_loop cs flds True
         else
           let parts = str_fields clause
           in if parts = [] then order_loop cs flds True
              else
                let u1 = (uncertain \<or> 2 < length parts);
                    u2 = (u1 \<or> length parts = 2 \<and> \<not> equal_fold (parts ! 1) ''ASC'' \<and> \<not> equal_fold (parts ! 1) ''DESC'')
                in case normalizeOrderIdentifier (hd parts) of
                     None \<Rightarrow> order_loop cs flds True
                   | Some field \<Rightarrow> order_loop cs (if field \<in> set flds then flds else flds @ [field]) u2)"

definition ParseOrderFields :: "string \<Rightarrow> string list \<times> bool" where
  "ParseOrderFields order = (if trim_space order = [] then ([], False) else order_loop (split_on CHR '','' order) [] False)"

definition keyset_of :: "string list \<Rightarrow> keyset \<Rightarrow> keyset" where
  "keyset_of fs m = foldl (\<lambda>m f. gm_set f True m) m fs"

definition buildQueryDependencies :: "string list \<Rightarrow> bool \<Rightarrow> string \<Rightarrow> bool \<Rightarrow> QueryDependencies" where
  "buildQueryDependencies whereFields uncertainWhere order isListKey =
     (let wf = keyset_of whereFields [];
          wf' = (if uncertainWhere then gm_set uncertainDependencyField True wf else wf);
          (orderFields, uncertain) = (if isListKey \<and> order \<noteq> [] then ParseOrderFields order else ([], False))
      in \<lparr>WhereFields = wf', OrderFields = keyset_of orderFields [], HasUncertainOrder = uncertain\<rparr>)"

section \<open>The heuristic for clauses the parser rejects\<close>

definition is_tab_blank :: "char \<Rightarrow> bool" where
  "is_tab_blank c \<longleftrightarrow> c = CHR '' '' \<or> c = CHR 0x09"

definition trimSpace :: "string \<Rightarrow> string" where
  "trimSpace s = trim_by is_tab_blank s"

text \<open>\<open>string(s[i])\<close> of a byte is the UTF-8 encoding of the code point of that value.\<close>

fun splitFields_from :: "string \<Rightarrow> string \<Rightarrow> string list" where
  "splitFields_from cur [] = (if cur \<noteq> [] then [cur] else [])"
| "splitFields_from cur (c # s) =
     (if is_tab_blank c then (if cur \<noteq> [] then cur # splitFields_from [] s else splitFields_from [] s)
      else splitFields_from (cur @ utf8_encode (int (of_char c))) s)"

definition splitFields :: "string \<Rightarrow> string list" where
  "splitFields s = splitFields_from [] s"

text \<open>
  \<open>splitByAND\<close> at position \<open>i\<close>: \<open>prev\<close> is the byte before it, if any, and \<open>seg\<close> the bytes since \<open>last\<close>.
  After a match the code goes on at \<open>i + 1\<close>, inside the keyword, where no further match can start:
  its three bytes are no longer part of the segment.
\<close>

fun splitByAND_from :: "nat \<Rightarrow> char option \<Rightarrow> string \<Rightarrow> string \<Rightarrow> string list" where
  "splitByAND_from skipped prev seg [] = [seg]"
| "splitByAND_from skipped prev seg (c # s) =
     (if 0 < skipped then splitByAND_from (skipped - 1) (Some c) seg s
      else if to_upper (take 3 (c # s)) = ''AND'' \<and> (prev = None \<or> prev = Some CHR '' '') \<and>
              (length s = 2 \<or> 2 < length s \<and> s ! 2 = CHR '' '')
      then seg # splitByAND_from 2 (Some c) [] s
      else splitByAND_from 0 (Some c) (seg @ [c]) s)"

definition splitByAND :: "string \<Rightarrow> string list" where
  "splitByAND s = splitByAND_from 0 None [] s"

definition splitAndConditions :: "string \<Rightarrow> string list" where
  "splitAndConditions w = map trimSpace (splitByAND w)"

definition legacyExtractAllWhereFields :: "QueryParams \<Rightarrow> string list" where
  "legacyExtractAllWhereFields params =
     (if Where params = [] then []
      else concat (map (\<lambda>cond0. let cond = trimSpace cond0
                                 in if cond = [] then [] else take 1 (splitFields cond))
             (splitAndConditions (Where params))))"

definition legacy_in_values :: "goval \<Rightarrow> goval list" where
  "legacy_in_values arg =
     (case arg of
        VSlice t (Some vs) \<Rightarrow> if t = TIface \<or> t = TInt S0 \<or> t = TString then vs else []
      | _ \<Rightarrow> [])"

fun legacy_exact_loop :: "string list \<Rightarrow> goval list \<Rightarrow> (string, goval list) gomap \<Rightarrow> (string, goval list) gomap" where
  "legacy_exact_loop [] as out = out"
| "legacy_exact_loop (cond0 # cs) as out =
     (let cond = trimSpace cond0
      in if cond = [] then legacy_exact_loop cs as out
         else case as of
           [] \<Rightarrow> legacy_exact_loop cs [] out
         | a # as' \<Rightarrow>
             (let parts = splitFields cond
              in if length parts = 3 \<and> parts ! 1 = ''='' \<and> parts ! 2 = ''?''
                 then legacy_exact_loop cs as' (gm_set (parts ! 0) [a] out)
                 else if length parts = 3 \<and> parts ! 1 = ''IN'' \<and> parts ! 2 = ''(?)''
                 then (let vals = legacy_in_values a
                       in legacy_exact_loop cs as' (if vals \<noteq> [] then gm_set (parts ! 0) vals out else out))
                 else legacy_exact_loop cs as' out))"

definition legacyParseExactMatchFields :: "QueryParams \<Rightarrow> (string, goval list) gomap" where
  "legacyParseExactMatchFields params =
     (if Where params = [] \<or> Args params = [] then []
      else legacy_exact_loop (splitAndConditions (Where params)) (Args params) [])"

definition ParseExactMatchFields :: "QueryParams \<Rightarrow> (string, goval list) gomap" where
  "ParseExactMatchFields params =
     (case parseQueryPredicate params of
        Inr predicate \<Rightarrow> ExactMatches predicate
      | Inl _ \<Rightarrow> legacyParseExactMatchFields params)"

definition parseQueryForIndex :: "QueryParams \<Rightarrow> string list \<times> bool \<times> (string, goval list) gomap" where
  "parseQueryForIndex params =
     (case parseQueryPredicate params of
        Inr predicate \<Rightarrow> (Fields predicate, False, ExactMatches predicate)
      | Inl _ \<Rightarrow> (legacyExtractAllWhereFields params, True, legacyParseExactMatchFields params))"

definition toIndexValueString :: "(goval \<Rightarrow> string) \<Rightarrow> goval \<Rightarrow> string" where
  "toIndexValueString fmt_v v =
     (case v of
        VString s \<Rightarrow> s
      | VInt _ i \<Rightarrow> format_int i
      | VUint _ u \<Rightarrow> format_int u
      | VBool b \<Rightarrow> (if b then ''true'' else ''false'')
      | VNil \<Rightarrow> ''<nil>''
      | _ \<Rightarrow> fmt_v v)"

section \<open>Nested maps of key sets\<close>

text \<open>Adding a key creates the inner maps on the way; removing it drops the maps it leaves empty.\<close>

definition get_or_empty :: "('k, ('a \<times> 'b) list) gomap \<Rightarrow> 'k \<Rightarrow> ('a \<times> 'b) list" where
  "get_or_empty m k = (case gm_get m k of None \<Rightarrow> [] | Some x \<Rightarrow> x)"

type_synonym keys2 = "(string, keyset) gomap"
type_synonym keys3 = "(string, keys2) gomap"
type_synonym keys4 = "(string, keys3) gomap"

definition add2 :: "string \<Rightarrow> string \<Rightarrow> keys2 \<Rightarrow> keys2" where
  "add2 t k m = gm_set t (gm_set k True (get_or_empty m t)) m"

definition add3 :: "string \<Rightarrow> string \<Rightarrow> string \<Rightarrow> keys3 \<Rightarrow> keys3" where
  "add3 t f k m = gm_set t (add2 f k (get_or_empty m t)) m"

definition drop_empty :: "('k, ('a \<times> 'b) list) gomap \<Rightarrow> ('k, ('a \<times> 'b) list) gomap" where
  "drop_empty m = filter (\<lambda>e. snd e \<noteq> []) m"

definition del2 :: "string \<Rightarrow> keys2 \<Rightarrow> keys2" where
  "del2 k m = drop_empty (map (\<lambda>(t, ks). (t, gm_del k ks)) m)"

definition del3 :: "string \<Rightarrow> keys3 \<Rightarrow> keys3" where
  "del3 k m = drop_empty (map (\<lambda>(t, fm). (t, del2 k fm)) m)"

definition del4 :: "string \<Rightarrow> keys4 \<Rightarrow> keys4" where
  "del4 k m = drop_empty (map (\<lambda>(t, fm). (t, del3 k fm)) m)"

section \<open>The index\<close>

record CacheIndex =
  keyToParams :: "(string, QueryParams) gomap"
  keyToDependencies :: "(string, QueryDependencies) gomap"
  keyToPredicate :: "(string, queryPredicate option) gomap"
  tableToQueryKeys :: keys2
  DependencyIndex :: keys3
  valueIndex :: keys4
  FieldIndex :: keys3
  TableToFullTableListKeys :: keys2
  TableToFullTableCountKeys :: keys2

definition NewCacheIndex :: CacheIndex where
  "NewCacheIndex = \<lparr>keyToParams = [], keyToDependencies = [], keyToPredicate = [], tableToQueryKeys = [],
     DependencyIndex = [], valueIndex = [], FieldIndex = [], TableToFullTableListKeys = [],
     TableToFullTableCountKeys = []\<rparr>"

definition addDependencyLocked :: "string \<Rightarrow> string \<Rightarrow> string \<Rightarrow> keys3 \<Rightarrow> keys3" where
  "addDependencyLocked tableName field cacheKey m = (if field = [] then m else add3 tableName field cacheKey m)"

definition add_dependencies :: "string \<Rightarrow> string \<Rightarrow> QueryDependencies \<Rightarrow> keys3 \<Rightarrow> keys3" where
  "add_dependencies tableName cacheKey deps m =
     (let m1 = foldl (\<lambda>m f. addDependencyLocked tableName f cacheKey m) m (gm_keys (WhereFields deps));
          m2 = foldl (\<lambda>m f. addDependencyLocked tableName f cacheKey m) m1 (gm_keys (OrderFields deps))
      in if HasUncertainOrder deps then addDependencyLocked tableName uncertainDependencyField cacheKey m2 else m2)"

definition add_field_values ::
  "(goval \<Rightarrow> string) \<Rightarrow> string \<Rightarrow> string \<Rightarrow> string \<Rightarrow> goval list \<Rightarrow> keys4 \<Rightarrow> keys4" where
  "add_field_values fmt_v tableName cacheKey field vals m =
     (let tbl = get_or_empty m tableName;
          fld = foldl (\<lambda>fm v. add2 (toIndexValueString fmt_v v) cacheKey fm) (get_or_empty tbl field) vals
      in gm_set tableName (gm_set field fld tbl) m)"

definition add_values ::
  "(goval \<Rightarrow> string) \<Rightarrow> string \<Rightarrow> string \<Rightarrow> (string, goval list) gomap \<Rightarrow> keys4 \<Rightarrow> keys4" where
  "add_values fmt_v tableName cacheKey exactFields m =
     foldl (\<lambda>m e. add_field_values fmt_v tableName cacheKey (fst e) (snd e) m) m exactFields"

definition is_list_key :: "string \<Rightarrow> bool" where
  "is_list_key k = has_prefix k ''list:''"

definition is_count_key :: "string \<Rightarrow> bool" where
  "is_count_key k = (has_prefix k ''count:'' \<or> has_prefix k ''count_precise:'')"

definition RegisterQuery ::
  "(goval \<Rightarrow> string) \<Rightarrow> CacheIndex \<Rightarrow> string \<Rightarrow> string \<Rightarrow> QueryParams \<Rightarrow> CacheIndex" where
  "RegisterQuery fmt_v idx tableName cacheKey params =
     (if tableName = [] \<or> cacheKey = [] then idx
      else
        let pred = (case parseQueryPredicate params of Inl _ \<Rightarrow> None | Inr p \<Rightarrow> Some p);
            (whereFields, uncertainWhere, exactFields) = parseQueryForIndex params;
            deps = buildQueryDependencies whereFields uncertainWhere (Order params) (is_list_key cacheKey)
        in \<lparr>keyToParams = gm_set cacheKey params (keyToParams idx),
            keyToDependencies = gm_set cacheKey deps (keyToDependencies idx),
            keyToPredicate = gm_set cacheKey pred (keyToPredicate idx),
            tableToQueryKeys = add2 tableName cacheKey (tableToQueryKeys idx),
            DependencyIndex = add_dependencies tableName cacheKey deps (DependencyIndex idx),
            valueIndex = add_values fmt_v tableName cacheKey exactFields (valueIndex idx),
            FieldIndex = foldl (\<lambda>m f. add3 tableName f cacheKey m) (FieldIndex idx) whereFields,
            TableToFullTableListKeys =
              (if Where params = [] \<and> is_list_key cacheKey
               then add2 tableName cacheKey (TableToFullTableListKeys idx) else TableToFullTableListKeys idx),
            TableToFullTableCountKeys =
              (if Where params = [] \<and> is_count_key cacheKey
               then add2 tableName cacheKey (TableToFullTableCountKeys idx) else TableToFullTableCountKeys idx)\<rparr>)"

definition DeregisterQuery :: "CacheIndex \<Rightarrow> string \<Rightarrow> CacheIndex" where
  "DeregisterQuery idx cacheKey =
     (if cacheKey = [] then idx
      else
        \<lparr>keyToParams = gm_del cacheKey (keyToParams idx),
         keyToDependencies = gm_del cacheKey (keyToDependencies idx),
         keyToPredicate = gm_del cacheKey (keyToPredicate idx),
         tableToQueryKeys = del2 cacheKey (tableToQueryKeys idx),
         DependencyIndex = del3 cacheKey (DependencyIndex idx),
         valueIndex = del4 cacheKey (valueIndex idx),
         FieldIndex = del3 cacheKey (FieldIndex idx),
         TableToFullTableListKeys = del2 cacheKey (TableToFullTableListKeys idx),
         TableToFullTableCountKeys = del2 cacheKey (TableToFullTableCountKeys idx)\<rparr>)"

section \<open>Lookups\<close>

definition keys_at2 :: "keys2 \<Rightarrow> string \<Rightarrow> string list" where
  "keys_at2 m t = gm_keys (get_or_empty m t)"

definition keys_at3 :: "keys3 \<Rightarrow> string \<Rightarrow> string \<Rightarrow> string list" where
  "keys_at3 m t f = keys_at2 (get_or_empty m t) f"

definition keys_at4 :: "keys4 \<Rightarrow> string \<Rightarrow> string \<Rightarrow> string \<Rightarrow> string list" where
  "keys_at4 m t f v = keys_at3 (get_or_empty m t) f v"

definition GetQueryParamsForKey :: "CacheIndex \<Rightarrow> string \<Rightarrow> QueryParams option" where
  "GetQueryParamsForKey idx cacheKey = (if cacheKey = [] then None else gm_get (keyToParams idx) cacheKey)"

definition GetQueryDependenciesForKey :: "CacheIndex \<Rightarrow> string \<Rightarrow> QueryDependencies option" where
  "GetQueryDependenciesForKey idx cacheKey = (if cacheKey = [] then None else gm_get (keyToDependencies idx) cacheKey)"

definition GetCachedPredicate :: "CacheIndex \<Rightarrow> string \<Rightarrow> queryPredicate option" where
  "GetCachedPredicate idx cacheKey =
     (if cacheKey = [] then None else case gm_get (keyToPredicate idx) cacheKey of None \<Rightarrow> None | Some p \<Rightarrow> p)"

definition GetQueryKeysForTable :: "CacheIndex \<Rightarrow> string \<Rightarrow> string list" where
  "GetQueryKeysForTable idx tableName = (if tableName = [] then [] else keys_at2 (tableToQueryKeys idx) tableName)"

definition GetKeysByChangedFields :: "CacheIndex \<Rightarrow> string \<Rightarrow> keyset \<Rightarrow> string list" where
  "GetKeysByChangedFields idx table changedFields =
     (if table = [] \<or> changedFields = [] then []
      else gm_keys (keyset_of (concat (map (keys_at3 (DependencyIndex idx) table) (gm_keys changedFields)) @
                               keys_at3 (DependencyIndex idx) table uncertainDependencyField) []))"

definition GetKeysByFieldIndex :: "CacheIndex \<Rightarrow> string \<Rightarrow> keyset \<Rightarrow> string list" where
  "GetKeysByFieldIndex idx table candidateFields =
     gm_keys (keyset_of (concat (map (keys_at3 (FieldIndex idx) table) (gm_keys candidateFields))) [])"

definition GetKeysByValue :: "(goval \<Rightarrow> string) \<Rightarrow> CacheIndex \<Rightarrow> string \<Rightarrow> string \<Rightarrow> goval \<Rightarrow> string list" where
  "GetKeysByValue fmt_v idx table field value =
     (if table = [] \<or> field = [] then []
      else keys_at4 (valueIndex idx) table field (toIndexValueString fmt_v value))"

definition GetFullTableListKeys :: "CacheIndex \<Rightarrow> string \<Rightarrow> string list" where
  "GetFullTableListKeys idx tableName = keys_at2 (TableToFullTableListKeys idx) tableName"

definition GetFullTableCountKeys :: "CacheIndex \<Rightarrow> string \<Rightarrow> string list" where
  "GetFullTableCountKeys idx tableName = keys_at2 (TableToFullTableCountKeys idx) tableName"

definition GetAllRegisteredKeys :: "CacheIndex \<Rightarrow> string list" where
  "GetAllRegisteredKeys idx = gm_keys (keyToParams idx)"

record InvalidationContext =
  CacheKeys :: "string list"
  KeyToParams :: "(string, QueryParams) gomap"
  KeyToDeps :: "(string, QueryDependencies) gomap"
  KeyToPredicate :: "(string, queryPredicate option) gomap"

definition candidate_keys ::
  "(goval \<Rightarrow> string) \<Rightarrow> CacheIndex \<Rightarrow> string \<Rightarrow> (string, goval) gomap \<Rightarrow> keyset \<Rightarrow> string list" where
  "candidate_keys fmt_v idx tableName fieldValues candidateColumns =
     concat (map (\<lambda>(col, val). if \<not> ks_has candidateColumns col then []
                               else keys_at4 (valueIndex idx) tableName col (toIndexValueString fmt_v val)) fieldValues)
     @ concat (map (keys_at3 (FieldIndex idx) tableName) (gm_keys candidateColumns))
     @ keys_at2 (TableToFullTableListKeys idx) tableName
     @ keys_at2 (TableToFullTableCountKeys idx) tableName
     @ concat (map (keys_at3 (DependencyIndex idx) tableName) (gm_keys candidateColumns))
     @ keys_at3 (DependencyIndex idx) tableName uncertainDependencyField"

definition GetInvalidationContext ::
  "(goval \<Rightarrow> string) \<Rightarrow> CacheIndex \<Rightarrow> string \<Rightarrow> (string, goval) gomap \<Rightarrow> keyset \<Rightarrow> InvalidationContext" where
  "GetInvalidationContext fmt_v idx tableName fieldValues candidateColumns =
     (let keys = gm_keys (keyset_of (candidate_keys fmt_v idx tableName fieldValues candidateColumns) [])
      in if keys = [] then \<lparr>CacheKeys = [], KeyToParams = [], KeyToDeps = [], KeyToPredicate = []\<rparr>
         else
           \<lparr>CacheKeys = keys,
            KeyToParams = concat (map (\<lambda>k. case gm_get (keyToParams idx) k of None \<Rightarrow> [] | Some p \<Rightarrow> [(k, p)]) keys),
            KeyToDeps = concat (map (\<lambda>k. case gm_get (keyToDependencies idx) k of None \<Rightarrow> [] | Some d \<Rightarrow> [(k, d)]) keys),
            KeyToPredicate = map (\<lambda>k. (k, case gm_get (keyToPredicate idx) k of None \<Rightarrow> None | Some p \<Rightarrow> p)) keys\<rparr>)"


section \<open>Membership after an update\<close>

lemma set_keys_at2: "k \<in> set (keys_at2 m t) \<longleftrightarrow> gm_get (get_or_empty m t) k \<noteq> None"
  by (simp add: keys_at2_def)

lemma get_or_empty_set [simp]: "get_or_empty (gm_set t x m) u = (if u = t then x else get_or_empty m u)"
  by (simp add: get_or_empty_def)

lemma get_or_empty_Nil [simp]: "get_or_empty [] t = []"
  by (simp add: get_or_empty_def)

lemma keys_at_Nil [simp]: "keys_at2 [] t = []" "keys_at3 [] t f = []" "keys_at4 [] t f v = []"
  by (simp_all add: keys_at2_def keys_at3_def keys_at4_def gm_keys_def)

lemma keys_at_add2 [simp]: "k' \<in> set (keys_at2 (add2 t k m) t') \<longleftrightarrow> (t' = t \<and> k' = k) \<or> k' \<in> set (keys_at2 m t')"
  by (auto simp: add2_def set_keys_at2)

lemma keys_at_add3 [simp]:
  "k' \<in> set (keys_at3 (add3 t f k m) t' f') \<longleftrightarrow> (t' = t \<and> f' = f \<and> k' = k) \<or> k' \<in> set (keys_at3 m t' f')"
  by (auto simp: add3_def keys_at3_def)

lemma keys_at_foldl_add3:
  "k' \<in> set (keys_at3 (foldl (\<lambda>m f. add3 t f k m) m fs) t' f') \<longleftrightarrow>
     (t' = t \<and> f' \<in> set fs \<and> k' = k) \<or> k' \<in> set (keys_at3 m t' f')"
  by (induction fs arbitrary: m) auto

lemma keys_at_dep [simp]:
  "k' \<in> set (keys_at3 (addDependencyLocked t f k m) t' f') \<longleftrightarrow>
     (t' = t \<and> f' = f \<and> f \<noteq> [] \<and> k' = k) \<or> k' \<in> set (keys_at3 m t' f')"
  by (auto simp: addDependencyLocked_def)

lemma keys_at_foldl_dep:
  "k' \<in> set (keys_at3 (foldl (\<lambda>m f. addDependencyLocked t f k m) m fs) t' f') \<longleftrightarrow>
     (t' = t \<and> f' \<in> set fs \<and> f' \<noteq> [] \<and> k' = k) \<or> k' \<in> set (keys_at3 m t' f')"
  by (induction fs arbitrary: m) auto

lemma keys_at_foldl_values:
  "k' \<in> set (keys_at2 (foldl (\<lambda>fm v. add2 (g v) k fm) m vals) w) \<longleftrightarrow>
     (w \<in> g ` set vals \<and> k' = k) \<or> k' \<in> set (keys_at2 m w)"
  by (induction vals arbitrary: m) auto

lemma keys_at_add_field_values:
  "k' \<in> set (keys_at4 (add_field_values fmt_v t k f vals m) t' f' w) \<longleftrightarrow>
     (t' = t \<and> f' = f \<and> k' = k \<and> w \<in> toIndexValueString fmt_v ` set vals) \<or> k' \<in> set (keys_at4 m t' f' w)"
  by (auto simp: add_field_values_def keys_at4_def keys_at3_def Let_def keys_at_foldl_values)

lemma keys_at_add_values:
  "k' \<in> set (keys_at4 (add_values fmt_v t k ex m) t' f' w) \<longleftrightarrow>
     (t' = t \<and> k' = k \<and> (\<exists>vals. (f', vals) \<in> set ex \<and> w \<in> toIndexValueString fmt_v ` set vals)) \<or>
     k' \<in> set (keys_at4 m t' f' w)"
  unfolding add_values_def
proof (induction ex arbitrary: m)
  case (Cons e ex)
  show ?case by (cases e) (auto simp: Cons keys_at_add_field_values)
qed simp

section \<open>One entry per key\<close>

definition ok2 :: "keys2 \<Rightarrow> bool" where
  "ok2 m \<longleftrightarrow> distinct (map fst m)"

definition ok3 :: "keys3 \<Rightarrow> bool" where
  "ok3 m \<longleftrightarrow> distinct (map fst m) \<and> (\<forall>t. ok2 (get_or_empty m t))"

definition ok4 :: "keys4 \<Rightarrow> bool" where
  "ok4 m \<longleftrightarrow> distinct (map fst m) \<and> (\<forall>t. ok3 (get_or_empty m t))"

lemma ok_Nil [simp]: "ok2 []" "ok3 []" "ok4 []"
  by (simp_all add: ok2_def ok3_def ok4_def)

lemma ok2_add [simp]: "ok2 m \<Longrightarrow> ok2 (add2 t k m)"
  by (simp add: ok2_def add2_def distinct_update)

lemma ok3_set: "ok3 m \<Longrightarrow> ok2 x \<Longrightarrow> ok3 (gm_set t x m)"
  by (simp add: ok3_def distinct_update)

lemma ok3_get [simp]: "ok3 m \<Longrightarrow> ok2 (get_or_empty m t)"
  by (simp add: ok3_def)

lemma ok4_get [simp]: "ok4 m \<Longrightarrow> ok3 (get_or_empty m t)"
  by (simp add: ok4_def)

lemma ok3_add [simp]: "ok3 m \<Longrightarrow> ok3 (add3 t f k m)"
  by (simp add: add3_def ok3_set)

lemma ok_foldl_invariant: "(\<And>m x. P m \<Longrightarrow> P (g m x)) \<Longrightarrow> P m \<Longrightarrow> P (foldl g m xs)"
  by (induction xs arbitrary: m) auto

lemma ok3_dep [simp]: "ok3 m \<Longrightarrow> ok3 (addDependencyLocked t f k m)"
  by (simp add: addDependencyLocked_def)

lemma ok3_foldl_dep: "ok3 m \<Longrightarrow> ok3 (foldl (\<lambda>m f. addDependencyLocked t f k m) m fs)"
  by (rule ok_foldl_invariant[rotated]) simp_all

lemma ok3_foldl_add3 [simp]: "ok3 m \<Longrightarrow> ok3 (foldl (\<lambda>m f. add3 t f k m) m fs)"
  by (rule ok_foldl_invariant[rotated]) simp_all

lemma ok3_add_dependencies [simp]: "ok3 m \<Longrightarrow> ok3 (add_dependencies t k deps m)"
  by (simp add: add_dependencies_def Let_def ok3_foldl_dep)

lemma ok4_add_field_values: "ok4 m \<Longrightarrow> ok4 (add_field_values fmt_v t k f vals m)"
proof -
  assume "ok4 m"
  moreover have "ok2 (foldl (\<lambda>fm v. add2 (toIndexValueString fmt_v v) k fm) fm vals)" if "ok2 fm" for fm
    using that by (rule ok_foldl_invariant[rotated]) simp
  ultimately show ?thesis
    by (auto simp: add_field_values_def ok4_def distinct_update Let_def intro!: ok3_set)
qed

lemma ok4_add_values [simp]: "ok4 m \<Longrightarrow> ok4 (add_values fmt_v t k ex m)"
  unfolding add_values_def by (rule ok_foldl_invariant[rotated]) (auto simp: ok4_add_field_values)

lemma map_of_drop_empty:
  "distinct (map fst m) \<Longrightarrow> gm_get (drop_empty m) t = (case gm_get m t of None \<Rightarrow> None | Some x \<Rightarrow> if x = [] then None else Some x)"
  by (induction m) (auto simp: drop_empty_def map_of_eq_None_iff split: option.splits)

lemma get_or_empty_drop_empty: "distinct (map fst m) \<Longrightarrow> get_or_empty (drop_empty m) t = get_or_empty m t"
  by (simp add: get_or_empty_def map_of_drop_empty split: option.splits)

lemma distinct_drop_empty: "distinct (map fst m) \<Longrightarrow> distinct (map fst (drop_empty m))"
  by (simp add: drop_empty_def distinct_map_filter)

lemma map_fst_apsnd: "map fst (map (\<lambda>(t, x). (t, g x)) m) = map fst m"
  by (induction m) auto

lemma get_or_empty_map:
  "g [] = [] \<Longrightarrow> get_or_empty (map (\<lambda>(t, x). (t, g x)) m) u = g (get_or_empty m u)"
  by (simp add: get_or_empty_def map_of_map split: option.splits)

lemma get_or_empty_prune:
  "distinct (map fst m) \<Longrightarrow> g [] = [] \<Longrightarrow>
   get_or_empty (drop_empty (map (\<lambda>(t, x). (t, g x)) m)) u = g (get_or_empty m u)"
  by (subst get_or_empty_drop_empty, subst map_fst_apsnd) (auto simp: get_or_empty_map)

lemma distinct_prune: "distinct (map fst m) \<Longrightarrow> distinct (map fst (drop_empty (map (\<lambda>(t, x). (t, g x)) m)))"
  by (rule distinct_drop_empty, subst map_fst_apsnd)

lemma del_Nil [simp]: "del2 k [] = []" "del3 k [] = []"
  by (simp_all add: del2_def del3_def drop_empty_def)

lemma get_or_empty_del2: "ok2 m \<Longrightarrow> get_or_empty (del2 k m) t = gm_del k (get_or_empty m t)"
  by (simp add: del2_def ok2_def get_or_empty_prune)

lemma get_or_empty_del3: "ok3 m \<Longrightarrow> get_or_empty (del3 k m) t = del2 k (get_or_empty m t)"
  by (simp add: del3_def ok3_def get_or_empty_prune)

lemma get_or_empty_del4: "ok4 m \<Longrightarrow> get_or_empty (del4 k m) t = del3 k (get_or_empty m t)"
  by (simp add: del4_def ok4_def get_or_empty_prune)

lemma ok2_del [simp]: "ok2 m \<Longrightarrow> ok2 (del2 k m)"
  by (simp add: ok2_def del2_def distinct_prune)

lemma ok3_del [simp]:
  assumes "ok3 m"
  shows "ok3 (del3 k m)"
proof -
  have "\<forall>t. ok2 (get_or_empty (del3 k m) t)" using assms by (simp add: get_or_empty_del3)
  moreover have "distinct (map fst (del3 k m))" using assms by (simp add: ok3_def del3_def distinct_prune)
  ultimately show ?thesis by (simp add: ok3_def)
qed

lemma ok4_del [simp]:
  assumes "ok4 m"
  shows "ok4 (del4 k m)"
proof -
  have "\<forall>t. ok3 (get_or_empty (del4 k m) t)" using assms by (simp add: get_or_empty_del4)
  moreover have "distinct (map fst (del4 k m))" using assms by (simp add: ok4_def del4_def distinct_prune)
  ultimately show ?thesis by (simp add: ok4_def)
qed

lemma keys_at_del:
  "ok2 m2 \<Longrightarrow> k' \<in> set (keys_at2 (del2 k m2) t) \<longleftrightarrow> k' \<noteq> k \<and> k' \<in> set (keys_at2 m2 t)"
  "ok3 m3 \<Longrightarrow> k' \<in> set (keys_at3 (del3 k m3) t f) \<longleftrightarrow> k' \<noteq> k \<and> k' \<in> set (keys_at3 m3 t f)"
  "ok4 m4 \<Longrightarrow> k' \<in> set (keys_at4 (del4 k m4) t f v) \<longleftrightarrow> k' \<noteq> k \<and> k' \<in> set (keys_at4 m4 t f v)"
  by (auto simp: set_keys_at2 keys_at3_def keys_at4_def get_or_empty_del2 get_or_empty_del3 get_or_empty_del4 split: if_splits)

lemma set_keyset_of: "set (gm_keys (keyset_of fs m)) = set fs \<union> set (gm_keys m)"
  unfolding keyset_of_def by (induction fs arbitrary: m) (auto split: if_splits)

lemma keyset_of_mem [simp]: "(\<exists>y. gm_get (keyset_of fs []) k = Some y) \<longleftrightarrow> k \<in> set fs"
  using set_keyset_of[of fs "[]"] by (auto simp: set_eq_iff)

lemma distinct_keyset_of: "distinct (gm_keys m) \<Longrightarrow> distinct (gm_keys (keyset_of fs m))"
  unfolding keyset_of_def gm_keys_def
  by (induction fs arbitrary: m) (auto simp: distinct_update)


section \<open>The index as a set of registrations\<close>

text \<open>
  The abstract view of an index is the list of its registrations (table, key, parameters), the
  latest first; deregistering a key drops every registration of it.
\<close>

type_synonym registrations = "(string \<times> string \<times> QueryParams) list"

definition where_fields :: "QueryParams \<Rightarrow> string list" where
  "where_fields p = fst (parseQueryForIndex p)"

definition exact_fields :: "QueryParams \<Rightarrow> (string, goval list) gomap" where
  "exact_fields p = snd (snd (parseQueryForIndex p))"

definition key_predicate :: "QueryParams \<Rightarrow> queryPredicate option" where
  "key_predicate p = (case parseQueryPredicate p of Inl _ \<Rightarrow> None | Inr pr \<Rightarrow> Some pr)"

definition key_deps :: "string \<Rightarrow> QueryParams \<Rightarrow> QueryDependencies" where
  "key_deps k p =
     buildQueryDependencies (where_fields p) (fst (snd (parseQueryForIndex p))) (Order p) (is_list_key k)"

definition dep_fields :: "string \<Rightarrow> QueryParams \<Rightarrow> string set" where
  "dep_fields k p =
     {f. f \<noteq> [] \<and> (gm_get (WhereFields (key_deps k p)) f \<noteq> None \<or> gm_get (OrderFields (key_deps k p)) f \<noteq> None \<or>
                    f = uncertainDependencyField \<and> HasUncertainOrder (key_deps k p))}"

definition index_values :: "(goval \<Rightarrow> string) \<Rightarrow> QueryParams \<Rightarrow> string \<Rightarrow> string set" where
  "index_values fmt_v p f = {w. \<exists>vals. (f, vals) \<in> set (exact_fields p) \<and> w \<in> toIndexValueString fmt_v ` set vals}"

fun latest :: "registrations \<Rightarrow> string \<Rightarrow> QueryParams option" where
  "latest [] k = None"
| "latest ((t, k', p) # H) k = (if k = k' then Some p else latest H k)"

definition registered :: "registrations \<Rightarrow> string \<Rightarrow> string \<Rightarrow> (QueryParams \<Rightarrow> bool) \<Rightarrow> bool" where
  "registered H t k P \<longleftrightarrow> (\<exists>p. (t, k, p) \<in> set H \<and> P p)"

definition index_repr :: "(goval \<Rightarrow> string) \<Rightarrow> CacheIndex \<Rightarrow> registrations \<Rightarrow> bool" where
  "index_repr fmt_v idx H \<longleftrightarrow>
     ok2 (tableToQueryKeys idx) \<and> ok3 (DependencyIndex idx) \<and> ok4 (valueIndex idx) \<and> ok3 (FieldIndex idx) \<and>
     ok2 (TableToFullTableListKeys idx) \<and> ok2 (TableToFullTableCountKeys idx) \<and>
     (\<forall>t k. k \<in> set (keys_at2 (tableToQueryKeys idx) t) \<longleftrightarrow> registered H t k (\<lambda>p. True)) \<and>
     (\<forall>t f k. k \<in> set (keys_at3 (DependencyIndex idx) t f) \<longleftrightarrow> registered H t k (\<lambda>p. f \<in> dep_fields k p)) \<and>
     (\<forall>t f v k. k \<in> set (keys_at4 (valueIndex idx) t f v) \<longleftrightarrow> registered H t k (\<lambda>p. v \<in> index_values fmt_v p f)) \<and>
     (\<forall>t f k. k \<in> set (keys_at3 (FieldIndex idx) t f) \<longleftrightarrow> registered H t k (\<lambda>p. f \<in> set (where_fields p))) \<and>
     (\<forall>t k. k \<in> set (keys_at2 (TableToFullTableListKeys idx) t) \<longleftrightarrow>
        registered H t k (\<lambda>p. Where p = [] \<and> is_list_key k)) \<and>
     (\<forall>t k. k \<in> set (keys_at2 (TableToFullTableCountKeys idx) t) \<longleftrightarrow>
        registered H t k (\<lambda>p. Where p = [] \<and> is_count_key k)) \<and>
     (\<forall>k. gm_get (keyToParams idx) k = latest H k) \<and>
     (\<forall>k. gm_get (keyToPredicate idx) k = map_option key_predicate (latest H k)) \<and>
     (\<forall>k. gm_get (keyToDependencies idx) k = map_option (key_deps k) (latest H k))"

lemma registered_Nil [simp]: "\<not> registered [] t k P"
  by (simp add: registered_def)

lemma registered_Cons [simp]:
  "registered ((t, k, p) # H) t' k' P \<longleftrightarrow> (t' = t \<and> k' = k \<and> P p) \<or> registered H t' k' P"
  by (auto simp: registered_def)

definition forget :: "string \<Rightarrow> registrations \<Rightarrow> registrations" where
  "forget k H = filter (\<lambda>(t, k', p). k' \<noteq> k) H"

lemma registered_forget [simp]: "registered (forget k H) t k' P \<longleftrightarrow> k' \<noteq> k \<and> registered H t k' P"
  by (auto simp: registered_def forget_def)

lemma latest_forget [simp]: "latest (forget k H) k' = (if k' = k then None else latest H k')"
  unfolding forget_def by (induction H) auto

lemma index_repr_empty: "index_repr fmt_v NewCacheIndex []"
  by (simp add: index_repr_def NewCacheIndex_def)

lemma keys_at_add_dependencies:
  "k' \<in> set (keys_at3 (add_dependencies t k (key_deps k p) m) t' f) \<longleftrightarrow>
     (t' = t \<and> k' = k \<and> f \<in> dep_fields k p) \<or> k' \<in> set (keys_at3 m t' f)"
  by (auto simp: add_dependencies_def Let_def keys_at_foldl_dep dep_fields_def)

lemma index_repr_register:
  assumes "index_repr fmt_v idx H" and "t \<noteq> []" and "k \<noteq> []"
  shows "index_repr fmt_v (RegisterQuery fmt_v idx t k p) ((t, k, p) # H)"
proof -
  have "RegisterQuery fmt_v idx t k p =
      \<lparr>keyToParams = gm_set k p (keyToParams idx),
       keyToDependencies = gm_set k (key_deps k p) (keyToDependencies idx),
       keyToPredicate = gm_set k (key_predicate p) (keyToPredicate idx),
       tableToQueryKeys = add2 t k (tableToQueryKeys idx),
       DependencyIndex = add_dependencies t k (key_deps k p) (DependencyIndex idx),
       valueIndex = add_values fmt_v t k (exact_fields p) (valueIndex idx),
       FieldIndex = foldl (\<lambda>m f. add3 t f k m) (FieldIndex idx) (where_fields p),
       TableToFullTableListKeys =
         (if Where p = [] \<and> is_list_key k then add2 t k (TableToFullTableListKeys idx) else TableToFullTableListKeys idx),
       TableToFullTableCountKeys =
         (if Where p = [] \<and> is_count_key k then add2 t k (TableToFullTableCountKeys idx) else TableToFullTableCountKeys idx)\<rparr>"
    using assms(2,3)
    by (simp add: RegisterQuery_def Let_def split_beta where_fields_def exact_fields_def key_deps_def key_predicate_def)
  then show ?thesis using assms(1) unfolding index_repr_def
    by (elim conjE, intro conjI)
      (auto simp: keys_at_add_dependencies keys_at_add_values keys_at_foldl_add3 index_values_def)
qed

lemma index_repr_deregister:
  assumes "index_repr fmt_v idx H" and "k \<noteq> []"
  shows "index_repr fmt_v (DeregisterQuery idx k) (forget k H)"
  using assms by (simp add: index_repr_def DeregisterQuery_def keys_at_del)


section \<open>What the lookups return\<close>

text \<open>A key registered with parameters \<open>p\<close> is a candidate for a change of the columns \<open>cand\<close>.\<close>

definition selected :: "(goval \<Rightarrow> string) \<Rightarrow> (string, goval) gomap \<Rightarrow> keyset \<Rightarrow> string \<Rightarrow> QueryParams \<Rightarrow> bool" where
  "selected fmt_v fieldValues cand k p \<longleftrightarrow>
     (\<exists>(c, v) \<in> set fieldValues. ks_has cand c \<and> toIndexValueString fmt_v v \<in> index_values fmt_v p c) \<or>
     (\<exists>f. gm_get cand f \<noteq> None \<and> f \<in> set (where_fields p) \<union> dep_fields k p) \<or>
     (Where p = [] \<and> (is_list_key k \<or> is_count_key k)) \<or>
     uncertainDependencyField \<in> dep_fields k p"

lemma registered_Or:
  "registered H t k (\<lambda>p. P p \<or> Q p) \<longleftrightarrow> registered H t k P \<or> registered H t k Q"
  by (auto simp: registered_def)

lemma registered_latest: "registered H t k P \<Longrightarrow> latest H k \<noteq> None"
proof (induction H)
  case (Cons r H)
  then show ?case by (cases r) (auto split: if_splits)
qed simp

lemma gm_get_collect:
  "gm_get (concat (map (\<lambda>k. case gm_get M k of None \<Rightarrow> [] | Some p \<Rightarrow> [(k, p)]) keys)) k =
     (if k \<in> set keys then gm_get M k else None)"
  by (induction keys) (auto split: option.splits simp: map_add_def)

lemma gm_get_tabulate: "gm_get (map (\<lambda>k. (k, g k)) keys) k = (if k \<in> set keys then Some (g k) else None)"
  by (induction keys) auto

lemma set_candidate_keys:
  assumes "index_repr fmt_v idx H"
  shows "k \<in> set (candidate_keys fmt_v idx t fv cand) \<longleftrightarrow> registered H t k (selected fmt_v fv cand k)"
proof -
  have "registered H t k (selected fmt_v fv cand k) \<longleftrightarrow>
      (\<exists>(c, v) \<in> set fv. ks_has cand c \<and> registered H t k (\<lambda>p. toIndexValueString fmt_v v \<in> index_values fmt_v p c)) \<or>
      (\<exists>f. gm_get cand f \<noteq> None \<and> registered H t k (\<lambda>p. f \<in> set (where_fields p))) \<or>
      (\<exists>f. gm_get cand f \<noteq> None \<and> registered H t k (\<lambda>p. f \<in> dep_fields k p)) \<or>
      registered H t k (\<lambda>p. Where p = [] \<and> is_list_key k) \<or> registered H t k (\<lambda>p. Where p = [] \<and> is_count_key k) \<or>
      registered H t k (\<lambda>p. uncertainDependencyField \<in> dep_fields k p)"
    unfolding registered_def selected_def by blast
  moreover have "k \<in> set (candidate_keys fmt_v idx t fv cand) \<longleftrightarrow>
      (\<exists>(c, v) \<in> set fv. ks_has cand c \<and> k \<in> set (keys_at4 (valueIndex idx) t c (toIndexValueString fmt_v v))) \<or>
      (\<exists>f. gm_get cand f \<noteq> None \<and> k \<in> set (keys_at3 (FieldIndex idx) t f)) \<or>
      (\<exists>f. gm_get cand f \<noteq> None \<and> k \<in> set (keys_at3 (DependencyIndex idx) t f)) \<or>
      k \<in> set (keys_at2 (TableToFullTableListKeys idx) t) \<or> k \<in> set (keys_at2 (TableToFullTableCountKeys idx) t) \<or>
      k \<in> set (keys_at3 (DependencyIndex idx) t uncertainDependencyField)"
    by (auto simp: candidate_keys_def split: if_splits)
  ultimately show ?thesis using assms unfolding index_repr_def by (simp only:)
qed

lemma invalidation_keys:
  assumes "index_repr fmt_v idx H"
  shows "k \<in> set (CacheKeys (GetInvalidationContext fmt_v idx t fv cand)) \<longleftrightarrow> registered H t k (selected fmt_v fv cand k)"
  using set_candidate_keys[OF assms, of k t fv cand] set_keyset_of[of "candidate_keys fmt_v idx t fv cand" "[]"]
  by (auto simp: GetInvalidationContext_def Let_def gm_keys_def)

lemma invalidation_metadata:
  assumes "index_repr fmt_v idx H" and "k \<in> set (CacheKeys (GetInvalidationContext fmt_v idx t fv cand))"
  shows "\<exists>p. latest H k = Some p \<and>
    gm_get (KeyToParams (GetInvalidationContext fmt_v idx t fv cand)) k = Some p \<and>
    gm_get (KeyToDeps (GetInvalidationContext fmt_v idx t fv cand)) k = Some (key_deps k p) \<and>
    gm_get (KeyToPredicate (GetInvalidationContext fmt_v idx t fv cand)) k = Some (key_predicate p)"
proof -
  obtain p where p: "latest H k = Some p"
    using registered_latest invalidation_keys[OF assms(1)] assms(2) by blast
  let ?ks = "gm_keys (keyset_of (candidate_keys fmt_v idx t fv cand) [])"
  have k: "k \<in> set ?ks" "?ks \<noteq> []" using assms(2) by (auto simp: GetInvalidationContext_def Let_def split: if_splits)
  have "gm_get (keyToParams idx) k = Some p" "gm_get (keyToDependencies idx) k = Some (key_deps k p)"
    "gm_get (keyToPredicate idx) k = Some (key_predicate p)"
    using assms(1) p by (simp_all add: index_repr_def)
  with k p show ?thesis
    by (simp add: GetInvalidationContext_def Let_def gm_get_collect gm_get_tabulate del: set_gm_keys)
qed

lemma distinct_CacheKeys: "distinct (CacheKeys (GetInvalidationContext fmt_v idx t fv cand))"
  using distinct_keyset_of[of "[]" "candidate_keys fmt_v idx t fv cand"]
  by (simp add: GetInvalidationContext_def Let_def gm_keys_def)

section \<open>The contract of an index\<close>

text \<open>
  The operations of an index and their laws, over any representation: after any sequence of
  registrations and removals, a lookup finds exactly the keys whose registration is in the
  history and selects the change.
\<close>

datatype index_op = Register string string QueryParams | Deregister string

fun history_step :: "registrations \<Rightarrow> index_op \<Rightarrow> registrations" where
  "history_step H (Register t k p) = (if t = [] \<or> k = [] then H else (t, k, p) # H)"
| "history_step H (Deregister k) = (if k = [] then H else forget k H)"

definition history :: "index_op list \<Rightarrow> registrations" where
  "history ops = foldl history_step [] ops"

fun index_step :: "('i \<Rightarrow> string \<Rightarrow> string \<Rightarrow> QueryParams \<Rightarrow> 'i) \<Rightarrow> ('i \<Rightarrow> string \<Rightarrow> 'i) \<Rightarrow> 'i \<Rightarrow> index_op \<Rightarrow> 'i" where
  "index_step register deregister idx (Register t k p) = register idx t k p"
| "index_step register deregister idx (Deregister k) = deregister idx k"

locale query_index =
  fixes repr :: "'i \<Rightarrow> registrations \<Rightarrow> bool"
    and new_index :: 'i
    and register :: "'i \<Rightarrow> string \<Rightarrow> string \<Rightarrow> QueryParams \<Rightarrow> 'i"
    and deregister :: "'i \<Rightarrow> string \<Rightarrow> 'i"
    and affected :: "'i \<Rightarrow> string \<Rightarrow> (string, goval) gomap \<Rightarrow> keyset \<Rightarrow> string list"
    and selects :: "(string, goval) gomap \<Rightarrow> keyset \<Rightarrow> string \<Rightarrow> QueryParams \<Rightarrow> bool"
  assumes repr_new: "repr new_index []"
    and repr_register: "repr idx H \<Longrightarrow> t \<noteq> [] \<Longrightarrow> k \<noteq> [] \<Longrightarrow> repr (register idx t k p) ((t, k, p) # H)"
    and register_ignored: "t = [] \<or> k = [] \<Longrightarrow> register idx t k p = idx"
    and repr_deregister: "repr idx H \<Longrightarrow> k \<noteq> [] \<Longrightarrow> repr (deregister idx k) (forget k H)"
    and deregister_ignored: "deregister idx [] = idx"
    and affected_iff: "repr idx H \<Longrightarrow> k \<in> set (affected idx t fv cand) \<longleftrightarrow> registered H t k (selects fv cand k)"
begin

lemma repr_step: "repr idx H \<Longrightarrow> repr (index_step register deregister idx op) (history_step H op)"
  by (cases op) (auto simp: register_ignored deregister_ignored repr_register repr_deregister)

lemma repr_steps: "repr idx H \<Longrightarrow> repr (foldl (index_step register deregister) idx ops) (foldl history_step H ops)"
  by (induction ops arbitrary: idx H) (auto simp: repr_step)

lemma repr_run: "repr (foldl (index_step register deregister) new_index ops) (history ops)"
  unfolding history_def by (rule repr_steps[OF repr_new])

lemma affected_run:
  "set (affected (foldl (index_step register deregister) new_index ops) t fv cand) =
    {k. registered (history ops) t k (selects fv cand k)}"
  using affected_iff[OF repr_run] by blast

lemma deregister_forgets:
  assumes "repr idx H"
  shows "set (affected (deregister idx k) t fv cand) = set (affected idx t fv cand) - (if k = [] then {} else {k})"
proof (cases "k = []")
  case False
  then show ?thesis using affected_iff[OF assms] affected_iff[OF repr_deregister[OF assms False]] by auto
qed (simp add: deregister_ignored)

end

lemma RegisterQuery_ignored: "t = [] \<or> k = [] \<Longrightarrow> RegisterQuery fmt_v idx t k p = idx"
  by (simp add: RegisterQuery_def)

lemma DeregisterQuery_ignored: "DeregisterQuery idx [] = idx"
  by (simp add: DeregisterQuery_def)

interpretation ci: query_index "index_repr fmt_v" NewCacheIndex "RegisterQuery fmt_v" DeregisterQuery
  "\<lambda>idx t fv cand. CacheKeys (GetInvalidationContext fmt_v idx t fv cand)" "selected fmt_v" for fmt_v
  by unfold_locales
    (simp_all add: index_repr_empty index_repr_register index_repr_deregister invalidation_keys
      RegisterQuery_ignored DeregisterQuery_ignored)

definition run_index :: "(goval \<Rightarrow> string) \<Rightarrow> index_op list \<Rightarrow> CacheIndex" where
  "run_index fmt_v ops = foldl (index_step (RegisterQuery fmt_v) DeregisterQuery) NewCacheIndex ops"

lemma run_index_repr: "index_repr fmt_v (run_index fmt_v ops) (history ops)"
  unfolding run_index_def by (rule ci.repr_run)


lemma history_nonempty: "registered (history ops) t k P \<Longrightarrow> t \<noteq> [] \<and> k \<noteq> []"
proof -
  have "registered (foldl history_step H ops) t k P \<Longrightarrow> (\<And>P. registered H t k P \<Longrightarrow> t \<noteq> [] \<and> k \<noteq> []) \<Longrightarrow> t \<noteq> [] \<and> k \<noteq> []"
    for H
  proof (induction ops arbitrary: H)
    case (Cons op ops)
    have "t \<noteq> [] \<and> k \<noteq> []" if "registered (history_step H op) t k Q" for Q
      using that Cons.prems(2) by (cases op) (auto split: if_splits)
    with Cons.IH Cons.prems(1) show ?case by auto
  qed auto
  from this[of "[]"] show "registered (history ops) t k P \<Longrightarrow> t \<noteq> [] \<and> k \<noteq> []" by (simp add: history_def)
qed

lemma index_reprD:
  assumes "index_repr fmt_v idx H"
  shows "k \<in> set (keys_at2 (tableToQueryKeys idx) t) \<longleftrightarrow> registered H t k (\<lambda>p. True)"
    and "k \<in> set (keys_at3 (DependencyIndex idx) t f) \<longleftrightarrow> registered H t k (\<lambda>p. f \<in> dep_fields k p)"
    and "k \<in> set (keys_at4 (valueIndex idx) t f v) \<longleftrightarrow> registered H t k (\<lambda>p. v \<in> index_values fmt_v p f)"
    and "k \<in> set (keys_at3 (FieldIndex idx) t f) \<longleftrightarrow> registered H t k (\<lambda>p. f \<in> set (where_fields p))"
    and "k \<in> set (keys_at2 (TableToFullTableListKeys idx) t) \<longleftrightarrow> registered H t k (\<lambda>p. Where p = [] \<and> is_list_key k)"
    and "k \<in> set (keys_at2 (TableToFullTableCountKeys idx) t) \<longleftrightarrow> registered H t k (\<lambda>p. Where p = [] \<and> is_count_key k)"
    and "gm_get (keyToParams idx) k = latest H k"
  using assms by (simp_all add: index_repr_def)

text \<open>The keys each lookup returns, in terms of the registrations.\<close>

lemma lookup_keys:
  assumes "index_repr fmt_v idx H"
  shows "k \<in> set (GetQueryKeysForTable idx t) \<longleftrightarrow> t \<noteq> [] \<and> registered H t k (\<lambda>_. True)"
    and "k \<in> set (GetKeysByValue fmt_v idx t f v) \<longleftrightarrow>
      t \<noteq> [] \<and> f \<noteq> [] \<and> registered H t k (\<lambda>p. toIndexValueString fmt_v v \<in> index_values fmt_v p f)"
    and "k \<in> set (GetKeysByFieldIndex idx t cand) \<longleftrightarrow>
      (\<exists>f. gm_get cand f \<noteq> None \<and> registered H t k (\<lambda>p. f \<in> set (where_fields p)))"
    and "k \<in> set (GetFullTableListKeys idx t) \<longleftrightarrow> registered H t k (\<lambda>p. Where p = [] \<and> is_list_key k)"
    and "k \<in> set (GetFullTableCountKeys idx t) \<longleftrightarrow> registered H t k (\<lambda>p. Where p = [] \<and> is_count_key k)"
    and "k \<in> set (GetAllRegisteredKeys idx) \<longleftrightarrow> latest H k \<noteq> None"
    and "k \<in> set (GetKeysByChangedFields idx t cand) \<longleftrightarrow> t \<noteq> [] \<and> cand \<noteq> [] \<and>
      ((\<exists>f. gm_get cand f \<noteq> None \<and> registered H t k (\<lambda>p. f \<in> dep_fields k p)) \<or>
       registered H t k (\<lambda>p. uncertainDependencyField \<in> dep_fields k p))"
  by (simp_all add: index_reprD[OF assms] GetQueryKeysForTable_def GetKeysByValue_def GetKeysByFieldIndex_def
      GetFullTableListKeys_def GetFullTableCountKeys_def GetAllRegisteredKeys_def GetKeysByChangedFields_def
      Bex_def)

section \<open>Properties\<close>

text \<open>
  C24: the index finds exactly what it should. After any sequence of registrations and removals,
  the keys gathered for a change of a table row are the keys whose registration is still in
  force and whose query the change can affect: it reads or orders by a changed column, compares
  one with the row's value, has no WHERE clause, or could not be analysed.
\<close>

theorem invalidation_context_exact:
  "set (CacheKeys (GetInvalidationContext fmt_v (run_index fmt_v ops) t fieldValues cand)) =
    {k. registered (history ops) t k (selected fmt_v fieldValues cand k)}"
  unfolding run_index_def by (rule ci.affected_run)

text \<open>
  Removing a key from the index removes it from every lookup and changes no other key.
\<close>

theorem deregister_complete:
  "(let idx = run_index fmt_v ops; idx' = DeregisterQuery idx k in
    set (GetAllRegisteredKeys idx') = set (GetAllRegisteredKeys idx) - {k} \<and>
    set (GetQueryKeysForTable idx' t) = set (GetQueryKeysForTable idx t) - {k} \<and>
    set (GetKeysByValue fmt_v idx' t f v) = set (GetKeysByValue fmt_v idx t f v) - {k} \<and>
    set (GetKeysByFieldIndex idx' t cand) = set (GetKeysByFieldIndex idx t cand) - {k} \<and>
    set (GetKeysByChangedFields idx' t cand) = set (GetKeysByChangedFields idx t cand) - {k} \<and>
    set (GetFullTableListKeys idx' t) = set (GetFullTableListKeys idx t) - {k} \<and>
    set (GetFullTableCountKeys idx' t) = set (GetFullTableCountKeys idx t) - {k} \<and>
    set (CacheKeys (GetInvalidationContext fmt_v idx' t fv cand)) =
      set (CacheKeys (GetInvalidationContext fmt_v idx t fv cand)) - {k})"
proof -
  let ?idx = "run_index fmt_v ops" and ?idx' = "DeregisterQuery (run_index fmt_v ops) k"
  have idx: "index_repr fmt_v ?idx (history ops)" by (rule run_index_repr)
  have idx': "index_repr fmt_v ?idx' (forget k (history ops))"
  proof (cases "k = []")
    case True
    then have "forget k (history ops) = history ops"
      using history_nonempty[of ops _ "[]" "\<lambda>_. True"]
      by (auto simp: forget_def registered_def intro!: filter_True)
    with True idx show ?thesis by (simp add: DeregisterQuery_ignored)
  qed (use idx index_repr_deregister in simp)
  show ?thesis unfolding Let_def
    by (intro conjI set_eqI)
      (simp_all only: lookup_keys[OF idx] lookup_keys[OF idx'] invalidation_keys[OF idx] invalidation_keys[OF idx']
        registered_forget latest_forget Diff_iff singleton_iff, auto split: if_splits)
qed

end
