(* ===== verification/Cache_Client.thy ===== *)
theory Cache_Client
  imports Go_Values
begin

text \<open>
  The cache interface \<open>CacheClient\<close> of \<^verbatim>\<open>interfaces.go\<close> as a record of operations over a cache
  state, the helper \<open>WithLock\<close> of \<^verbatim>\<open>cache.go\<close>, and the contract of a cache as a locale: what a read
  returns, what a write leaves, and that no other operation brings a removed entry back.

  A cached value is a string, a model (its fields by name) or a list of row ids. Durations and
  times are nanoseconds.
\<close>

section \<open>The interface\<close>

datatype cache_value = CString string | CModel gomodel | CIDs "int list"

record 'c cache_client =
  cGet :: "'c \<Rightarrow> string \<Rightarrow> string go_result \<times> 'c"
  cSet :: "'c \<Rightarrow> string \<Rightarrow> string \<Rightarrow> int \<Rightarrow> unit go_result \<times> 'c"
  cDelete :: "'c \<Rightarrow> string \<Rightarrow> unit go_result \<times> 'c"
  cGetModel :: "'c \<Rightarrow> string \<Rightarrow> gomodel \<Rightarrow> gomodel go_result \<times> 'c"
  cSetModel :: "'c \<Rightarrow> string \<Rightarrow> gomodel \<Rightarrow> string list \<Rightarrow> int \<Rightarrow> unit go_result \<times> 'c"
  cDeleteModel :: "'c \<Rightarrow> string \<Rightarrow> unit go_result \<times> 'c"
  cGetQueryIDs :: "'c \<Rightarrow> string \<Rightarrow> int list go_result \<times> 'c"
  cSetQueryIDs :: "'c \<Rightarrow> string \<Rightarrow> int list \<Rightarrow> int \<Rightarrow> unit go_result \<times> 'c"
  cDeleteQueryIDs :: "'c \<Rightarrow> string \<Rightarrow> unit go_result \<times> 'c"
  cAcquireLock :: "'c \<Rightarrow> string \<Rightarrow> int \<Rightarrow> bool go_result \<times> 'c"
  cReleaseLock :: "'c \<Rightarrow> string \<Rightarrow> unit go_result \<times> 'c"
  cIncr :: "'c \<Rightarrow> string \<Rightarrow> int go_result \<times> 'c"
  cExpire :: "'c \<Rightarrow> string \<Rightarrow> int \<Rightarrow> unit go_result \<times> 'c"
  cGetCacheStats :: "'c \<Rightarrow> (string, int) gomap"
  cMGetModel :: "'c \<Rightarrow> string list \<Rightarrow> gomodel list \<Rightarrow> gomodel go_result list \<times> 'c"

definition NoneResult :: string where
  "NoneResult = ''__thing_none__''"

section \<open>\<open>WithLock\<close>\<close>

definition LockDuration :: int where "LockDuration = 5 * 1000000000"
definition LockMaxRetries :: nat where "LockMaxRetries = 5"

text \<open>
  The retry loop. \<open>canceled i\<close> tells whether the context is done by the \<open>i\<close>-th wait. The result is
  whether the lock was acquired.
\<close>

fun acquire_loop ::
  "'c cache_client \<Rightarrow> (nat \<Rightarrow> bool) \<Rightarrow> string \<Rightarrow> nat \<Rightarrow> nat \<Rightarrow> 'c \<Rightarrow> bool go_result \<times> 'c" where
  "acquire_loop client canceled lockKey i 0 s = (Inr False, s)"
| "acquire_loop client canceled lockKey i (Suc n) s =
     (case cAcquireLock client s lockKey LockDuration of
        (Inl e, s') \<Rightarrow> (Inl (Wrapped ''failed to attempt lock acquisition'' e), s')
      | (Inr acquired, s') \<Rightarrow>
          if acquired then (Inr True, s')
          else if canceled i then (Inl ErrCanceled, s')
          else acquire_loop client canceled lockKey (Suc i) n s')"

text \<open>
  The action works on the cache state and on whatever else it captures, the \<open>'s\<close> part. The deferred
  release runs whether the action returns, fails or panics; its own error is only logged.
\<close>

definition WithLock ::
  "'c cache_client option \<Rightarrow> (nat \<Rightarrow> bool) \<Rightarrow> string \<Rightarrow> ('s \<times> 'c \<Rightarrow> unit go_result \<times> 's \<times> 'c) \<Rightarrow>
   's \<times> 'c \<Rightarrow> unit go_result \<times> 's \<times> 'c" where
  "WithLock client_opt canceled lockKey action w =
     (case client_opt of
        None \<Rightarrow> action w
      | Some client \<Rightarrow>
          (case acquire_loop client canceled lockKey 0 LockMaxRetries (snd w) of
             (Inl e, c1) \<Rightarrow> (Inl e, fst w, c1)
           | (Inr acquired, c1) \<Rightarrow>
               if \<not> acquired then (Inl (Wrapped ''failed to acquire lock'' ErrLockNotAcquired), fst w, c1)
               else
                 let (r, s2, c2) = action (fst w, c1);
                     (_, c3) = cReleaseLock client c2 lockKey
                 in (r, s2, c3)))"

section \<open>The contract of a cache\<close>

text \<open>
  \<open>view s k\<close> is the value a read of \<open>k\<close> finds in the state \<open>s\<close>. Any operation may lose entries (they
  expire, or the server evicts them), which is \<open>\<subseteq>\<^sub>m\<close>; a write that succeeds stores its value, a
  delete that succeeds, or that reports that there was nothing to delete, leaves no value.
\<close>

locale cache_client_spec =
  fixes client :: "'c cache_client"
    and view :: "'c \<Rightarrow> string \<rightharpoonup> cache_value"
  assumes get_le: "view (snd (cGet client s k)) \<subseteq>\<^sub>m view s"
    and get_value: "fst (cGet client s k) = Inr v \<Longrightarrow> view s k = Some (CString v)"
    and ids_le: "view (snd (cGetQueryIDs client s k)) \<subseteq>\<^sub>m view s"
    and ids_value: "fst (cGetQueryIDs client s k) = Inr ids \<Longrightarrow> view s k = Some (CIDs ids)"
    and ids_not_found: "fst (cGetQueryIDs client s k) = Inl e \<Longrightarrow> errors_is e ErrNotFound \<Longrightarrow> view s k = None"
    and delete_le: "view (snd (cDelete client s k)) \<subseteq>\<^sub>m view s"
    and delete_done: "fst (cDelete client s k) = Inr () \<Longrightarrow> view (snd (cDelete client s k)) k = None"
    and delete_not_found:
      "fst (cDelete client s k) = Inl e \<Longrightarrow> errors_is e ErrNotFound \<Longrightarrow> view (snd (cDelete client s k)) k = None"
    and delete_model_le: "view (snd (cDeleteModel client s k)) \<subseteq>\<^sub>m view s"
    and delete_model_done: "fst (cDeleteModel client s k) = Inr () \<Longrightarrow> view (snd (cDeleteModel client s k)) k = None"
    and set_ids: "fst (cSetQueryIDs client s k ids d) = Inr () \<Longrightarrow>
      view (snd (cSetQueryIDs client s k ids d)) \<subseteq>\<^sub>m (view s)(k \<mapsto> CIDs ids)"
begin

lemma delete_removes:
  assumes "case fst (cDelete client s k) of Inl e \<Rightarrow> errors_is e ErrNotFound | Inr _ \<Rightarrow> True"
  shows "view (snd (cDelete client s k)) k = None"
  using assms delete_done delete_not_found by (cases "fst (cDelete client s k)") auto

lemma delete_keeps_none: "view s j = None \<Longrightarrow> view (snd (cDelete client s k)) j = None"
  using delete_le[of s k] by (metis domIff map_le_implies_dom_le subsetD)

lemma ids_keeps_none: "view s j = None \<Longrightarrow> view (snd (cGetQueryIDs client s k)) j = None"
  using ids_le[of s k] by (metis domIff map_le_implies_dom_le subsetD)

end

end
