(* ===== verification/Local_Cache.thy ===== *)
theory Local_Cache
  imports Cache_Client
begin

text \<open>
  The in-memory cache \<open>localCache\<close> of \<^verbatim>\<open>cache.go\<close>, the default \<open>CacheClient\<close>.

  The \<^verbatim>\<open>sync.Map\<close>s of the code are association lists and every method is one step on the state;
  \<open>clock\<close> is what \<^verbatim>\<open>time.Now\<close> returns during the step. A context is never canceled here. A lock that
  is held and waited for with a timeout lets that time pass; without a timeout no goroutine of
  this sequential model can release it, which is the runtime's deadlock, a panic.

  Gob payloads are structural: encoding stores what decoding returns (\<open>gob_value\<close>). Gob flattens
  pointers, refuses nil values and types that are not registered inside an interface, and decodes
  an empty slice as nil.
\<close>

section \<open>Gob\<close>

fun gob_basic :: "gotype \<Rightarrow> bool" where
  "gob_basic TBool = True"
| "gob_basic (TInt _) = True"
| "gob_basic (TUint _) = True"
| "gob_basic (TFloat _) = True"
| "gob_basic TString = True"
| "gob_basic _ = False"

fun gob_value :: "goval \<Rightarrow> goval option" where
  "gob_value VNil = None"
| "gob_value (VPtr _ None) = None"
| "gob_value (VPtr _ (Some v)) = gob_value v"
| "gob_value (VSlice t xs) = (if gob_basic t then Some (VSlice t (if xs = Some [] then None else xs)) else None)"
| "gob_value v = Some v"

fun gob_model :: "gomodel \<Rightarrow> gomodel option" where
  "gob_model [] = Some []"
| "gob_model ((f, v) # m) =
     (case (gob_value v, gob_model m) of (Some w, Some n) \<Rightarrow> Some ((f, w) # n) | _ \<Rightarrow> None)"

section \<open>State\<close>

record localCache =
  store :: "(string, cache_value) gomap"
  lockPool :: "(string, bool) gomap"
  counters :: "(string, int) gomap"
  expiryStore :: "(string, int) gomap"
  cleanupStarted :: bool
  clock :: int

definition emptyLocalCache :: localCache where
  "emptyLocalCache = \<lparr>store = [], lockPool = [], counters = [], expiryStore = [], cleanupStarted = False, clock = 0\<rparr>"

definition incrCounter :: "string \<Rightarrow> localCache \<Rightarrow> localCache" where
  "incrCounter name m =
     m\<lparr>counters := gm_set name (wrap_int S64 ((case gm_get (counters m) name of None \<Rightarrow> 0 | Some n \<Rightarrow> n) + 1)) (counters m)\<rparr>"

definition past :: "int \<Rightarrow> int option \<Rightarrow> bool" where
  "past now expiry = (case expiry of None \<Rightarrow> False | Some expiryTime \<Rightarrow> expiryTime < now)"

definition isExpired :: "localCache \<Rightarrow> string \<Rightarrow> bool" where
  "isExpired m key = past (clock m) (gm_get (expiryStore m) key)"

definition remove :: "string \<Rightarrow> localCache \<Rightarrow> localCache" where
  "remove key m = m\<lparr>store := gm_del key (store m), expiryStore := gm_del key (expiryStore m)\<rparr>"

text \<open>Setting or clearing the expiration, shared by the writes.\<close>

definition set_expiry :: "string \<Rightarrow> int \<Rightarrow> localCache \<Rightarrow> localCache" where
  "set_expiry key expiration m =
     (if 0 < expiration
      then m\<lparr>expiryStore := gm_set key (clock m + expiration) (expiryStore m), cleanupStarted := True\<rparr>
      else m\<lparr>expiryStore := gm_del key (expiryStore m)\<rparr>)"

definition store_value :: "string \<Rightarrow> cache_value \<Rightarrow> int \<Rightarrow> localCache \<Rightarrow> localCache" where
  "store_value key v expiration m = set_expiry key expiration (m\<lparr>store := gm_set key v (store m)\<rparr>)"

section \<open>Strings\<close>

definition lcGet :: "localCache \<Rightarrow> string \<Rightarrow> string go_result \<times> localCache" where
  "lcGet m0 key =
     (let m = incrCounter ''Get'' m0
      in case gm_get (store m) key of
           None \<Rightarrow> (Inl ErrNotFound, incrCounter ''GetMiss'' m)
         | Some v \<Rightarrow>
             if isExpired m key then (Inl ErrNotFound, incrCounter ''GetExpired'' (remove key m))
             else case v of
               CString s \<Rightarrow> (Inr s, incrCounter ''GetHit'' m)
             | _ \<Rightarrow> (Inl ErrNotFound, incrCounter ''GetMiss'' m))"

definition lcSet :: "localCache \<Rightarrow> string \<Rightarrow> string \<Rightarrow> int \<Rightarrow> unit go_result \<times> localCache" where
  "lcSet m0 key value expiration =
     (let m = incrCounter ''Set'' m0
      in if value = NoneResult \<and> gm_get (store m) key = Some (CString NoneResult) then (Inr (), m)
         else
           let m1 = (if value = NoneResult then incrCounter ''SetNoneResult'' m else m)
           in (Inr (), store_value key (CString value) expiration m1))"

definition lcDelete :: "localCache \<Rightarrow> string \<Rightarrow> unit go_result \<times> localCache" where
  "lcDelete m key = (Inr (), remove key (incrCounter ''Delete'' m))"

definition lcExists :: "localCache \<Rightarrow> string \<Rightarrow> bool \<times> localCache" where
  "lcExists m0 key =
     (let m = incrCounter ''Exists'' m0; ok = (gm_get (store m) key \<noteq> None)
      in if ok \<and> isExpired m key then (False, remove key m) else (ok, m))"

section \<open>Models\<close>

text \<open>One field of the destination: an assignable or convertible value is stored, any other skipped.\<close>

definition set_field :: "gomodel \<Rightarrow> string \<times> goval \<Rightarrow> gomodel" where
  "set_field dest kv =
     (case kv of (k, v) \<Rightarrow>
        (case FieldByName dest k of
           None \<Rightarrow> dest
         | Some old \<Rightarrow>
             (case (type_of v, type_of old) of
                (Some t, Some u) \<Rightarrow>
                  if t = u then AList.update k v dest
                  else if convertible t u then (case convert u v of Some w \<Rightarrow> AList.update k w dest | None \<Rightarrow> dest)
                  else dest
              | _ \<Rightarrow> dest)))"

definition populate :: "gomodel \<Rightarrow> gomodel \<Rightarrow> gomodel" where
  "populate dest dataMap = foldl set_field dest dataMap"

definition lcGetModel :: "localCache \<Rightarrow> string \<Rightarrow> gomodel \<Rightarrow> gomodel go_result \<times> localCache" where
  "lcGetModel m0 key dest =
     (let m = incrCounter ''GetModel'' m0
      in case gm_get (store m) key of
           None \<Rightarrow> (Inl ErrNotFound, incrCounter ''GetModelMiss'' m)
         | Some v \<Rightarrow>
             if isExpired m key then (Inl ErrNotFound, incrCounter ''GetModelExpired'' (remove key m))
             else case v of
               CString _ \<Rightarrow> (Inl (Errorf ''localCache: cached value is not []byte''), incrCounter ''GetModelError'' m)
             | CIDs _ \<Rightarrow> (Inl (Errorf ''localCache: Gob Unmarshal error''), m)
             | CModel dataMap \<Rightarrow> (Inr (populate dest dataMap), incrCounter ''GetModelHit'' m))"

fun lcMGetModel :: "localCache \<Rightarrow> string list \<Rightarrow> gomodel list \<Rightarrow> gomodel go_result list \<times> localCache" where
  "lcMGetModel m [] dests = ([], m)"
| "lcMGetModel m (key # keys) dests =
     (case dests of
        [] \<Rightarrow> ([Inl (Panic ''index out of range'')], m)
      | d # ds \<Rightarrow>
          (let (r, m1) = lcGetModel m key d; (rs, m2) = lcMGetModel m1 keys ds in (r # rs, m2)))"

definition select_fields :: "gomodel \<Rightarrow> string list \<Rightarrow> gomodel" where
  "select_fields model fs =
     foldl (\<lambda>dm f. case FieldByName model f of None \<Rightarrow> dm | Some v \<Rightarrow> AList.update f v dm) [] fs"

definition lcSetModel :: "localCache \<Rightarrow> string \<Rightarrow> gomodel \<Rightarrow> string list \<Rightarrow> int \<Rightarrow> unit go_result \<times> localCache" where
  "lcSetModel m0 key model fieldsToCache expiration =
     (let m = incrCounter ''SetModel'' m0
      in case gob_model (select_fields model fieldsToCache) of
           None \<Rightarrow> (Inl (Errorf ''localCache: Gob map encode error''), m)
         | Some dataMap \<Rightarrow> (Inr (), store_value key (CModel dataMap) expiration m))"

definition lcDeleteModel :: "localCache \<Rightarrow> string \<Rightarrow> unit go_result \<times> localCache" where
  "lcDeleteModel m key = (Inr (), remove key (incrCounter ''DeleteModel'' m))"

section \<open>Query ids\<close>

definition lcGetQueryIDs :: "localCache \<Rightarrow> string \<Rightarrow> int list go_result \<times> localCache" where
  "lcGetQueryIDs m0 queryKey =
     (let m = incrCounter ''GetQueryIDs'' m0
      in case gm_get (store m) queryKey of
           None \<Rightarrow> (Inl ErrNotFound, incrCounter ''GetQueryIDsMiss'' m)
         | Some v \<Rightarrow>
             if isExpired m queryKey then (Inl ErrNotFound, incrCounter ''GetQueryIDsExpired'' (remove queryKey m))
             else case v of
               CString _ \<Rightarrow> (Inl (Errorf ''localCache: cached query IDs is not []byte''), incrCounter ''GetQueryIDsError'' m)
             | CModel _ \<Rightarrow> (Inl (Errorf ''localCache: Gob Unmarshal error for query key''), m)
             | CIDs ids \<Rightarrow> (Inr ids, incrCounter ''GetQueryIDsHit'' m))"

definition lcSetQueryIDs :: "localCache \<Rightarrow> string \<Rightarrow> int list \<Rightarrow> int \<Rightarrow> unit go_result \<times> localCache" where
  "lcSetQueryIDs m queryKey ids expiration =
     (Inr (), store_value queryKey (CIDs ids) expiration (incrCounter ''SetQueryIDs'' m))"

definition lcDeleteQueryIDs :: "localCache \<Rightarrow> string \<Rightarrow> unit go_result \<times> localCache" where
  "lcDeleteQueryIDs m queryKey = (Inr (), remove queryKey (incrCounter ''DeleteQueryIDs'' m))"

section \<open>Locks and counters\<close>

definition lock_held :: "localCache \<Rightarrow> string \<Rightarrow> bool" where
  "lock_held m key = (gm_get (lockPool m) key = Some True)"

definition getLock :: "string \<Rightarrow> localCache \<Rightarrow> localCache" where
  "getLock key m = (if gm_get (lockPool m) key = None then m\<lparr>lockPool := gm_set key False (lockPool m)\<rparr> else m)"

definition lcAcquireLock :: "localCache \<Rightarrow> string \<Rightarrow> int \<Rightarrow> bool go_result \<times> localCache" where
  "lcAcquireLock m0 lockKey expiration =
     (let m = getLock lockKey (incrCounter ''AcquireLock'' m0)
      in if \<not> lock_held m lockKey then (Inr True, m\<lparr>lockPool := gm_set lockKey True (lockPool m)\<rparr>)
         else if 0 < expiration then (Inr False, m\<lparr>clock := clock m + expiration\<rparr>)
         else (Inl (Panic ''all goroutines are asleep - deadlock!''), m))"

definition lcReleaseLock :: "localCache \<Rightarrow> string \<Rightarrow> unit go_result \<times> localCache" where
  "lcReleaseLock m0 lockKey =
     (let m = getLock lockKey (incrCounter ''ReleaseLock'' m0)
      in (Inr (), m\<lparr>lockPool := gm_set lockKey False (lockPool m)\<rparr>))"

definition counter_value :: "cache_value option \<Rightarrow> int" where
  "counter_value v =
     (case v of Some (CString s) \<Rightarrow> (case parse_int s of Some n \<Rightarrow> n | None \<Rightarrow> 0) | _ \<Rightarrow> 0)"

definition lcIncr :: "localCache \<Rightarrow> string \<Rightarrow> int go_result \<times> localCache" where
  "lcIncr m0 key =
     (let lockKey = ''incr:'' @ key
      in case lcAcquireLock (incrCounter ''Incr'' m0) lockKey 0 of
           (Inl e, m) \<Rightarrow> (Inl e, m)
         | (Inr acquired, m) \<Rightarrow>
             if \<not> acquired then (Inl (Errorf ''could not acquire lock for Incr''), m)
             else
               let newVal = wrap_int S64 (counter_value (gm_get (store m) key) + 1);
                   m1 = m\<lparr>store := gm_set key (CString (format_int newVal)) (store m)\<rparr>;
                   (_, m2) = lcReleaseLock m1 lockKey
               in (Inr newVal, m2))"

definition lcExpire :: "localCache \<Rightarrow> string \<Rightarrow> int \<Rightarrow> unit go_result \<times> localCache" where
  "lcExpire m0 key expiration =
     (let m = incrCounter ''Expire'' m0
      in if gm_get (store m) key = None then (Inl ErrNotFound, m) else (Inr (), set_expiry key expiration m))"

definition lcGetCacheStats :: "localCache \<Rightarrow> (string, int) gomap" where
  "lcGetCacheStats m = counters m"

definition localClient :: "localCache cache_client" where
  "localClient = \<lparr>cGet = lcGet, cSet = lcSet, cDelete = lcDelete, cGetModel = lcGetModel, cSetModel = lcSetModel,
     cDeleteModel = lcDeleteModel, cGetQueryIDs = lcGetQueryIDs, cSetQueryIDs = lcSetQueryIDs,
     cDeleteQueryIDs = lcDeleteQueryIDs, cAcquireLock = lcAcquireLock, cReleaseLock = lcReleaseLock,
     cIncr = lcIncr, cExpire = lcExpire, cGetCacheStats = lcGetCacheStats, cMGetModel = lcMGetModel\<rparr>"


section \<open>The view of the cache\<close>

definition lcview :: "localCache \<Rightarrow> string \<rightharpoonup> cache_value" where
  "lcview m k = (if isExpired m k then None else gm_get (store m) k)"

lemma past_simps [simp]: "\<not> past now None" "past now (Some t) \<longleftrightarrow> t < now"
  by (simp_all add: past_def)

lemma incrCounter_fields [simp]:
  "store (incrCounter n m) = store m" "expiryStore (incrCounter n m) = expiryStore m"
  "clock (incrCounter n m) = clock m" "lockPool (incrCounter n m) = lockPool m"
  "isExpired (incrCounter n m) k = isExpired m k" "lock_held (incrCounter n m) k = lock_held m k"
  by (simp_all add: incrCounter_def isExpired_def lock_held_def)

lemma lcview_incrCounter [simp]: "lcview (incrCounter n m) = lcview m"
  by (rule ext) (simp add: lcview_def)

lemma remove_fields [simp]:
  "store (remove k m) = gm_del k (store m)" "expiryStore (remove k m) = gm_del k (expiryStore m)"
  "clock (remove k m) = clock m"
  by (simp_all add: remove_def)

lemma lcview_remove [simp]: "lcview (remove k m) = (lcview m)(k := None)"
  by (rule ext) (simp add: lcview_def remove_def isExpired_def)

lemma lcview_store_value [simp]: "lcview (store_value k v d m) = (lcview m)(k \<mapsto> v)"
  by (rule ext) (simp add: lcview_def store_value_def set_expiry_def isExpired_def)

lemma lcview_remove_expired: "isExpired m k \<Longrightarrow> lcview (remove k m) = lcview m"
  by (rule ext) (simp add: lcview_def remove_def isExpired_def)

lemma lcview_locks [simp]:
  "lcview (getLock k m) = lcview m" "lcview (m\<lparr>lockPool := p\<rparr>) = lcview m"
  by (auto simp: lcview_def isExpired_def getLock_def intro!: ext)

lemma lcview_reads [simp]:
  "lcview (snd (lcGet m k)) = lcview m" "lcview (snd (lcGetModel m k dest)) = lcview m"
  "lcview (snd (lcGetQueryIDs m k)) = lcview m" "lcview (snd (lcExists m k)) = lcview m"
  by (auto simp: lcGet_def lcGetModel_def lcGetQueryIDs_def lcExists_def Let_def lcview_remove_expired
      simp del: lcview_remove split: option.splits cache_value.splits)

lemma lcGet_result:
  "fst (lcGet m k) = (case lcview m k of Some (CString s) \<Rightarrow> Inr s | _ \<Rightarrow> Inl ErrNotFound)"
  by (auto simp: lcGet_def Let_def lcview_def split: option.splits cache_value.splits)

lemma lcGetQueryIDs_result:
  "fst (lcGetQueryIDs m k) =
    (case lcview m k of None \<Rightarrow> Inl ErrNotFound
     | Some (CString _) \<Rightarrow> Inl (Errorf ''localCache: cached query IDs is not []byte'')
     | Some (CModel _) \<Rightarrow> Inl (Errorf ''localCache: Gob Unmarshal error for query key'')
     | Some (CIDs ids) \<Rightarrow> Inr ids)"
  by (auto simp: lcGetQueryIDs_def Let_def lcview_def split: option.splits cache_value.splits)

lemma lcGetModel_result:
  "fst (lcGetModel m k dest) =
    (case lcview m k of None \<Rightarrow> Inl ErrNotFound
     | Some (CString _) \<Rightarrow> Inl (Errorf ''localCache: cached value is not []byte'')
     | Some (CIDs _) \<Rightarrow> Inl (Errorf ''localCache: Gob Unmarshal error'')
     | Some (CModel dataMap) \<Rightarrow> Inr (populate dest dataMap))"
  by (auto simp: lcGetModel_def Let_def lcview_def split: option.splits cache_value.splits)

lemma lcview_deletes [simp]:
  "lcview (snd (lcDelete m k)) = (lcview m)(k := None)" "lcview (snd (lcDeleteModel m k)) = (lcview m)(k := None)"
  "lcview (snd (lcDeleteQueryIDs m k)) = (lcview m)(k := None)"
  by (simp_all add: lcDelete_def lcDeleteModel_def lcDeleteQueryIDs_def)

lemma lcview_lcSetQueryIDs [simp]: "lcview (snd (lcSetQueryIDs m k ids d)) = (lcview m)(k \<mapsto> CIDs ids)"
  by (simp add: lcSetQueryIDs_def)

lemma lcview_lcSetModel:
  "lcview (snd (lcSetModel m k model fs d)) =
    (case gob_model (select_fields model fs) of None \<Rightarrow> lcview m | Some dm \<Rightarrow> (lcview m)(k \<mapsto> CModel dm))"
  by (simp add: lcSetModel_def Let_def split: option.splits)

text \<open>The local cache keeps the contract of a cache.\<close>

interpretation lc: cache_client_spec localClient lcview
  by unfold_locales
    (auto simp: localClient_def lcGet_result lcGetQueryIDs_result lcDelete_def lcDeleteModel_def map_le_def
      split: option.splits cache_value.splits)


section \<open>The cache as a timed map\<close>

text \<open>
  The specification of the cache: a map from keys to a value and a deadline, and the time. The
  operations of the cache and the passing of time, on the cache and on the specification.
\<close>

record timed_map =
  now :: int
  entry :: "string \<Rightarrow> (cache_value \<times> int option) option"

datatype cache_op =
    OpGet string | OpSet string string int | OpDelete string | OpExists string
  | OpGetModel string gomodel | OpSetModel string gomodel "string list" int | OpDeleteModel string
  | OpGetQueryIDs string | OpSetQueryIDs string "int list" int | OpDeleteQueryIDs string
  | OpWait nat

datatype reply =
    RString "string go_result" | RUnit "unit go_result" | RModel "gomodel go_result" | RIDs "int list go_result" | RBool bool

fun lc_step :: "localCache \<Rightarrow> cache_op \<Rightarrow> reply \<times> localCache" where
  "lc_step m (OpGet k) = apfst RString (lcGet m k)"
| "lc_step m (OpSet k v d) = apfst RUnit (lcSet m k v d)"
| "lc_step m (OpDelete k) = apfst RUnit (lcDelete m k)"
| "lc_step m (OpExists k) = apfst RBool (lcExists m k)"
| "lc_step m (OpGetModel k dest) = apfst RModel (lcGetModel m k dest)"
| "lc_step m (OpSetModel k model fs d) = apfst RUnit (lcSetModel m k model fs d)"
| "lc_step m (OpDeleteModel k) = apfst RUnit (lcDeleteModel m k)"
| "lc_step m (OpGetQueryIDs k) = apfst RIDs (lcGetQueryIDs m k)"
| "lc_step m (OpSetQueryIDs k ids d) = apfst RUnit (lcSetQueryIDs m k ids d)"
| "lc_step m (OpDeleteQueryIDs k) = apfst RUnit (lcDeleteQueryIDs m k)"
| "lc_step m (OpWait dt) = (RUnit (Inr ()), m\<lparr>clock := clock m + int dt\<rparr>)"

definition tm_find :: "timed_map \<Rightarrow> string \<Rightarrow> cache_value option" where
  "tm_find t k = map_option fst (entry t k)"

definition tm_put :: "timed_map \<Rightarrow> string \<Rightarrow> cache_value \<Rightarrow> int \<Rightarrow> timed_map" where
  "tm_put t k v d = t\<lparr>entry := (entry t)(k \<mapsto> (v, if 0 < d then Some (now t + d) else None))\<rparr>"

definition tm_erase :: "timed_map \<Rightarrow> string \<Rightarrow> timed_map" where
  "tm_erase t k = t\<lparr>entry := (entry t)(k := None)\<rparr>"

definition tm_wait :: "timed_map \<Rightarrow> int \<Rightarrow> timed_map" where
  "tm_wait t dt = \<lparr>now = now t + dt,
     entry = (\<lambda>k. case entry t k of None \<Rightarrow> None | Some (v, e) \<Rightarrow> if past (now t + dt) e then None else Some (v, e))\<rparr>"

fun tm_step :: "timed_map \<Rightarrow> cache_op \<Rightarrow> reply \<times> timed_map" where
  "tm_step t (OpGet k) = (RString (case tm_find t k of Some (CString s) \<Rightarrow> Inr s | _ \<Rightarrow> Inl ErrNotFound), t)"
| "tm_step t (OpSet k v d) = (RUnit (Inr ()), tm_put t k (CString v) d)"
| "tm_step t (OpDelete k) = (RUnit (Inr ()), tm_erase t k)"
| "tm_step t (OpExists k) = (RBool (tm_find t k \<noteq> None), t)"
| "tm_step t (OpGetModel k dest) =
     (RModel (case tm_find t k of None \<Rightarrow> Inl ErrNotFound
        | Some (CString _) \<Rightarrow> Inl (Errorf ''localCache: cached value is not []byte'')
        | Some (CIDs _) \<Rightarrow> Inl (Errorf ''localCache: Gob Unmarshal error'')
        | Some (CModel dm) \<Rightarrow> Inr (populate dest dm)), t)"
| "tm_step t (OpSetModel k model fs d) =
     (case gob_model (select_fields model fs) of
        None \<Rightarrow> (RUnit (Inl (Errorf ''localCache: Gob map encode error'')), t)
      | Some dm \<Rightarrow> (RUnit (Inr ()), tm_put t k (CModel dm) d))"
| "tm_step t (OpDeleteModel k) = (RUnit (Inr ()), tm_erase t k)"
| "tm_step t (OpGetQueryIDs k) =
     (RIDs (case tm_find t k of None \<Rightarrow> Inl ErrNotFound
        | Some (CString _) \<Rightarrow> Inl (Errorf ''localCache: cached query IDs is not []byte'')
        | Some (CModel _) \<Rightarrow> Inl (Errorf ''localCache: Gob Unmarshal error for query key'')
        | Some (CIDs ids) \<Rightarrow> Inr ids), t)"
| "tm_step t (OpSetQueryIDs k ids d) = (RUnit (Inr ()), tm_put t k (CIDs ids) d)"
| "tm_step t (OpDeleteQueryIDs k) = (RUnit (Inr ()), tm_erase t k)"
| "tm_step t (OpWait dt) = (RUnit (Inr ()), tm_wait t (int dt))"

fun replies :: "('s \<Rightarrow> cache_op \<Rightarrow> reply \<times> 's) \<Rightarrow> 's \<Rightarrow> cache_op list \<Rightarrow> reply list" where
  "replies step s [] = []"
| "replies step s (op # ops) = (case step s op of (r, s') \<Rightarrow> r # replies step s' ops)"

definition lcabs :: "localCache \<Rightarrow> timed_map" where
  "lcabs m = \<lparr>now = clock m,
     entry = (\<lambda>k. map_option (\<lambda>v. (v, gm_get (expiryStore m) k)) (lcview m k))\<rparr>"

text \<open>Storing the marker for a missing record is left out: the code skips it when it is already stored.\<close>

fun regular :: "cache_op \<Rightarrow> bool" where
  "regular (OpSet k v d) = (v \<noteq> NoneResult)"
| "regular _ = True"

lemma tm_find_lcabs [simp]: "tm_find (lcabs m) k = lcview m k"
  by (simp add: tm_find_def lcabs_def option.map_comp comp_def option.map_ident)

lemma lcabs_incrCounter [simp]: "lcabs (incrCounter n m) = lcabs m"
  by (simp add: lcabs_def)

lemma lcabs_remove [simp]: "lcabs (remove k m) = tm_erase (lcabs m) k"
  by (auto simp: lcabs_def tm_erase_def intro!: ext)

lemma lcabs_remove_expired: "isExpired m k \<Longrightarrow> lcabs (remove k m) = lcabs m"
  by (auto simp: lcabs_def lcview_remove_expired simp del: lcview_remove intro!: ext)
    (auto simp: lcview_def)

lemma lcabs_store_value [simp]: "lcabs (store_value k v d m) = tm_put (lcabs m) k v d"
  by (auto simp: lcabs_def tm_put_def intro!: ext) (auto simp: store_value_def set_expiry_def)

lemma lcabs_wait: "lcabs (m\<lparr>clock := clock m + int dt\<rparr>) = tm_wait (lcabs m) (int dt)"
  by (auto simp: lcabs_def tm_wait_def lcview_def isExpired_def past_def intro!: ext split: option.splits)

lemma lcabs_reads [simp]:
  "lcabs (snd (lcGet m k)) = lcabs m" "lcabs (snd (lcGetModel m k dest)) = lcabs m"
  "lcabs (snd (lcGetQueryIDs m k)) = lcabs m" "lcabs (snd (lcExists m k)) = lcabs m"
  by (auto simp: lcGet_def lcGetModel_def lcGetQueryIDs_def lcExists_def Let_def lcabs_remove_expired
      simp del: lcabs_remove split: option.splits cache_value.splits)

lemma lcExists_result: "fst (lcExists m k) \<longleftrightarrow> lcview m k \<noteq> None"
  by (simp add: lcExists_def Let_def lcview_def)

lemma lc_step_refines:
  assumes "regular op"
  shows "fst (lc_step m op) = fst (tm_step (lcabs m) op) \<and> lcabs (snd (lc_step m op)) = snd (tm_step (lcabs m) op)"
proof (cases op)
  case (OpSet k v d)
  then show ?thesis using assms by (simp add: lcSet_def Let_def)
qed (auto simp: lcGet_result lcGetModel_result lcGetQueryIDs_result lcExists_result lcDelete_def lcDeleteModel_def
      lcDeleteQueryIDs_def lcSetQueryIDs_def lcSetModel_def lcabs_wait Let_def split: option.splits)




section \<open>Models survive the cache\<close>

text \<open>
  The values that gob returns as they are: no pointer, no nil, no empty slice, no slice of an
  unregistered type.
\<close>

definition gob_plain :: "goval \<Rightarrow> bool" where
  "gob_plain v \<longleftrightarrow> gob_value v = Some v \<and> type_of v \<noteq> None"

lemma map_of_select_fields:
  "map_of (select_fields model fs) f = (if f \<in> set fs then map_of model f else None)"
proof -
  have "map_of (foldl (\<lambda>dm f. case FieldByName model f of None \<Rightarrow> dm | Some v \<Rightarrow> AList.update f v dm) dm fs) f =
      (if f \<in> set fs \<and> map_of model f \<noteq> None then map_of model f else map_of dm f)" for dm
    by (induction fs arbitrary: dm) (auto split: option.splits)
  then show ?thesis by (simp add: select_fields_def)
qed

lemma distinct_select_fields: "distinct (map fst (select_fields model fs))"
proof -
  have "distinct (map fst dm) \<Longrightarrow>
      distinct (map fst (foldl (\<lambda>dm f. case FieldByName model f of None \<Rightarrow> dm | Some v \<Rightarrow> AList.update f v dm) dm fs))" for dm
    by (induction fs arbitrary: dm) (auto simp: distinct_update split: option.splits)
  then show ?thesis by (simp add: select_fields_def)
qed

lemma gob_model_plain: "\<forall>(f, v) \<in> set m. gob_value v = Some v \<Longrightarrow> gob_model m = Some m"
  by (induction m rule: gob_model.induct) auto

lemma set_field_same_type:
  "FieldByName dest k = Some old \<Longrightarrow> type_of v = type_of old \<Longrightarrow> type_of v \<noteq> None \<Longrightarrow> set_field dest (k, v) = AList.update k v dest"
  by (auto simp: set_field_def)

lemma populate_same_types:
  assumes "distinct (map fst dm)"
    and "\<And>f v. (f, v) \<in> set dm \<Longrightarrow> \<exists>old. FieldByName dest f = Some old \<and> type_of v = type_of old \<and> type_of v \<noteq> None"
  shows "map_of (populate dest dm) f = (case map_of dm f of None \<Rightarrow> map_of dest f | Some v \<Rightarrow> Some v)"
  using assms unfolding populate_def
proof (induction dm arbitrary: dest)
  case (Cons e dm)
  obtain k v where e: "e = (k, v)" by (cases e)
  obtain old where old: "FieldByName dest k = Some old" "type_of v = type_of old" "type_of v \<noteq> None"
    using Cons.prems(2)[of k v] e by (metis list.set_intros(1))
  have step: "set_field dest e = AList.update k v dest" using set_field_same_type[OF old] e by simp
  have "map_of dm k = None" using Cons.prems(1) e by (simp add: map_of_eq_None_iff)
  moreover have "map_of (foldl set_field (AList.update k v dest) dm) f =
      (case map_of dm f of None \<Rightarrow> map_of (AList.update k v dest) f | Some v \<Rightarrow> Some v)"
  proof (rule Cons.IH)
    show "distinct (map fst dm)" using Cons.prems(1) by simp
    show "\<exists>old. FieldByName (AList.update k v dest) g = Some old \<and> type_of w = type_of old \<and> type_of w \<noteq> None"
      if "(g, w) \<in> set dm" for g w
      using Cons.prems(1) Cons.prems(2)[of g w] that e by (force simp: image_iff)
  qed
  ultimately show ?case by (simp add: step[unfolded e] e split: option.splits)
qed simp

lemma model_cache_stored:
  assumes "\<forall>f \<in> set fs. \<exists>v w. FieldByName model f = Some v \<and> gob_plain v \<and>
      FieldByName dest f = Some w \<and> type_of w = type_of v"
  shows "\<exists>dest'. fst (lcGetModel (snd (lcSetModel m key model fs d)) key dest) = Inr dest' \<and>
    (\<forall>f. FieldByName dest' f = (if f \<in> set fs then FieldByName model f else FieldByName dest f))"
proof -
  let ?dm = "select_fields model fs"
  have dm: "f \<in> set fs \<and> FieldByName model f = Some v" if "(f, v) \<in> set ?dm" for f v
    using that distinct_select_fields map_of_select_fields[of model fs f]
    by (metis map_of_is_SomeI option.distinct(1))
  have "gob_model ?dm = Some ?dm"
    using dm assms by (intro gob_model_plain) (fastforce simp: gob_plain_def)
  then have "fst (lcGetModel (snd (lcSetModel m key model fs d)) key dest) = Inr (populate dest ?dm)"
    by (simp add: lcGetModel_result lcview_lcSetModel)
  moreover have "map_of (populate dest ?dm) f = (case map_of ?dm f of None \<Rightarrow> map_of dest f | Some v \<Rightarrow> Some v)" for f
    using dm assms by (intro populate_same_types distinct_select_fields) (fastforce simp: gob_plain_def)
  ultimately show ?thesis using assms by (auto simp: map_of_select_fields split: option.splits)
qed

text \<open>
  A model read back from the cache has the fields it was stored with. For fields that hold
  plain values, reading the key into an instance of the same field types gives every stored
  field its value and leaves the other fields of the instance alone.
\<close>

theorem model_cache_roundtrip:
  assumes "\<forall>f \<in> set fs. \<exists>v w. FieldByName model f = Some v \<and> gob_plain v \<and>
      FieldByName dest f = Some w \<and> type_of w = type_of v"
  shows "\<exists>dest'. fst (lcGetModel (snd (lcSetModel m key model fs d)) key dest) = Inr dest' \<and>
    (\<forall>f. FieldByName dest' f = (if f \<in> set fs then FieldByName model f else FieldByName dest f))"
  using assms by (rule model_cache_stored)

definition cached_user :: gomodel where
  "cached_user = [(''ID'', VInt S64 7), (''Name'', VString ''bob''), (''Age'', VInt S0 30)]"

definition blank_user :: gomodel where
  "blank_user = [(''ID'', VInt S64 0), (''Name'', VString []), (''Age'', VInt S0 0)]"

theorem model_cache_roundtrip_witness:
  "\<exists>dest'. fst (lcGetModel (snd (lcSetModel emptyLocalCache ''users:7'' cached_user [''ID'', ''Name''] 0)) ''users:7'' blank_user) = Inr dest' \<and>
    (\<forall>f. FieldByName dest' f = (if f \<in> set [''ID'', ''Name''] then FieldByName cached_user f else FieldByName blank_user f))"
  by (rule model_cache_roundtrip) (simp add: cached_user_def blank_user_def gob_plain_def)

section \<open>Counters\<close>

lemma getLock_fields [simp]:
  "store (getLock k m) = store m" "expiryStore (getLock k m) = expiryStore m" "clock (getLock k m) = clock m"
  "lock_held (getLock k m) j = lock_held m j"
  by (auto simp: getLock_def lock_held_def)

lemma lcIncr_free:
  assumes "\<not> lock_held m (''incr:'' @ key)"
  shows "fst (lcIncr m key) = Inr (wrap_int S64 (counter_value (gm_get (store m) key) + 1)) \<and>
    gm_get (store (snd (lcIncr m key))) key =
      Some (CString (format_int (wrap_int S64 (counter_value (gm_get (store m) key) + 1)))) \<and>
    \<not> lock_held (snd (lcIncr m key)) (''incr:'' @ key)"
  using assms by (simp add: lcIncr_def lcAcquireLock_def lcReleaseLock_def Let_def) (simp add: lock_held_def)

fun incr_times :: "nat \<Rightarrow> localCache \<Rightarrow> string \<Rightarrow> int go_result list" where
  "incr_times 0 m key = []"
| "incr_times (Suc n) m key = (case lcIncr m key of (r, m') \<Rightarrow> r # incr_times n m' key)"

text \<open>
  \<open>Incr\<close> counts. Called \<open>n\<close> times on a counter that stands at \<open>c\<close> it returns \<open>c + 1, ..., c + n\<close>,
  as long as that fits in 64 bits; the counter it stores as text is read back by the next call.
\<close>

theorem incr_counts:
  assumes "\<not> lock_held m (''incr:'' @ key)" and "counter_value (gm_get (store m) key) = c"
    and "min_int64 \<le> c" and "c + int n \<le> max_int64"
  shows "incr_times n m key = map (\<lambda>i. Inr (c + int i)) [1..<Suc n]"
  using assms
proof (induction n arbitrary: m c)
  case (Suc n)
  have w: "wrap_int S64 (c + 1) = c + 1"
    using Suc.prems(3,4) by (intro wrap_int_id) (auto simp: min_int64_def max_int64_def)
  obtain m' where m': "lcIncr m key = (Inr (c + 1), m')" "\<not> lock_held m' (''incr:'' @ key)"
    "gm_get (store m') key = Some (CString (format_int (c + 1)))"
    using lcIncr_free[OF Suc.prems(1)] Suc.prems(2) w by (cases "lcIncr m key") auto
  have "counter_value (gm_get (store m') key) = c + 1"
    using Suc.prems(3,4) by (simp add: m' counter_value_def parse_int_format_int in_int64_def)
  then have "incr_times n m' key = map (\<lambda>i. Inr (c + 1 + int i)) [1..<Suc n]"
    using Suc.prems(3,4) m'(2) by (intro Suc.IH) auto
  also have "\<dots> = map (\<lambda>i. Inr (c + int i)) [2..<Suc (Suc n)]"
    by (simp add: map_Suc_upt[symmetric] numeral_2_eq_2 comp_def add.assoc del: upt_Suc)
  finally show ?case by (simp add: m'(1) upt_conv_Cons numeral_2_eq_2 del: upt_Suc)
qed simp

theorem incr_counts_witness: "incr_times 2 emptyLocalCache ''n'' = [Inr 1, Inr 2]"
  using incr_counts[of emptyLocalCache "''n''" 0 2]
  by (simp add: emptyLocalCache_def lock_held_def counter_value_def min_int64_def max_int64_def numeral_2_eq_2)


section \<open>Locks\<close>

lemma lcAcquireLock_free:
  assumes "\<not> lock_held c k"
  shows "fst (lcAcquireLock c k d) = Inr True \<and> lock_held (snd (lcAcquireLock c k d)) k"
  using assms by (simp add: lcAcquireLock_def Let_def) (simp add: lock_held_def)

lemma lock_held_clock [simp]: "lock_held (c\<lparr>clock := t\<rparr>) k = lock_held c k"
  by (simp add: lock_held_def)

lemma lcAcquireLock_busy:
  assumes "lock_held c k" and "0 < d"
  shows "fst (lcAcquireLock c k d) = Inr False \<and> lock_held (snd (lcAcquireLock c k d)) k \<and>
    store (snd (lcAcquireLock c k d)) = store c \<and> clock (snd (lcAcquireLock c k d)) = clock c + d"
  using assms by (simp add: lcAcquireLock_def Let_def)

lemma lcReleaseLock_free: "\<not> lock_held (snd (lcReleaseLock c k)) k"
  by (simp add: lcReleaseLock_def Let_def lock_held_def)

lemma client_simps: "cAcquireLock localClient = lcAcquireLock" "cReleaseLock localClient = lcReleaseLock"
  by (simp_all add: localClient_def)

lemma acquire_loop_busy:
  assumes "lock_held c k" and "\<forall>i. \<not> canceled i"
  shows "fst (acquire_loop localClient canceled k i n c) = Inr False \<and>
    lock_held (snd (acquire_loop localClient canceled k i n c)) k \<and>
    clock (snd (acquire_loop localClient canceled k i n c)) = clock c + int n * LockDuration"
  using assms(1)
proof (induction n arbitrary: i c)
  case (Suc n)
  have "0 < LockDuration" by (simp add: LockDuration_def)
  from lcAcquireLock_busy[OF Suc.prems this] Suc.IH show ?case
    by (cases "lcAcquireLock c k LockDuration") (simp add: localClient_def assms(2) algebra_simps)
qed simp

lemma lock_views [simp]:
  "lcview (snd (lcReleaseLock c k)) = lcview c"
  by (simp add: lcReleaseLock_def Let_def)

text \<open>With a free lock the action runs on a cache with the same entries.\<close>

lemma with_lock_free:
  assumes "\<not> lock_held c key"
  shows "\<exists>c1. lcview c1 = lcview c \<and> lock_held c1 key \<and>
    WithLock (Some localClient) canceled key action (s, c) =
      (fst (action (s, c1)), fst (snd (action (s, c1))), snd (lcReleaseLock (snd (snd (action (s, c1)))) key))"
proof -
  obtain c1 where acq: "lcAcquireLock c key LockDuration = (Inr True, c1)" and held: "lock_held c1 key"
    using lcAcquireLock_free[OF assms, of LockDuration] by (cases "lcAcquireLock c key LockDuration") auto
  have "lcview c1 = lcview c" using acq assms by (auto simp: lcAcquireLock_def Let_def split: if_splits)
  moreover have "acquire_loop localClient canceled key 0 LockMaxRetries c = (Inr True, c1)"
    using acq by (simp add: LockMaxRetries_def eval_nat_numeral client_simps)
  ultimately show ?thesis using held
    by (auto simp: WithLock_def Let_def split_beta client_simps intro!: exI[of _ c1])
qed



section \<open>Entries that have expired but are still stored\<close>

text \<open>
  \<open>Incr\<close> reads an expired counter instead of starting again, and leaves its deadline in the past;
  storing the missing-record marker over an expired one is skipped. In both cases the value
  just written is not found by the next read.
\<close>

lemma incr_of_expired_lost:
  "let m = \<lparr>store = [(''n'', CString ''5'')], lockPool = [], counters = [], expiryStore = [(''n'', 10)],
            cleanupStarted = True, clock = 20\<rparr>
   in fst (lcIncr m ''n'') = Inr 6 \<and> fst (lcGet (snd (lcIncr m ''n'')) ''n'') = Inl ErrNotFound"
  by code_simp

lemma set_none_over_expired_lost:
  "let m = \<lparr>store = [(''u'', CString NoneResult)], lockPool = [], counters = [], expiryStore = [(''u'', 10)],
            cleanupStarted = True, clock = 20\<rparr>
   in fst (lcSet m ''u'' NoneResult 100) = Inr () \<and> fst (lcGet (snd (lcSet m ''u'' NoneResult 100)) ''u'') = Inl ErrNotFound"
  by code_simp

end
