(* ===== verification/Model_Info.thy ===== *)
theory Model_Info
  imports Go_Values
begin

text \<open>
  Metadata of a model type (\<open>ModelInfo\<close> of \<^verbatim>\<open>internal/schema/metadata.go\<close>) and the methods of a model
  (\<^verbatim>\<open>model.go\<close>). A field access by index path is an access by the field's Go name, since a model is
  the flat list of its fields.

  \<open>KeepItem\<close> and \<open>KeepItemFields\<close> are methods a model type may override, so they are functions in
  the record \<open>model_class\<close>; \<open>base_class\<close> has the ones of \<open>BaseModel\<close>.
\<close>

record ComparableFieldInfo =
  GoName :: string
  DBColumn :: string
  IgnoreInDiff :: bool

record ModelInfo =
  TableName :: string
  PkName :: string
  Columns :: "string list"
  FieldNames :: "string list"
  FieldToColumnMap :: "(string, string) gomap"
  ColumnToFieldMap :: "(string, string) gomap"
  CompareFields :: "ComparableFieldInfo list"
  HasCustomKeepItem :: bool

record model_class =
  minfo :: ModelInfo
  KeepItem :: "gomodel \<Rightarrow> bool"
  KeepItemFields :: "gomodel \<Rightarrow> string list"

definition GetID :: "gomodel \<Rightarrow> int" where
  "GetID m = (case FieldByName m ''ID'' of Some (VInt _ i) \<Rightarrow> i | _ \<Rightarrow> 0)"

definition SetID :: "int \<Rightarrow> gomodel \<Rightarrow> gomodel" where
  "SetID i m = AList.update ''ID'' (VInt S64 i) m"

definition base_KeepItem :: "gomodel \<Rightarrow> bool" where
  "base_KeepItem m = (FieldByName m ''Deleted'' \<noteq> Some (VBool True))"

definition base_KeepItemFields :: "gomodel \<Rightarrow> string list" where
  "base_KeepItemFields m = []"

definition base_class :: "ModelInfo \<Rightarrow> model_class" where
  "base_class i = \<lparr>minfo = i, KeepItem = base_KeepItem, KeepItemFields = base_KeepItemFields\<rparr>"

text \<open>The cache key of a model: \<open>table:id\<close>.\<close>

definition generateCacheKey :: "string \<Rightarrow> int \<Rightarrow> string" where
  "generateCacheKey tableName i = tableName @ '':'' @ format_int i"

definition has_field_typed :: "gomodel \<Rightarrow> string \<Rightarrow> gotype \<Rightarrow> bool" where
  "has_field_typed m f t = (case FieldByName m f of Some v \<Rightarrow> type_of v = Some t | None \<Rightarrow> False)"

definition setCreatedAtTimestamp :: "gomodel \<Rightarrow> goval \<Rightarrow> gomodel" where
  "setCreatedAtTimestamp m t = (if has_field_typed m ''CreatedAt'' TTime then AList.update ''CreatedAt'' t m else m)"

definition setUpdatedAtTimestamp :: "gomodel \<Rightarrow> goval \<Rightarrow> gomodel" where
  "setUpdatedAtTimestamp m t = (if has_field_typed m ''UpdatedAt'' TTime then AList.update ''UpdatedAt'' t m else m)"

section \<open>Well-formed metadata\<close>

text \<open>
  What \<open>GetCachedModelInfo\<close> establishes and the cache relies on: the column map and the compared
  fields name the same columns and fields, each column once, and an instance has those fields.
\<close>

definition compared :: "ModelInfo \<Rightarrow> ComparableFieldInfo list" where
  "compared info = filter (\<lambda>f. \<not> IgnoreInDiff f) (CompareFields info)"

definition info_ok :: "ModelInfo \<Rightarrow> bool" where
  "info_ok info \<longleftrightarrow> TableName info \<noteq> [] \<and> distinct (map DBColumn (compared info)) \<and>
     (\<forall>c g. gm_get (ColumnToFieldMap info) c = Some g \<longleftrightarrow> (\<exists>f \<in> set (compared info). DBColumn f = c \<and> GoName f = g))"

definition instance_of :: "ModelInfo \<Rightarrow> gomodel \<Rightarrow> bool" where
  "instance_of info m \<longleftrightarrow> (\<forall>f \<in> set (compared info). FieldByName m (GoName f) \<noteq> None)"

section \<open>Canonical values\<close>

text \<open>
  A finite float has one canonical representation, with an odd mantissa, or zero. Deeply equal
  canonical values are equal.
\<close>

fun fcanon :: "gofloat \<Rightarrow> bool" where
  "fcanon (FFin m e) = (odd m \<or> m = 0 \<and> e = 0)"
| "fcanon _ = True"

fun vcanon :: "goval \<Rightarrow> bool"
  and vcanon_list :: "goval list \<Rightarrow> bool" where
  "vcanon (VFloat _ f) = fcanon f"
| "vcanon (VPtr _ (Some v)) = vcanon v"
| "vcanon (VSlice _ (Some vs)) = vcanon_list vs"
| "vcanon _ = True"
| "vcanon_list [] = True"
| "vcanon_list (v # vs) = (vcanon v \<and> vcanon_list vs)"

lemma odd_pow_eq:
  assumes "odd (m::int)" and "odd k" and "m * 2 ^ a = k * 2 ^ b" and "a = 0 \<or> b = 0"
  shows "a = b"
  using assms by (cases a; cases b) auto

lemma float_eq_canon:
  assumes "float_eq f g" and "fcanon f" and "fcanon g"
  shows "f = g"
proof (cases f)
  case (FFin m d)
  then obtain k e where g: "g = FFin k e" using assms(1) by (cases g) auto
  have eq: "m * 2 ^ nat (d - min d e) = k * 2 ^ nat (e - min d e)" using assms(1) FFin g by simp
  show ?thesis
  proof (cases "m = 0 \<or> k = 0")
    case True
    with eq have "m = 0 \<and> k = 0" by auto
    with assms(2,3) FFin g show ?thesis by simp
  next
    case False
    then have odd: "odd m" "odd k" using assms(2,3) FFin g by auto
    have "nat (d - min d e) = nat (e - min d e)" by (rule odd_pow_eq[OF odd eq]) auto
    then have "d = e" by (auto simp: min_def split: if_splits)
    with eq FFin g show ?thesis by simp
  qed
next
  case (FInf n)
  then show ?thesis using assms(1) by (cases g) auto
qed (use assms(1) in simp)

lemma deep_eq_canon:
  "deep_eq v w \<Longrightarrow> vcanon v \<Longrightarrow> vcanon w \<Longrightarrow> v = w"
  "deep_eq_list vs ws \<Longrightarrow> vcanon_list vs \<Longrightarrow> vcanon_list ws \<Longrightarrow> vs = ws"
proof (induction v w and vs ws rule: deep_eq_deep_eq_list.induct)
  case (5 s a w)
  then show ?case by (auto split: goval.splits dest: float_eq_canon)
qed (auto split: goval.splits option.splits list.splits)

definition canonical :: "gomodel \<Rightarrow> bool" where
  "canonical m \<longleftrightarrow> (\<forall>f v. FieldByName m f = Some v \<longrightarrow> vcanon v)"

end
