(* ===== verification/Invalidation.thy ===== *)
theory Invalidation
  imports Cache_Index Local_Cache Model_Info
begin

text \<open>
  Query cache invalidation after a save or a delete: \<open>invalidateAffectedQueryCaches\<close> of
  \<^verbatim>\<open>cache.go\<close> and its helpers, over any cache client.

  The function returns nothing in Go; its errors are logged. Here it returns the new cache state
  and \<open>Inl\<close> a panic when evaluating a predicate panics. The write phase of the code holds the
  lock of each key while it deletes it; the locks are the subject of the theory of the key
  locker and have no effect in this sequential step.
\<close>

section \<open>What changed\<close>

definition changedModelColumns :: "ModelInfo \<Rightarrow> gomodel \<Rightarrow> gomodel option \<Rightarrow> keyset" where
  "changedModelColumns info model originalModel =
     (case originalModel of
        None \<Rightarrow> keyset_of (map DBColumn (filter (\<lambda>f. \<not> IgnoreInDiff f) (CompareFields info))) []
      | Some original \<Rightarrow>
          keyset_of (map DBColumn (filter (\<lambda>f. \<not> IgnoreInDiff f \<and>
              (case (FieldByName model (GoName f), FieldByName original (GoName f)) of
                 (Some v, Some w) \<Rightarrow> \<not> deep_eq v w | _ \<Rightarrow> False)) (CompareFields info))) [])"

definition orderDependencyChanged :: "QueryDependencies \<Rightarrow> keyset \<Rightarrow> bool" where
  "orderDependencyChanged deps changedColumns =
     (if changedColumns = [] then False
      else HasUncertainOrder deps \<or> list_ex (ks_has changedColumns) (gm_keys (OrderFields deps)))"

definition collect_values :: "ModelInfo \<Rightarrow> gomodel \<Rightarrow> (string, goval) gomap" where
  "collect_values info model =
     foldl (\<lambda>m f. case FieldByName model (GoName f) of None \<Rightarrow> m | Some v \<Rightarrow> gm_set (DBColumn f) v m) []
       (filter (\<lambda>f. \<not> IgnoreInDiff f) (CompareFields info))"

definition cacheCandidateColumns :: "(string, goval) gomap \<Rightarrow> keyset \<Rightarrow> bool \<Rightarrow> bool \<Rightarrow> bool \<Rightarrow> keyset" where
  "cacheCandidateColumns fieldValues changedColumns isCreate isDelete forceAll =
     (if \<not> isCreate \<and> \<not> isDelete \<and> \<not> forceAll then changedColumns else keyset_of (gm_keys fieldValues) [])"

definition keepItemFieldChanged :: "string list \<Rightarrow> keyset \<Rightarrow> bool" where
  "keepItemFieldChanged keepFields changedColumns =
     (if changedColumns = [] then False else list_ex (ks_has changedColumns) keepFields)"

definition determineCacheAction :: "bool \<Rightarrow> bool \<Rightarrow> bool \<Rightarrow> bool \<Rightarrow> bool \<times> bool" where
  "determineCacheAction isCreate matchesOriginal matchesCurrent isKept =
     (if \<not> isKept then (False, True)
      else if isCreate then (matchesCurrent, False)
      else (matchesCurrent \<and> \<not> matchesOriginal, \<not> matchesCurrent \<and> matchesOriginal))"

definition containsID :: "int list \<Rightarrow> int \<Rightarrow> bool" where
  "containsID ids i = list_ex (\<lambda>j. j = i) ids"

section \<open>Phase 1: tasks\<close>

record cacheTask =
  taskKey :: string
  taskParams :: QueryParams
  taskIsList :: bool
  taskIsCount :: bool
  needsAdd :: bool
  needsRemove :: bool

text \<open>Which task the matches of the row before and after the change call for.\<close>

definition task_for ::
  "model_class \<Rightarrow> gomodel \<Rightarrow> bool \<Rightarrow> keyset \<Rightarrow> string \<Rightarrow> QueryParams \<Rightarrow> QueryDependencies \<Rightarrow> bool \<Rightarrow> bool \<Rightarrow> cacheTask list" where
  "task_for cls model isCreate changedColumns cacheKey params deps matchesOriginal matchesCurrent =
     (let kiFieldChanged = keepItemFieldChanged (KeepItemFields cls model) changedColumns;
          (add, remove0) = determineCacheAction isCreate matchesOriginal matchesCurrent (KeepItem cls model);
          remove1 = (remove0 \<or> is_list_key cacheKey \<and> \<not> isCreate \<and> matchesOriginal \<and> matchesCurrent \<and>
                     orderDependencyChanged deps changedColumns);
          remove2 = (remove1 \<or> kiFieldChanged \<and> matchesCurrent)
      in if add \<or> remove2
         then [\<lparr>taskKey = cacheKey, taskParams = params, taskIsList = is_list_key cacheKey,
                taskIsCount = is_count_key cacheKey, needsAdd = add, needsRemove = remove2\<rparr>]
         else [])"

text \<open>The checks for one key, which do not touch the cache: the tasks, or the error of an evaluation.\<close>

definition key_tasks ::
  "model_class \<Rightarrow> gomodel \<Rightarrow> gomodel option \<Rightarrow> bool \<Rightarrow> bool \<Rightarrow> keyset \<Rightarrow> InvalidationContext \<Rightarrow> string \<Rightarrow>
   cacheTask list go_result" where
  "key_tasks cls model originalModel isCreate isDelete changedColumns invCtx cacheKey =
     (if \<not> is_list_key cacheKey \<and> \<not> is_count_key cacheKey then Inr []
      else case gm_get (KeyToParams invCtx) cacheKey of
        None \<Rightarrow> Inr []
      | Some paramsInternal \<Rightarrow>
          (let params = paramsInternal\<lparr>IncludeDeleted := False\<rparr>;
               deps = (case gm_get (KeyToDeps invCtx) cacheKey of
                         Some d \<Rightarrow> d | None \<Rightarrow> \<lparr>WhereFields = [], OrderFields = [], HasUncertainOrder = False\<rparr>);
               pred = (case gm_get (KeyToPredicate invCtx) cacheKey of Some p \<Rightarrow> p | None \<Rightarrow> None);
               check = (\<lambda>m. CheckQueryMatchWithPredicate (Some m) (TableName (minfo cls))
                               (Some (ColumnToFieldMap (minfo cls))) params pred)
           in if isDelete then
                bindE (check model) (\<lambda>matches.
                  Inr (if matches
                       then [\<lparr>taskKey = cacheKey, taskParams = params, taskIsList = is_list_key cacheKey,
                              taskIsCount = is_count_key cacheKey, needsAdd = False, needsRemove = True\<rparr>]
                       else []))
              else
                bindE (check model) (\<lambda>matchesCurrent.
                bindE (if isCreate then Inr False
                       else case originalModel of None \<Rightarrow> Inr False | Some original \<Rightarrow> check original) (\<lambda>matchesOriginal.
                  Inr (task_for cls model isCreate changedColumns cacheKey params deps matchesOriginal matchesCurrent)))))"

text \<open>
  The loop over the keys, with the checks \<open>tasks_of\<close>: an evaluation error drops the entry and goes
  on, a panic is not an error value and goes up.
\<close>

fun gather_tasks ::
  "'c cache_client \<Rightarrow> (string \<Rightarrow> cacheTask list go_result) \<Rightarrow> string list \<Rightarrow> 'c \<Rightarrow> cacheTask list go_result \<times> 'c" where
  "gather_tasks client tasks_of [] c = (Inr [], c)"
| "gather_tasks client tasks_of (k # ks) c =
     (case tasks_of k of
        Inl err \<Rightarrow>
          if is_panic err then (Inl err, c)
          else gather_tasks client tasks_of ks (snd (cDelete client c k))
      | Inr ts \<Rightarrow>
          (case gather_tasks client tasks_of ks c of
             (Inl e, c2) \<Rightarrow> (Inl e, c2)
           | (Inr us, c2) \<Rightarrow> (Inr (ts @ us), c2)))"

section \<open>Phase 2: reads\<close>

text \<open>The list read for a key: \<open>None\<close> after a read error, which excludes the key from the writes.\<close>

definition read_value :: "int list go_result \<Rightarrow> int list option" where
  "read_value r =
     (case r of Inl err \<Rightarrow> if errors_is err ErrNotFound then Some [] else None | Inr ids \<Rightarrow> Some ids)"

fun read_lists ::
  "'c cache_client \<Rightarrow> cacheTask list \<Rightarrow> (string, int list option) gomap \<Rightarrow> 'c \<Rightarrow> (string, int list option) gomap \<times> 'c" where
  "read_lists client [] vals c = (vals, c)"
| "read_lists client (t # ts) vals c =
     (if \<not> needsAdd t \<and> \<not> needsRemove t \<or> \<not> taskIsList t \<or> gm_get vals (taskKey t) \<noteq> None
      then read_lists client ts vals c
      else
        let rc = cGetQueryIDs client c (taskKey t)
        in read_lists client ts (gm_set (taskKey t) (read_value (fst rc)) vals) (snd rc))"

section \<open>Phase 3: writes needed\<close>

definition write_needed :: "(string, int list option) gomap \<Rightarrow> int \<Rightarrow> cacheTask \<Rightarrow> bool" where
  "write_needed vals i t =
     (if taskIsList t then
        (case gm_get vals (taskKey t) of
           Some (Some initialIDs) \<Rightarrow>
             if needsAdd t then \<not> containsID initialIDs i else needsRemove t
         | _ \<Rightarrow> False)
      else taskIsCount t \<and> (needsAdd t \<or> needsRemove t))"

definition writes_needed :: "(string, int list option) gomap \<Rightarrow> int \<Rightarrow> cacheTask list \<Rightarrow> keyset" where
  "writes_needed vals i ts = keyset_of (map taskKey (filter (write_needed vals i) ts)) []"

section \<open>Phase 4: deletes\<close>

text \<open>A failed delete is tried once more; a key that is already gone is not a failure.\<close>

definition delete_key :: "'c cache_client \<Rightarrow> string \<Rightarrow> 'c \<Rightarrow> 'c" where
  "delete_key client k c =
     (let rc = cDelete client c k
      in case fst rc of
           Inr _ \<Rightarrow> snd rc
         | Inl e \<Rightarrow> if errors_is e ErrNotFound then snd rc else snd (cDelete client (snd rc) k))"

fun delete_keys :: "'c cache_client \<Rightarrow> string list \<Rightarrow> 'c \<Rightarrow> 'c" where
  "delete_keys client [] c = c"
| "delete_keys client (k # ks) c = delete_keys client ks (delete_key client k c)"

section \<open>The whole step\<close>

definition invalidateAffectedQueryCaches ::
  "(goval \<Rightarrow> string) \<Rightarrow> 'c cache_client option \<Rightarrow> model_class \<Rightarrow> CacheIndex \<Rightarrow> gomodel \<Rightarrow> gomodel option \<Rightarrow> bool \<Rightarrow> bool \<Rightarrow>
   'c \<Rightarrow> unit go_result \<times> 'c" where
  "invalidateAffectedQueryCaches fmt_v client_opt cls idx model originalModel isCreate isDelete c =
     (case client_opt of
        None \<Rightarrow> (Inr (), c)
      | Some client \<Rightarrow>
          (let i = GetID model in
           if i = 0 then (Inr (), c)
           else
             let info = minfo cls;
                 changedColumns = changedModelColumns info model originalModel;
                 kiFieldChanged = keepItemFieldChanged (KeepItemFields cls model) changedColumns;
                 fieldValues = collect_values info model;
                 candidateColumns = cacheCandidateColumns fieldValues changedColumns isCreate isDelete
                                      (\<not> KeepItem cls model \<or> kiFieldChanged);
                 invCtx = GetInvalidationContext fmt_v idx (TableName info) fieldValues candidateColumns
             in (case gather_tasks client (key_tasks cls model originalModel isCreate isDelete changedColumns invCtx)
                          (CacheKeys invCtx) c of
                   (Inl e, c1) \<Rightarrow> (Inl e, c1)
                 | (Inr tasks, c1) \<Rightarrow>
                     (let (vals, c2) = read_lists client tasks [] c1
                      in (Inr (), delete_keys client (gm_keys (writes_needed vals i tasks)) c2)))))"

section \<open>Dropping caches by hand\<close>

definition ClearCacheByID :: "'c cache_client \<Rightarrow> model_class \<Rightarrow> int \<Rightarrow> 'c \<Rightarrow> unit go_result \<times> 'c" where
  "ClearCacheByID client cls i c = (Inr (), snd (cDeleteModel client c (generateCacheKey (TableName (minfo cls)) i)))"

fun delete_all :: "'c cache_client \<Rightarrow> string list \<Rightarrow> unit go_result \<Rightarrow> 'c \<Rightarrow> unit go_result \<times> 'c" where
  "delete_all client [] firstErr c = (firstErr, c)"
| "delete_all client (k # ks) firstErr c =
     (case cDelete client c k of
        (Inr _, c1) \<Rightarrow> delete_all client ks firstErr c1
      | (Inl e, c1) \<Rightarrow>
          delete_all client ks (if \<not> errors_is e ErrNotFound \<and> firstErr = Inr () then Inl e else firstErr) c1)"

definition InvalidateQueryCaches ::
  "'c cache_client option \<Rightarrow> model_class \<Rightarrow> CacheIndex \<Rightarrow> 'c \<Rightarrow> unit go_result \<times> 'c" where
  "InvalidateQueryCaches client_opt cls idx c =
     (case client_opt of
        None \<Rightarrow> (Inr (), c)
      | Some client \<Rightarrow> delete_all client (GetQueryKeysForTable idx (TableName (minfo cls))) (Inr ()) c)"

section \<open>Background cleanup\<close>

text \<open>
  One round of \<open>cleanupExpiredKeys\<close>: drop the expired entries, then take the keys that are no
  longer stored out of the index.
\<close>

definition expired_keys :: "localCache \<Rightarrow> string list" where
  "expired_keys m = map fst (filter (\<lambda>(k, t). t < clock m) (expiryStore m))"

definition cleanupExpiredKeys :: "localCache \<Rightarrow> CacheIndex \<Rightarrow> localCache \<times> CacheIndex" where
  "cleanupExpiredKeys m idx =
     (let m' = foldl (\<lambda>m k. remove k m) m (expired_keys m)
      in (m', foldl (\<lambda>i k. if gm_get (store m') k = None then DeregisterQuery i k else i) idx (GetAllRegisteredKeys idx)))"


section \<open>A reliable cache\<close>

text \<open>
  A cache whose reads find what is stored and whose deletes succeed (or find nothing to delete).
  What a client of such a cache sees after the four phases.
\<close>

locale reliable_cache = cache_client_spec client view
  for client :: "'c cache_client" and view :: "'c \<Rightarrow> string \<rightharpoonup> cache_value" +
  assumes ids_readable: "view s k = Some (CIDs ids) \<Longrightarrow> fst (cGetQueryIDs client s k) = Inr ids"
    and delete_ok: "fst (cDelete client s k) = Inl e \<Longrightarrow> errors_is e ErrNotFound"
begin

lemma delete_gone: "view (snd (cDelete client s k)) k = None"
  using delete_removes[of s k] delete_ok[of s k] by (cases "fst (cDelete client s k)") auto

lemma gather_tasks_view:
  "gather_tasks client tasks_of ks c = (r, c1) \<Longrightarrow> view c1 \<subseteq>\<^sub>m view c"
proof (induction ks arbitrary: c r)
  case (Cons k ks)
  then show ?case
    by (auto split: sum.splits if_splits prod.splits intro: map_le_trans[OF _ delete_le])
qed simp

lemma gather_tasks_result:
  assumes "gather_tasks client tasks_of ks c = (Inr tasks, c1)"
  shows "tasks = concat (map (\<lambda>k. case tasks_of k of Inl _ \<Rightarrow> [] | Inr ts \<Rightarrow> ts) ks) \<and>
    (\<forall>k \<in> set ks. \<forall>e. tasks_of k = Inl e \<longrightarrow> view c1 k = None)"
  using assms
proof (induction ks arbitrary: c tasks)
  case (Cons k ks)
  show ?case
  proof (cases "tasks_of k")
    case (Inl e)
    with Cons.prems have rest: "gather_tasks client tasks_of ks (snd (cDelete client c k)) = (Inr tasks, c1)"
      by (auto split: if_splits)
    have "view c1 k = None"
      using gather_tasks_view[OF rest] delete_gone[of c k] by (metis domIff map_le_implies_dom_le subsetD)
    with Cons.IH[OF rest] Inl show ?thesis by auto
  next
    case (Inr ts)
    with Cons.prems obtain us where "gather_tasks client tasks_of ks c = (Inr us, c1)" "tasks = ts @ us"
      by (auto split: prod.splits sum.splits)
    with Cons.IH Inr show ?thesis by auto
  qed
qed simp

lemma read_lists_view: "view (snd (read_lists client ts vals c)) \<subseteq>\<^sub>m view c"
proof (induction ts arbitrary: vals c)
  case (Cons t ts)
  show ?case using Cons map_le_trans[OF Cons ids_le[of c "taskKey t"]] by (simp add: Let_def)
qed simp

lemma read_lists_keep: "gm_get vals k = Some x \<Longrightarrow> gm_get (fst (read_lists client ts vals c)) k = Some x"
proof (induction ts arbitrary: vals c)
  case (Cons t ts)
  show ?case
  proof (cases "taskKey t = k")
    case False
    with Cons show ?thesis by (simp add: Let_def)
  qed (use Cons in simp)
qed simp

text \<open>What the read phase knows about a key, \<open>c\<close> before and \<open>c2\<close> after it.\<close>

definition read_outcome :: "string \<Rightarrow> int list option \<Rightarrow> 'c \<Rightarrow> 'c \<Rightarrow> bool" where
  "read_outcome k x c c2 \<longleftrightarrow>
     (case x of
        None \<Rightarrow> (\<forall>ids. view c2 k \<noteq> Some (CIDs ids))
      | Some ids \<Rightarrow> view c k = Some (CIDs ids) \<or> ids = [] \<and> view c2 k = None)"

lemma view_le_None: "view c2 \<subseteq>\<^sub>m view c \<Longrightarrow> view c k = None \<Longrightarrow> view c2 k = None"
  by (metis domIff map_le_implies_dom_le subsetD)

lemma view_le_Some: "view c2 \<subseteq>\<^sub>m view c \<Longrightarrow> view c2 k = Some v \<Longrightarrow> view c k = Some v"
  by (metis domI map_le_def)

lemma read_one:
  assumes "view c2 \<subseteq>\<^sub>m view (snd (cGetQueryIDs client c k))"
  shows "read_outcome k (read_value (fst (cGetQueryIDs client c k))) c c2"
proof -
  have le: "view c2 \<subseteq>\<^sub>m view c" by (rule map_le_trans[OF assms ids_le])
  show ?thesis
  proof (cases "fst (cGetQueryIDs client c k)")
    case (Inl e)
    have "view c k \<noteq> Some (CIDs ids)" for ids using ids_readable[of c k ids] Inl by auto
    with view_le_Some[OF le] have "view c2 k \<noteq> Some (CIDs ids)" for ids by blast
    moreover have "errors_is e ErrNotFound \<Longrightarrow> view c2 k = None"
      using ids_not_found[OF Inl] view_le_None[OF le] by simp
    ultimately show ?thesis using Inl by (auto simp: read_outcome_def read_value_def)
  next
    case (Inr ids)
    then show ?thesis using ids_value[OF Inr] by (auto simp: read_outcome_def read_value_def)
  qed
qed

lemma read_outcome_mono: "read_outcome k x c1 c2 \<Longrightarrow> view c1 \<subseteq>\<^sub>m view c \<Longrightarrow> read_outcome k x c c2"
  using view_le_Some by (auto simp: read_outcome_def split: option.splits)

lemma read_lists_key:
  assumes "\<exists>t \<in> set ts. taskKey t = k \<and> taskIsList t \<and> (needsAdd t \<or> needsRemove t)" and "gm_get vals k = None"
  shows "\<exists>x. gm_get (fst (read_lists client ts vals c)) k = Some x \<and> read_outcome k x c (snd (read_lists client ts vals c))"
  using assms
proof (induction ts arbitrary: vals c)
  case (Cons t ts)
  show ?case
  proof (cases "\<not> needsAdd t \<and> \<not> needsRemove t \<or> \<not> taskIsList t \<or> gm_get vals (taskKey t) \<noteq> None")
    case True
    with Cons.prems have "\<exists>t \<in> set ts. taskKey t = k \<and> taskIsList t \<and> (needsAdd t \<or> needsRemove t)" by auto
    with Cons.IH Cons.prems(2) True show ?thesis by auto
  next
    case False
    let ?rc = "cGetQueryIDs client c (taskKey t)"
    let ?vals = "gm_set (taskKey t) (read_value (fst ?rc)) vals"
    have step: "read_lists client (t # ts) vals c = read_lists client ts ?vals (snd ?rc)"
      using False by (auto simp: Let_def)
    show ?thesis
    proof (cases "taskKey t = k")
      case True
      then have "read_outcome k (read_value (fst ?rc)) c (snd (read_lists client ts ?vals (snd ?rc)))"
        using read_one read_lists_view by blast
      with True show ?thesis unfolding step
        using read_lists_keep[of ?vals k "read_value (fst ?rc)" ts "snd ?rc"] by auto
    next
      case nk: False
      with Cons.prems have "\<exists>t \<in> set ts. taskKey t = k \<and> taskIsList t \<and> (needsAdd t \<or> needsRemove t)" by auto
      moreover have "gm_get ?vals k = None" using nk Cons.prems(2) by simp
      ultimately show ?thesis unfolding step using Cons.IH[of ?vals "snd ?rc"] read_outcome_mono[OF _ ids_le] by blast
    qed
  qed
qed simp

lemma delete_key_view: "view (delete_key client k c) \<subseteq>\<^sub>m view c"
  using delete_le map_le_trans[OF delete_le delete_le] by (auto simp: delete_key_def Let_def split: sum.splits)

lemma delete_key_gone: "view (delete_key client k c) k = None"
  using delete_gone by (auto simp: delete_key_def Let_def split: sum.splits)

lemma delete_keys_view: "view (delete_keys client ks c) \<subseteq>\<^sub>m view c"
  by (induction ks arbitrary: c) (auto intro: map_le_trans[OF _ delete_key_view])

lemma delete_keys_gone: "k \<in> set ks \<Longrightarrow> view (delete_keys client ks c) k = None"
proof (induction ks arbitrary: c)
  case (Cons j ks)
  then show ?case using view_le_None[OF delete_keys_view delete_key_gone] by (cases "k \<in> set ks") auto
qed simp

text \<open>
  After all phases, for a key whose checks gave the task \<open>t\<close>: a count entry is gone; a list entry is
  gone or unreadable, unless the row had to be added and the list already had it.
\<close>

lemma phases_outcome:
  assumes "gather_tasks client tasks_of ks c = (Inr tasks, c1)" and "k \<in> set ks" and "tasks_of k = Inr [t]"
    and "\<forall>j us. tasks_of j = Inr us \<longrightarrow> (\<forall>u \<in> set us. taskKey u = j)"
    and "needsAdd t \<or> needsRemove t" and "taskIsList t \<or> taskIsCount t"
    and "c' = delete_keys client (gm_keys (writes_needed (fst (read_lists client tasks [] c1)) i tasks))
                (snd (read_lists client tasks [] c1))"
  shows "view c' k = None \<or> (\<forall>ids. view c' k \<noteq> Some (CIDs ids)) \<and> taskIsList t \<or>
    (taskIsList t \<and> needsAdd t \<and> (\<exists>ids. view c k = Some (CIDs ids) \<and> i \<in> set ids))"
proof -
  let ?vals = "fst (read_lists client tasks [] c1)" and ?c2 = "snd (read_lists client tasks [] c1)"
  have "t \<in> set (case tasks_of k of Inl _ \<Rightarrow> [] | Inr ts \<Rightarrow> ts)" by (simp add: assms(3))
  with gather_tasks_result[OF assms(1)] assms(2) have "t \<in> set tasks" by force
  moreover have "taskKey t = k" using assms(3,4) by simp
  ultimately have t: "t \<in> set tasks" "taskKey t = k" .
  have gone: "view c' k = None" if "write_needed ?vals i t"
  proof -
    have "k \<in> set (gm_keys (writes_needed ?vals i tasks))"
      using t that unfolding writes_needed_def set_keyset_of by auto
    then show ?thesis using delete_keys_gone assms(7) by simp
  qed
  show ?thesis
  proof (cases "taskIsList t")
    case True
    obtain x where x: "gm_get ?vals k = Some x" "read_outcome k x c1 ?c2"
      using read_lists_key[of tasks k "[]" c1] t True assms(5) by auto
    show ?thesis
    proof (cases x)
      case None
      then have "\<forall>ids. view ?c2 k \<noteq> Some (CIDs ids)" using x(2) by (simp add: read_outcome_def)
      then have "\<forall>ids. view c' k \<noteq> Some (CIDs ids)" using view_le_Some[OF delete_keys_view] assms(7) by blast
      with True show ?thesis by blast
    next
      case (Some ids)
      show ?thesis
      proof (cases "needsAdd t \<and> containsID ids i")
        case True
        then have "i \<in> set ids" by (auto simp: containsID_def list_ex_iff)
        with x(2) Some have "view c1 k = Some (CIDs ids)" by (auto simp: read_outcome_def)
        then have "view c k = Some (CIDs ids)" by (rule view_le_Some[OF gather_tasks_view[OF assms(1)]])
        with True \<open>taskIsList t\<close> \<open>i \<in> set ids\<close> show ?thesis by blast
      next
        case False
        then have "write_needed ?vals i t" using x(1) Some t True assms(5) by (auto simp: write_needed_def)
        with gone show ?thesis by blast
      qed
    qed
  qed (use gone assms(5,6) in \<open>auto simp: write_needed_def\<close>)
qed

lemma phases_error:
  assumes "gather_tasks client tasks_of ks c = (Inr tasks, c1)" and "k \<in> set ks" and "tasks_of k = Inl e"
  shows "view (delete_keys client ws (snd (read_lists client tasks [] c1))) k = None"
proof -
  have "view c1 k = None" using gather_tasks_result[OF assms(1)] assms(2,3) by blast
  then show ?thesis using view_le_None[OF delete_keys_view] view_le_None[OF read_lists_view] by blast
qed

end

interpretation lcr: reliable_cache localClient lcview
  by unfold_locales (auto simp: localClient_def lcGetQueryIDs_result lcDelete_def)


section \<open>Changes that affect a query\<close>

text \<open>A row counts for a query when it matches and is kept, or the query wants deleted rows too.\<close>

definition contributes :: "model_class \<Rightarrow> QueryParams \<Rightarrow> queryPredicate \<Rightarrow> gomodel \<Rightarrow> bool" where
  "contributes cls p pr m \<longleftrightarrow>
     (IncludeDeleted p \<or> KeepItem cls m) \<and> Match (Some pr) m (ColumnToFieldMap (minfo cls)) = Inr True"

text \<open>
  The result of the query changes with the row: a created or deleted row counts, or an update
  changes whether it counts or, for a list, a column the list is ordered by.
\<close>

definition result_changed ::
  "model_class \<Rightarrow> string \<Rightarrow> QueryParams \<Rightarrow> queryPredicate \<Rightarrow> gomodel \<Rightarrow> gomodel option \<Rightarrow> bool \<Rightarrow> bool \<Rightarrow> bool" where
  "result_changed cls k p pr model originalModel isCreate isDelete \<longleftrightarrow>
     (if isCreate \<or> isDelete then contributes cls p pr model
      else case originalModel of
        None \<Rightarrow> contributes cls p pr model
      | Some original \<Rightarrow>
          contributes cls p pr original \<noteq> contributes cls p pr model \<or>
          (contributes cls p pr original \<and> contributes cls p pr model \<and> is_list_key k \<and>
           orderDependencyChanged (key_deps k p) (changedModelColumns (minfo cls) model (Some original))))"

text \<open>
  What the cache relies on: metadata and instances fit together, the WHERE clause parses and names
  columns of the table (and is empty rather than blank), and a row that was hidden before an
  update comes back only by a column the model declares in \<open>KeepItemFields\<close>.
\<close>

definition tracked ::
  "model_class \<Rightarrow> string \<Rightarrow> QueryParams \<Rightarrow> queryPredicate \<Rightarrow> gomodel \<Rightarrow> gomodel option \<Rightarrow> bool \<Rightarrow> bool \<Rightarrow> bool" where
  "tracked cls k p pr model originalModel isCreate isDelete \<longleftrightarrow>
     info_ok (minfo cls) \<and> instance_of (minfo cls) model \<and> canonical model \<and>
     (\<forall>original. originalModel = Some original \<longrightarrow> instance_of (minfo cls) original \<and> canonical original) \<and>
     parseQueryPredicate p = Inr pr \<and>
     (\<forall>c \<in> set (Fields pr). gm_get (ColumnToFieldMap (minfo cls)) c \<noteq> None) \<and>
     (Where p = [] \<or> trim_space (Where p) \<noteq> []) \<and>
     (is_list_key k \<or> is_count_key k) \<and>
     (isCreate \<or> isDelete \<or> IncludeDeleted p \<or>
      (\<forall>original. originalModel = Some original \<longrightarrow> KeepItem cls original \<or>
         keepItemFieldChanged (KeepItemFields cls model) (changedModelColumns (minfo cls) model originalModel)))"

lemma ks_has_keyset_of [simp]: "ks_has (keyset_of fs []) f \<longleftrightarrow> f \<in> set fs"
proof -
  have "ks_has (foldl (\<lambda>m f. gm_set f True m) m fs) f \<longleftrightarrow> f \<in> set fs \<or> ks_has m f" for m
    by (induction fs arbitrary: m) auto
  then show ?thesis by (simp add: keyset_of_def)
qed

lemma changed_column:
  assumes "info_ok info" and "instance_of info model" and "instance_of info original"
    and "canonical model" and "canonical original"
    and "gm_get (ColumnToFieldMap info) c \<noteq> None"
    and "resolve_column model (ColumnToFieldMap info) c \<noteq> resolve_column original (ColumnToFieldMap info) c"
  shows "ks_has (changedModelColumns info model (Some original)) c"
proof -
  from assms(1,6) obtain f where f: "f \<in> set (compared info)" "DBColumn f = c"
    "gm_get (ColumnToFieldMap info) c = Some (GoName f)" by (auto simp: info_ok_def)
  have "FieldByName model (GoName f) \<noteq> None" "FieldByName original (GoName f) \<noteq> None"
    using assms(2,3) f(1) by (simp_all add: instance_of_def)
  then obtain v w where vw: "FieldByName model (GoName f) = Some v" "FieldByName original (GoName f) = Some w" by blast
  with assms(7) f(3) have "v \<noteq> w" by (auto simp: resolve_column_def)
  then have "\<not> deep_eq v w" using deep_eq_canon(1) assms(4,5) vw by (auto simp: canonical_def)
  with f vw show ?thesis
    by (auto simp: changedModelColumns_def compared_def)
qed

lemma collect_values_get:
  assumes "instance_of info model" and "f \<in> set (compared info)"
  shows "gm_get (collect_values info model) (DBColumn f) \<noteq> None"
proof -
  have "\<forall>f \<in> set fs. FieldByName model (GoName f) \<noteq> None \<Longrightarrow> f \<in> set fs \<or> gm_get m (DBColumn f) \<noteq> None \<Longrightarrow>
    gm_get (foldl (\<lambda>m f. case FieldByName model (GoName f) of None \<Rightarrow> m | Some v \<Rightarrow> gm_set (DBColumn f) v m) m fs)
      (DBColumn f) \<noteq> None" for fs m
    by (induction fs arbitrary: m) auto
  then show ?thesis using assms by (simp add: collect_values_def instance_of_def compared_def)
qed

lemma all_candidates:
  assumes "info_ok info" and "instance_of info model" and "isCreate \<or> isDelete \<or> forceAll"
    and "gm_get (ColumnToFieldMap info) c \<noteq> None"
  shows "ks_has (cacheCandidateColumns (collect_values info model) changed isCreate isDelete forceAll) c"
proof -
  from assms(1,4) obtain f where f: "f \<in> set (compared info)" "DBColumn f = c" by (auto simp: info_ok_def)
  with collect_values_get[OF assms(2) f(1)] assms(3) show ?thesis by (auto simp: cacheCandidateColumns_def)
qed

lemma node_columns_nonempty: "node_columns n \<noteq> {}"
  by (induction n) auto


lemma order_fields_nonempty: "[] \<notin> set flds \<Longrightarrow> [] \<notin> set (fst (order_loop cs flds u))"
proof (induction cs arbitrary: flds u)
  case (Cons clause0 cs)
  have "normalizeOrderIdentifier x = Some f \<Longrightarrow> f \<noteq> []" for x f
    by (auto simp: normalizeOrderIdentifier_def Let_def split: if_splits)
  then have "normalizeOrderIdentifier x = Some f \<Longrightarrow> [] \<notin> set (if f \<in> set flds then flds else flds @ [f])" for x f
    using Cons.prems by auto
  with Cons show ?case by (auto simp: Let_def split: option.split simp del: set_append)
qed simp

lemma order_field_nonempty: "gm_get (OrderFields (key_deps k p)) [] = None"
proof -
  have "[] \<notin> set (fst (ParseOrderFields ord))" for ord
    by (simp add: ParseOrderFields_def order_fields_nonempty)
  then have "gm_get (keyset_of (fst (ParseOrderFields ord)) []) [] = None" for ord
    using keyset_of_mem[of "fst (ParseOrderFields ord)" "[]"] by (metis not_None_eq)
  then show ?thesis
    by (auto simp: key_deps_def buildQueryDependencies_def Let_def split_beta) (simp_all add: keyset_of_def)
qed

lemma ks_has_get: "ks_has m c \<Longrightarrow> gm_get m c \<noteq> None"
  by (simp add: ks_has_def)

lemma order_change_selected:
  assumes "orderDependencyChanged (key_deps k p) cand"
  shows "selected fmt_v fv cand k p"
proof -
  from assms consider "HasUncertainOrder (key_deps k p)"
    | f where "gm_get (OrderFields (key_deps k p)) f \<noteq> None" "ks_has cand f"
    by (auto simp: orderDependencyChanged_def list_ex_iff split: if_splits)
  then show ?thesis
  proof cases
    case 1
    then have "uncertainDependencyField \<in> dep_fields k p" by (simp add: dep_fields_def uncertainDependencyField_def)
    then show ?thesis by (simp add: selected_def)
  next
    case 2
    with order_field_nonempty have "f \<in> dep_fields k p" by (auto simp: dep_fields_def)
    with ks_has_get[OF 2(2)] show ?thesis by (auto simp: selected_def)
  qed
qed

lemma parse_where_fields: "parseQueryPredicate p = Inr pr \<Longrightarrow> where_fields p = Fields pr"
  by (simp add: where_fields_def parseQueryForIndex_def)

text \<open>A change that affects a tracked query selects its key.\<close>

lemma change_selected:
  assumes "tracked cls k p pr model originalModel isCreate isDelete"
    and "result_changed cls k p pr model originalModel isCreate isDelete"
    and "changed = changedModelColumns (minfo cls) model originalModel"
    and "cand = cacheCandidateColumns (collect_values (minfo cls) model) changed isCreate isDelete
                  (\<not> KeepItem cls model \<or> keepItemFieldChanged (KeepItemFields cls model) changed)"
  shows "selected fmt_v fv cand k p"
proof -
  let ?force = "\<not> KeepItem cls model \<or> keepItemFieldChanged (KeepItemFields cls model) changed"
  have parse: "parseQueryPredicate p = Inr pr" and ok: "info_ok (minfo cls)" "instance_of (minfo cls) model"
    and cols: "\<And>c. c \<in> set (Fields pr) \<Longrightarrow> gm_get (ColumnToFieldMap (minfo cls)) c \<noteq> None"
    using assms(1) by (auto simp: tracked_def)
  have field: "selected fmt_v fv cand k p" if "c \<in> set (Fields pr)" "ks_has cand c" for c
    using that ks_has_get[OF that(2)] by (auto simp: selected_def parse_where_fields[OF parse])
  show ?thesis
  proof (cases "root pr")
    case None
    then have "Where p = []" using parse_root(2)[OF parse] assms(1) by (auto simp: tracked_def)
    then show ?thesis using assms(1) by (auto simp: selected_def tracked_def)
  next
    case (Some n)
    then obtain c where c: "c \<in> set (Fields pr)" using node_columns_nonempty[of n] by (auto simp: set_Fields)
    show ?thesis
    proof (cases "isCreate \<or> isDelete \<or> ?force")
      case True
      from all_candidates[OF ok True cols[OF c]] assms(4) show ?thesis using field[OF c] by simp
    next
      case False
      then have cand: "cand = changed" using assms(4) by (simp add: cacheCandidateColumns_def)
      show ?thesis
      proof (cases originalModel)
        case None
        have "ks_has changed c" using ok(1) cols[OF c] None assms(3)
          by (force simp: changedModelColumns_def info_ok_def compared_def)
        then show ?thesis using field[OF c] cand by simp
      next
        case (Some original)
        then have orig: "instance_of (minfo cls) original" "canonical original" "canonical model"
          and keep: "IncludeDeleted p \<or> KeepItem cls original"
          using assms(1,3) False by (auto simp: tracked_def)
        show ?thesis
        proof (cases "contributes cls p pr original = contributes cls p pr model")
          case True
          then have "orderDependencyChanged (key_deps k p) changed"
            using assms(2,3) False Some by (auto simp: result_changed_def)
          then show ?thesis using order_change_selected cand by simp
        next
          case neq: False
          then have "Match (Some pr) original (ColumnToFieldMap (minfo cls)) \<noteq> Match (Some pr) model (ColumnToFieldMap (minfo cls))"
            using keep False by (auto simp: contributes_def)
          then obtain d where d: "d \<in> set (Fields pr)"
            "resolve_column original (ColumnToFieldMap (minfo cls)) d \<noteq> resolve_column model (ColumnToFieldMap (minfo cls)) d"
            using Match_agree[of "ColumnToFieldMap (minfo cls)" pr original model] unfolding agree_on_def by blast
          then have "ks_has changed d"
            using changed_column[OF ok(1,2) orig(1,3,2) cols[OF d(1)]] Some assms(3) by auto
          then show ?thesis using field[OF d(1)] cand by simp
        qed
      qed
    qed
  qed
qed


text \<open>The checks of a selected key, in terms of the predicate and dependencies of its query.\<close>

lemma key_tasks_eq:
  assumes "index_repr fmt_v idx H" and "k \<in> set (CacheKeys (GetInvalidationContext fmt_v idx t fv cand))"
    and "latest H k = Some p" and "parseQueryPredicate p = Inr pr" and "TableName (minfo cls) \<noteq> []"
    and "is_list_key k \<or> is_count_key k"
  shows "key_tasks cls model originalModel isCreate isDelete changed (GetInvalidationContext fmt_v idx t fv cand) k =
    (let match = (\<lambda>m. Match (Some pr) m (ColumnToFieldMap (minfo cls))); params = p\<lparr>IncludeDeleted := False\<rparr> in
     if isDelete then
       bindE (match model) (\<lambda>matches.
         Inr (if matches
              then [\<lparr>taskKey = k, taskParams = params, taskIsList = is_list_key k,
                     taskIsCount = is_count_key k, needsAdd = False, needsRemove = True\<rparr>]
              else []))
     else
       bindE (match model) (\<lambda>matchesCurrent.
       bindE (if isCreate then Inr False
              else case originalModel of None \<Rightarrow> Inr False | Some original \<Rightarrow> match original) (\<lambda>matchesOriginal.
         Inr (task_for cls model isCreate changed k params (key_deps k p) matchesOriginal matchesCurrent))))"
proof -
  have meta: "gm_get (KeyToParams (GetInvalidationContext fmt_v idx t fv cand)) k = Some p"
    "gm_get (KeyToDeps (GetInvalidationContext fmt_v idx t fv cand)) k = Some (key_deps k p)"
    "gm_get (KeyToPredicate (GetInvalidationContext fmt_v idx t fv cand)) k = Some (Some pr)"
    using invalidation_metadata[OF assms(1,2)] assms(3,4) by (auto simp: key_predicate_def)
  have check: "CheckQueryMatchWithPredicate (Some m) (TableName (minfo cls)) (Some cm) ps (Some pr) = Match (Some pr) m cm" for m cm ps
    using assms(5) by (simp add: CheckQueryMatchWithPredicate_def)
  have key: "(\<not> is_list_key k \<and> \<not> is_count_key k) = False" using assms(6) by simp
  show ?thesis
    unfolding key_tasks_def by (simp only: key if_False meta option.case check Let_def)
qed

lemma task_for_key: "u \<in> set (task_for cls model isCreate changed k ps deps mo mc) \<Longrightarrow> taskKey u = k"
  by (auto simp: task_for_def Let_def split_beta split: if_splits)

lemma key_tasks_key:
  "key_tasks cls model originalModel isCreate isDelete changed invCtx j = Inr us \<Longrightarrow> u \<in> set us \<Longrightarrow> taskKey u = j"
  by (auto simp: key_tasks_def Let_def task_for_key split: option.splits if_splits)

text \<open>A change that affects the query gives its key a task, or an evaluation error.\<close>

lemma change_tasks:
  assumes "tracked cls k p pr model originalModel isCreate isDelete"
    and "result_changed cls k p pr model originalModel isCreate isDelete"
    and "changed = changedModelColumns (minfo cls) model originalModel"
    and "index_repr fmt_v idx H" and "k \<in> set (CacheKeys (GetInvalidationContext fmt_v idx tn fv cand))"
    and "latest H k = Some p"
    and "key_tasks cls model originalModel isCreate isDelete changed (GetInvalidationContext fmt_v idx tn fv cand) k = Inr us"
  shows "\<exists>t. us = [t] \<and> (needsAdd t \<or> needsRemove t) \<and> taskIsList t = is_list_key k \<and> taskIsCount t = is_count_key k \<and>
    (needsAdd t \<longrightarrow> \<not> isDelete \<and> contributes cls p pr model)"
proof -
  let ?match = "\<lambda>m. Match (Some pr) m (ColumnToFieldMap (minfo cls))"
  have parse: "parseQueryPredicate p = Inr pr" and tn: "TableName (minfo cls) \<noteq> []" and key: "is_list_key k \<or> is_count_key k"
    using assms(1) by (auto simp: tracked_def info_ok_def)
  note eq = key_tasks_eq[OF assms(4,5,6) parse tn key, of model originalModel isCreate isDelete changed]
  show ?thesis
  proof (cases isDelete)
    case True
    then show ?thesis using assms(2,7) eq by (auto simp: result_changed_def contributes_def Let_def)
  next
    case False
    from assms(7)[unfolded eq] False obtain mc mo where mc: "?match model = Inr mc"
      and mo: "(if isCreate then Inr False else case originalModel of None \<Rightarrow> Inr False | Some original \<Rightarrow> ?match original) = Inr mo"
      and us: "us = task_for cls model isCreate changed k (p\<lparr>IncludeDeleted := False\<rparr>) (key_deps k p) mo mc"
      by (auto simp: Let_def)
    show ?thesis
      using assms(1,2) mc mo False
      by (auto simp: us task_for_def determineCacheAction_def Let_def result_changed_def contributes_def tracked_def
          assms(3) split: option.splits if_splits)
  qed
qed


section \<open>No stale query cache\<close>

context reliable_cache begin

lemma invalidation_outcome:
  assumes "index_repr fmt_v idx H" and "registered H (TableName (minfo cls)) k (\<lambda>q. q = p)" and "latest H k = Some p"
    and "tracked cls k p pr model originalModel isCreate isDelete"
    and "result_changed cls k p pr model originalModel isCreate isDelete"
    and "GetID model \<noteq> 0"
    and "invalidateAffectedQueryCaches fmt_v (Some client) cls idx model originalModel isCreate isDelete c = (Inr (), c')"
  shows "view c' k = None \<or> is_list_key k \<and> (\<forall>ids. view c' k \<noteq> Some (CIDs ids)) \<or>
    is_list_key k \<and> \<not> isDelete \<and> contributes cls p pr model \<and> (\<exists>ids. view c k = Some (CIDs ids) \<and> GetID model \<in> set ids)"
proof -
  let ?info = "minfo cls" and ?changed = "changedModelColumns (minfo cls) model originalModel"
  let ?cand = "cacheCandidateColumns (collect_values ?info model) ?changed isCreate isDelete
                 (\<not> KeepItem cls model \<or> keepItemFieldChanged (KeepItemFields cls model) ?changed)"
  let ?inv = "GetInvalidationContext fmt_v idx (TableName ?info) (collect_values ?info model) ?cand"
  let ?tasks_of = "key_tasks cls model originalModel isCreate isDelete ?changed ?inv"
  obtain r c1 where r: "gather_tasks client ?tasks_of (CacheKeys ?inv) c = (r, c1)" by fastforce
  with assms(6,7) obtain tasks where g: "gather_tasks client ?tasks_of (CacheKeys ?inv) c = (Inr tasks, c1)"
    and c': "c' = delete_keys client (gm_keys (writes_needed (fst (read_lists client tasks [] c1)) (GetID model) tasks))
                   (snd (read_lists client tasks [] c1))"
    by (cases r) (simp_all add: invalidateAffectedQueryCaches_def Let_def split_beta del: disj_not1)
  have sel: "selected fmt_v (collect_values ?info model) ?cand k p"
    by (rule change_selected[OF assms(4,5) refl refl])
  then have k: "k \<in> set (CacheKeys ?inv)"
    using assms(2) unfolding invalidation_keys[OF assms(1)] registered_def by blast
  show ?thesis
  proof (cases "?tasks_of k")
    case (Inl e)
    show ?thesis using phases_error[OF g k Inl] c' by simp
  next
    case (Inr us)
    obtain t where t: "us = [t]" "needsAdd t \<or> needsRemove t" "taskIsList t = is_list_key k" "taskIsCount t = is_count_key k"
      "needsAdd t \<longrightarrow> \<not> isDelete \<and> contributes cls p pr model"
      using change_tasks[OF assms(4,5) refl assms(1) k assms(3) Inr] by blast
    have lc: "taskIsList t \<or> taskIsCount t" using assms(4) t(3,4) by (simp add: tracked_def)
    have keys: "\<forall>j us. ?tasks_of j = Inr us \<longrightarrow> (\<forall>u \<in> set us. taskKey u = j)"
      by (intro allI impI ballI) (rule key_tasks_key)
    show ?thesis using phases_outcome[OF g k Inr[unfolded t(1)] keys t(2) lc c'] t(3,5) by blast
  qed
qed

end



text \<open>An example: renaming a user when the users of that name are cached.\<close>

definition user_info :: ModelInfo where
  "user_info = \<lparr>TableName = ''users'', PkName = ''id'', Columns = [''id'', ''name'', ''deleted''],
     FieldNames = [''ID'', ''Name'', ''Deleted''],
     FieldToColumnMap = [(''ID'', ''id''), (''Name'', ''name''), (''Deleted'', ''deleted'')],
     ColumnToFieldMap = [(''id'', ''ID''), (''name'', ''Name''), (''deleted'', ''Deleted'')],
     CompareFields = [\<lparr>GoName = ''ID'', DBColumn = ''id'', IgnoreInDiff = False\<rparr>,
                      \<lparr>GoName = ''Name'', DBColumn = ''name'', IgnoreInDiff = False\<rparr>,
                      \<lparr>GoName = ''Deleted'', DBColumn = ''deleted'', IgnoreInDiff = False\<rparr>],
     HasCustomKeepItem = False\<rparr>"

definition user :: "int \<Rightarrow> string \<Rightarrow> bool \<Rightarrow> gomodel" where
  "user i n d = [(''ID'', VInt S64 i), (''Name'', VString n), (''Deleted'', VBool d)]"

definition by_name :: "string \<Rightarrow> QueryParams" where
  "by_name n = \<lparr>Where = ''name = ?'', Args = [VString n], Order = [], Preloads = [], IncludeDeleted = False\<rparr>"

definition by_name_predicate :: "string \<Rightarrow> queryPredicate" where
  "by_name_predicate n = \<lparr>root = Some (conditionPredicateNode ''name'' ''=''
     [\<lparr>argIndex = 0, ovalue = VNil, hasLiteral = False\<rparr>]), pargs = [VString n]\<rparr>"

definition cache_with_ids :: "string \<Rightarrow> int list \<Rightarrow> localCache" where
  "cache_with_ids k ids = snd (lcSetQueryIDs emptyLocalCache k ids 0)"

lemma user_info_ok: "info_ok user_info"
  by (auto simp: info_ok_def user_info_def compared_def split: if_splits)

lemma user_instance: "instance_of user_info (user i n d) \<and> canonical (user i n d)"
  by (auto simp: instance_of_def user_info_def compared_def user_def canonical_def split: if_splits)

lemma by_name_parse: "parseQueryPredicate (by_name ''ann'') = Inr (by_name_predicate ''ann'')"
  by code_simp

lemma rename_tracked:
  "tracked (base_class user_info) ''list:users:1'' (by_name ''ann'') (by_name_predicate ''ann'')
     (user 7 ''ann'' False) (Some (user 7 ''bob'' False)) False False"
proof -
  have "Fields (by_name_predicate ''ann'') = [''name'']" by code_simp
  moreover have "trim_space (Where (by_name ''ann'')) \<noteq> []" by code_simp
  moreover have "is_list_key ''list:users:1''" by code_simp
  ultimately show ?thesis using user_info_ok user_instance by_name_parse
    by (auto simp: tracked_def base_class_def base_KeepItem_def user_def) (simp add: user_info_def)
qed


text \<open>
  A row that was soft-deleted and comes back is not tracked: the columns of \<open>KeepItem\<close> default to
  none, so a list of the whole table keeps missing the row.
\<close>

definition all_users :: QueryParams where
  "all_users = \<lparr>Where = [], Args = [], Order = [], Preloads = [], IncludeDeleted = False\<rparr>"

lemma restored_row_missed:
  "lcview (snd (invalidateAffectedQueryCaches (\<lambda>_. []) (Some localClient) (base_class user_info)
      (run_index (\<lambda>_. []) [Register ''users'' ''list:users:2'' all_users])
      (user 7 ''bob'' False) (Some (user 7 ''bob'' True)) False False (cache_with_ids ''list:users:2'' [3]))) ''list:users:2''
   = Some (CIDs [3])"
  by code_simp

text \<open>A WHERE clause of blanks is analysed as empty, but is not registered as a query of the whole table.\<close>

lemma blank_where_missed:
  "GetInvalidationContext (\<lambda>_. []) (run_index (\<lambda>_. []) [Register ''users'' ''list:users:3'' (all_users\<lparr>Where := '' ''\<rparr>)])
     ''users'' (collect_values user_info (user 7 ''bob'' False)) [(''name'', True), (''id'', True)]
   = \<lparr>CacheKeys = [], KeyToParams = [], KeyToDeps = [], KeyToPredicate = []\<rparr>"
  by code_simp


section \<open>Dropping every query of a table, and the cleanup\<close>

context reliable_cache begin

lemma delete_all_view: "view (snd (delete_all client ks e c)) \<subseteq>\<^sub>m view c"
proof (induction ks arbitrary: e c)
  case (Cons k ks)
  show ?case using Cons map_le_trans[OF Cons delete_le[of c k]]
    by (auto split: prod.splits sum.splits)
qed simp

lemma delete_all_gone: "k \<in> set ks \<Longrightarrow> view (snd (delete_all client ks e c)) k = None"
proof (induction ks arbitrary: e c)
  case (Cons j ks)
  obtain r c1 where rc: "cDelete client c j = (r, c1)" by fastforce
  then have "view c1 j = None" using delete_gone[of c j] by simp
  then have "view (snd (delete_all client ks e' c1)) j = None" for e' by (rule view_le_None[OF delete_all_view])
  with Cons rc show ?case by (auto split: sum.splits)
qed simp

lemma delete_all_ok: "fst (delete_all client ks (Inr ()) c) = Inr ()"
proof (induction ks arbitrary: c)
  case (Cons k ks)
  then show ?case using delete_ok[of c k] by (auto split: prod.splits sum.splits)
qed simp

end

text \<open>
  \<open>InvalidateQueryCaches\<close> succeeds and leaves no entry of any list or count registered for the
  table, and does not touch the entries of other keys.
\<close>

theorem invalidate_table_clears:
  "(let (r, c') = InvalidateQueryCaches (Some localClient) cls idx c;
        keys = set (GetQueryKeysForTable idx (TableName (minfo cls)))
    in r = Inr () \<and> dom (lcview c') \<inter> keys = {} \<and> lcview c' |` (- keys) = lcview c |` (- keys))"
proof -
  have other: "lcview (snd (delete_all localClient ks e c)) |` (- set ks) = lcview c |` (- set ks)" for ks e
  proof (induction ks arbitrary: e c)
    case (Cons k ks)
    have "lcview (snd (delete_all localClient ks e' c')) j = lcview c' j" if "j \<notin> set ks" for j e' c'
      using Cons[of e' c'] that by (metis Compl_iff restrict_in)
    then show ?case
      by (auto simp: localClient_def restrict_map_def lcDelete_def intro!: ext split: prod.splits)
  qed simp
  show ?thesis
    using lcr.delete_all_ok lcr.delete_all_gone other by (auto simp: InvalidateQueryCaches_def split_beta)
qed

lemma lcview_cleanup: "(\<And>k. k \<in> set ks \<Longrightarrow> isExpired m k) \<Longrightarrow> lcview (foldl (\<lambda>m k. remove k m) m ks) = lcview m"
proof (induction ks rule: rev_induct)
  case (snoc k ks)
  have "lcview m k = None" using snoc.prems[of k] by (simp add: lcview_def)
  with snoc show ?case by (simp add: fun_upd_idem)
qed simp

lemma expired_keys_expired:
  assumes "distinct (map fst (expiryStore m))" and "k \<in> set (expired_keys m)"
  shows "isExpired m k"
proof -
  from assms(2) obtain t where "(k, t) \<in> set (expiryStore m)" "t < clock m" by (auto simp: expired_keys_def)
  with assms(1) have "gm_get (expiryStore m) k = Some t" by simp
  with \<open>t < clock m\<close> show ?thesis by (simp add: isExpired_def)
qed

lemma deregister_repr:
  "index_repr fmt_v idx H \<Longrightarrow> \<forall>t P. \<not> registered H t [] P \<Longrightarrow> index_repr fmt_v (DeregisterQuery idx k) (forget k H)"
proof (cases "k = []")
  case True
  assume "index_repr fmt_v idx H" "\<forall>t P. \<not> registered H t [] P"
  moreover from this(2) True have "forget k H = H"
    by (auto simp: forget_def registered_def intro!: filter_True)
  ultimately show ?thesis using True by (simp add: DeregisterQuery_ignored)
qed (simp add: index_repr_deregister)

lemma cleanup_repr:
  assumes "index_repr fmt_v idx H" and "\<forall>t P. \<not> registered H t [] P"
  shows "\<exists>H'. index_repr fmt_v (foldl (\<lambda>i k. if G k then DeregisterQuery i k else i) idx ks) H' \<and>
    (\<forall>t k P. registered H' t k P \<longleftrightarrow> registered H t k P \<and> (k \<in> set ks \<longrightarrow> \<not> G k))"
  using assms
proof (induction ks arbitrary: idx H)
  case (Cons j ks)
  show ?case
  proof (cases "G j")
    case False
    with Cons.IH[OF Cons.prems] show ?thesis by auto
  next
    case True
    have "\<forall>t P. \<not> registered (forget j H) t [] P" using Cons.prems(2) by simp
    from Cons.IH[OF deregister_repr[OF Cons.prems] this] True show ?thesis by auto
  qed
qed auto

text \<open>
  C30: the background cleanup loses nothing that is still cached. It removes no live entry, and the
  index forgets a key only when the cache no longer stores it: every other registration is found
  by the invalidation as before.
\<close>

theorem cleanup_keeps_live:
  assumes "distinct (map fst (expiryStore m))"
  shows "(let (m', idx') = cleanupExpiredKeys m (run_index fmt_v ops)
    in lcview m' = lcview m \<and>
       set (CacheKeys (GetInvalidationContext fmt_v idx' t fv cand)) =
         {k \<in> set (CacheKeys (GetInvalidationContext fmt_v (run_index fmt_v ops) t fv cand)). gm_get (store m') k \<noteq> None})"
proof -
  let ?idx = "run_index fmt_v ops" and ?m' = "foldl (\<lambda>m k. remove k m) m (expired_keys m)"
  have view: "lcview ?m' = lcview m" using lcview_cleanup expired_keys_expired[OF assms] by blast
  have "\<forall>t P. \<not> registered (history ops) t [] P" using history_nonempty by blast
  from cleanup_repr[OF run_index_repr[of fmt_v] this, where G = "\<lambda>k. gm_get (store ?m') k = None" and ks = "GetAllRegisteredKeys ?idx"]
  obtain H' where H': "index_repr fmt_v (snd (cleanupExpiredKeys m ?idx)) H'"
    "\<And>t k P. registered H' t k P \<longleftrightarrow> registered (history ops) t k P \<and>
       (k \<in> set (GetAllRegisteredKeys ?idx) \<longrightarrow> gm_get (store ?m') k \<noteq> None)"
    by (auto simp: cleanupExpiredKeys_def Let_def)
  have all: "registered (history ops) t k P \<Longrightarrow> k \<in> set (GetAllRegisteredKeys ?idx)" for t k P
    using registered_latest lookup_keys(6)[OF run_index_repr] by blast
  have "fst (cleanupExpiredKeys m ?idx) = ?m'" by (simp add: cleanupExpiredKeys_def Let_def)
  then show ?thesis
    using view all by (auto simp: split_beta invalidation_keys[OF H'(1)] invalidation_keys[OF run_index_repr] H'(2))
qed

theorem cleanup_keeps_live_witness:
  "(let (m', idx') = cleanupExpiredKeys (cache_with_ids ''list:users:1'' [3])
        (run_index (\<lambda>_. []) [Register ''users'' ''list:users:1'' (by_name ''ann'')])
    in lcview m' = lcview (cache_with_ids ''list:users:1'' [3]))"
proof -
  have "distinct (map fst (expiryStore (cache_with_ids ''list:users:1'' [3])))" by code_simp
  from cleanup_keeps_live[OF this] show ?thesis by (simp add: split_beta Let_def)
qed

end
