(* ===== verification/Key_Locker.thy ===== *)
theory Key_Locker
  imports Invalidation "HOL-Library.Word"
begin

unbundle bit_operations_syntax

text \<open>
  The key lock managers and the concurrent write phase of the invalidation.

  \<^verbatim>\<open>internal/cache/locker.go\<close> maps a key to one of 256 mutexes by its FNV-1a hash;
  \<^verbatim>\<open>cache.go\<close> has an older manager with one mutex per key. A mutex is a flag. \<open>Lock\<close> is a partial
  step: \<open>None\<close> while the mutex is taken, which is when the goroutine waits. \<open>Unlock\<close> of a free mutex
  is a fatal error in Go and the value \<open>Inl\<close> here.

  Phase 4 of \<open>invalidateAffectedQueryCaches\<close> locks a key, deletes it, unlocks it, and retries a
  failed delete outside the lock. Several goroutines run that loop at once; their interleavings
  are the step relation \<open>writer_step\<close>. The locale \<open>key_locks\<close> is what the loop needs of a manager.
\<close>

section \<open>The sharded manager\<close>

definition lockShardCount :: nat where
  "lockShardCount = 256"

definition fnv1a32 :: "string \<Rightarrow> 32 word" where
  "fnv1a32 s = foldl (\<lambda>h c. (h XOR of_nat (of_char c)) * 16777619) 2166136261 s"

record CacheKeyLockManager =
  shards :: "bool list"

definition NewCacheKeyLockManagerInternal :: CacheKeyLockManager where
  "NewCacheKeyLockManagerInternal = \<lparr>shards = replicate lockShardCount False\<rparr>"

definition shard :: "string \<Rightarrow> nat" where
  "shard key = unat (fnv1a32 key mod of_nat lockShardCount)"

definition Lock :: "CacheKeyLockManager \<Rightarrow> string \<Rightarrow> CacheKeyLockManager option" where
  "Lock m key =
     (if key = [] then Some m
      else if shards m ! shard key then None
      else Some (m\<lparr>shards := (shards m)[shard key := True]\<rparr>))"

definition Unlock :: "CacheKeyLockManager \<Rightarrow> string \<Rightarrow> CacheKeyLockManager go_result" where
  "Unlock m key =
     (if key = [] then Inr m
      else if shards m ! shard key then Inr (m\<lparr>shards := (shards m)[shard key := False]\<rparr>)
      else Inl (Panic ''sync: unlock of unlocked mutex''))"

section \<open>The manager with one mutex per key\<close>

record KeyMutexMap =
  locks :: "(string, bool) gomap"

definition NewKeyMutexMap :: KeyMutexMap where
  "NewKeyMutexMap = \<lparr>locks = []\<rparr>"

definition load_or_store :: "string \<Rightarrow> bool \<Rightarrow> (string, bool) gomap \<Rightarrow> bool \<times> (string, bool) gomap" where
  "load_or_store k v m = (case gm_get m k of Some w \<Rightarrow> (w, m) | None \<Rightarrow> (v, gm_set k v m))"

definition map_Lock :: "KeyMutexMap \<Rightarrow> string \<Rightarrow> KeyMutexMap option" where
  "map_Lock m key =
     (if key = [] then Some m
      else let (taken, l) = load_or_store key False (locks m)
           in if taken then None else Some (m\<lparr>locks := gm_set key True l\<rparr>))"

definition map_Unlock :: "KeyMutexMap \<Rightarrow> string \<Rightarrow> KeyMutexMap go_result" where
  "map_Unlock m key =
     (if key = [] then Inr m
      else case gm_get (locks m) key of
        None \<Rightarrow> Inr m
      | Some taken \<Rightarrow>
          if taken then Inr (m\<lparr>locks := gm_set key False (locks m)\<rparr>)
          else Inl (Panic ''sync: unlock of unlocked mutex''))"

section \<open>Concurrent writers\<close>

text \<open>
  A writer between two steps: about to lock the first of its keys, inside the section of a key,
  after the delete with its outcome, about to retry outside the lock, or crashed in \<open>Unlock\<close>.
\<close>

datatype writer =
    Ready "string list"
  | Locked string "string list"
  | Deleted string bool "string list"
  | Retry string "string list"
  | Crashed

record ('m, 'c) write_system =
  manager :: 'm
  cache :: 'c
  writers :: "writer list"

definition delete_failed :: "unit go_result \<Rightarrow> bool" where
  "delete_failed r = (case r of Inr _ \<Rightarrow> False | Inl e \<Rightarrow> \<not> errors_is e ErrNotFound)"

inductive writer_step ::
  "('m \<Rightarrow> string \<Rightarrow> 'm option) \<Rightarrow> ('m \<Rightarrow> string \<Rightarrow> 'm go_result) \<Rightarrow> 'c cache_client \<Rightarrow>
   ('m, 'c) write_system \<Rightarrow> ('m, 'c) write_system \<Rightarrow> bool"
  for lock :: "'m \<Rightarrow> string \<Rightarrow> 'm option" and unlock :: "'m \<Rightarrow> string \<Rightarrow> 'm go_result" and client :: "'c cache_client" where
  acquire: "i < length (writers s) \<Longrightarrow> writers s ! i = Ready (k # ks) \<Longrightarrow> lock (manager s) k = Some m \<Longrightarrow>
    writer_step lock unlock client s (s\<lparr>manager := m, writers := (writers s)[i := Locked k ks]\<rparr>)"
| delete: "i < length (writers s) \<Longrightarrow> writers s ! i = Locked k ks \<Longrightarrow>
    writer_step lock unlock client s
      (s\<lparr>cache := snd (cDelete client (cache s) k),
         writers := (writers s)[i := Deleted k (delete_failed (fst (cDelete client (cache s) k))) ks]\<rparr>)"
| release: "i < length (writers s) \<Longrightarrow> writers s ! i = Deleted k failed ks \<Longrightarrow> unlock (manager s) k = Inr m \<Longrightarrow>
    writer_step lock unlock client s
      (s\<lparr>manager := m, writers := (writers s)[i := if failed then Retry k ks else Ready ks]\<rparr>)"
| crash: "i < length (writers s) \<Longrightarrow> writers s ! i = Deleted k failed ks \<Longrightarrow> unlock (manager s) k = Inl e \<Longrightarrow>
    writer_step lock unlock client s (s\<lparr>writers := (writers s)[i := Crashed]\<rparr>)"
| retry: "i < length (writers s) \<Longrightarrow> writers s ! i = Retry k ks \<Longrightarrow>
    writer_step lock unlock client s
      (s\<lparr>cache := snd (cDelete client (cache s) k), writers := (writers s)[i := Ready ks]\<rparr>)"

definition start :: "'m \<Rightarrow> 'c \<Rightarrow> string list list \<Rightarrow> ('m, 'c) write_system" where
  "start m c kss = \<lparr>manager = m, cache = c, writers = map Ready kss\<rparr>"

fun section_key :: "writer \<Rightarrow> string option" where
  "section_key (Locked k _) = Some k"
| "section_key (Deleted k _ _) = Some k"
| "section_key _ = None"

fun pending_keys :: "writer \<Rightarrow> string list" where
  "pending_keys (Ready ks) = ks"
| "pending_keys (Locked k ks) = k # ks"
| "pending_keys (Deleted k failed ks) = ks"
| "pending_keys (Retry k ks) = ks"
| "pending_keys Crashed = []"

fun work_left :: "writer \<Rightarrow> nat" where
  "work_left (Ready ks) = 4 * length ks"
| "work_left (Locked k ks) = 3 + 4 * length ks"
| "work_left (Deleted k failed ks) = 2 + 4 * length ks"
| "work_left (Retry k ks) = 1 + 4 * length ks"
| "work_left Crashed = 0"

definition total_work :: "('m, 'c) write_system \<Rightarrow> nat" where
  "total_work s = sum_list (map work_left (writers s))"

definition finished :: "('m, 'c) write_system \<Rightarrow> bool" where
  "finished s = list_all (\<lambda>w. w = Ready []) (writers s)"

text \<open>Every step uses up work, so \<open>4 * n\<close> steps are the most that writers with \<open>n\<close> keys can take.\<close>

lemma sum_list_update_less:
  "i < length xs \<Longrightarrow> f y < f (xs ! i) \<Longrightarrow> sum_list (map f (xs[i := y])) < sum_list (map (f :: 'a \<Rightarrow> nat) xs)"
proof (induction xs arbitrary: i)
  case (Cons x xs)
  then show ?case by (cases i) auto
qed simp

lemma step_uses_work: "writer_step lock unlock client s s' \<Longrightarrow> total_work s' < total_work s"
  by (induction rule: writer_step.induct) (auto simp: total_work_def intro!: sum_list_update_less)

section \<open>The contract of a lock manager\<close>

locale key_locks =
  fixes lock :: "'m \<Rightarrow> string \<Rightarrow> 'm option"
    and unlock :: "'m \<Rightarrow> string \<Rightarrow> 'm go_result"
    and wf :: "'m \<Rightarrow> bool"
    and cell :: "string \<Rightarrow> 'l"
    and busy :: "'m \<Rightarrow> 'l set"
  assumes no_key: "lock m [] = Some m" "unlock m [] = Inr m"
    and lock_free: "wf m \<Longrightarrow> k \<noteq> [] \<Longrightarrow> cell k \<notin> busy m \<Longrightarrow> lock m k \<noteq> None"
    and lock_takes: "wf m \<Longrightarrow> k \<noteq> [] \<Longrightarrow> lock m k = Some m' \<Longrightarrow>
      wf m' \<and> cell k \<notin> busy m \<and> busy m' = insert (cell k) (busy m)"
    and unlock_frees: "wf m \<Longrightarrow> k \<noteq> [] \<Longrightarrow> cell k \<in> busy m \<Longrightarrow>
      \<exists>m'. unlock m k = Inr m' \<and> wf m' \<and> busy m' = busy m - {cell k}"
begin

text \<open>
  The invariant: the taken cells are those of the keys whose section a writer is in, and no two
  writers share one.
\<close>

definition held :: "writer \<Rightarrow> 'l set" where
  "held w = (case section_key w of Some k \<Rightarrow> if k = [] then {} else {cell k} | None \<Rightarrow> {})"

definition sections_ok :: "('m, 'c) write_system \<Rightarrow> bool" where
  "sections_ok s \<longleftrightarrow> wf (manager s) \<and> busy (manager s) = (\<Union>j < length (writers s). held (writers s ! j)) \<and>
     (\<forall>i < length (writers s). \<forall>j < length (writers s). i \<noteq> j \<longrightarrow>
        held (writers s ! i) \<inter> held (writers s ! j) = {}) \<and>
     Crashed \<notin> set (writers s)"

lemma held_simps [simp]:
  "held (Ready ks) = {}" "held (Retry k ks) = {}"
  "held (Locked k ks) = (if k = [] then {} else {cell k})"
  "held (Deleted k failed ks) = (if k = [] then {} else {cell k})"
  by (auto simp: held_def)

text \<open>Replacing one writer keeps the invariant when the manager follows.\<close>

lemma sections_update:
  assumes ok: "sections_ok s" and i: "i < length (writers s)" and x: "x \<noteq> Crashed" and m: "wf m"
    and busy: "busy m = (busy (manager s) - held (writers s ! i)) \<union> held x"
    and apart: "held x \<inter> (busy (manager s) - held (writers s ! i)) = {}"
  shows "sections_ok (s\<lparr>manager := m, cache := c, writers := (writers s)[i := x]\<rparr>)"
proof -
  let ?ws = "writers s"
  let ?others = "\<Union>j \<in> {..<length ?ws} - {i}. held (?ws ! j)"
  have split: "{..<length ?ws} = insert i ({..<length ?ws} - {i})" using i by auto
  have disj: "held (?ws ! j) \<inter> held (?ws ! j') = {}" if "j < length ?ws" "j' < length ?ws" "j \<noteq> j'" for j j'
    using ok that by (auto simp: sections_ok_def)
  have "busy (manager s) = (\<Union>j < length ?ws. held (?ws ! j))" using ok by (simp add: sections_ok_def)
  also have "\<dots> = held (?ws ! i) \<union> ?others" by (subst split) auto
  finally have "busy (manager s) = held (?ws ! i) \<union> ?others" .
  moreover have "held (?ws ! i) \<inter> ?others = {}" using disj[OF i] by blast
  ultimately have rest: "busy (manager s) - held (?ws ! i) = ?others" by blast
  have "(\<Union>j < length ?ws. held (?ws[i := x] ! j)) = held x \<union> ?others"
    using i by (auto simp: nth_list_update split: if_splits)
  moreover have "held (?ws[i := x] ! j) \<inter> held (?ws[i := x] ! j') = {}"
    if "j < length ?ws" "j' < length ?ws" "j \<noteq> j'" for j j'
    using apart that disj[OF that] unfolding rest by (cases "j = i"; cases "j' = i") auto
  moreover have "Crashed \<notin> set (?ws[i := x])"
    using ok x set_update_subset_insert[of ?ws i x] by (auto simp: sections_ok_def)
  ultimately show ?thesis using m busy unfolding rest by (auto simp: sections_ok_def)
qed

lemma held_busy: "sections_ok s \<Longrightarrow> i < length (writers s) \<Longrightarrow> held (writers s ! i) \<subseteq> busy (manager s)"
  by (auto simp: sections_ok_def)

lemma unlock_section:
  assumes "sections_ok s" and "i < length (writers s)" and "writers s ! i = Deleted k failed ks"
  shows "\<exists>m. unlock (manager s) k = Inr m \<and> wf m \<and> busy m = busy (manager s) - held (writers s ! i)"
proof (cases "k = []")
  case True
  with assms show ?thesis by (simp add: no_key sections_ok_def)
next
  case False
  then have "cell k \<in> busy (manager s)" using held_busy[OF assms(1,2)] assms(3) by simp
  with False show ?thesis using unlock_frees[of "manager s" k] assms by (auto simp: sections_ok_def)
qed

lemma lock_section:
  assumes "sections_ok s" and "lock (manager s) k = Some m"
  shows "wf m \<and> busy m = busy (manager s) \<union> held (Locked k ks) \<and> held (Locked k ks) \<inter> busy (manager s) = {}"
proof (cases "k = []")
  case True
  with assms show ?thesis by (simp add: no_key sections_ok_def)
next
  case False
  with lock_takes[of "manager s" k m] assms show ?thesis by (simp add: sections_ok_def)
qed

lemma sections_step:
  assumes "writer_step lock unlock client s s'" and "sections_ok s"
  shows "sections_ok s'"
  using assms
proof (induction rule: writer_step.induct)
  case (acquire i s k ks m)
  then show ?case
    using lock_section[of s k m ks] sections_update[of s i "Locked k ks" m "cache s"] by auto
next
  case (delete i s k ks)
  have "busy (manager s) = busy (manager s) - held (Locked k ks) \<union> held (Locked k ks)"
    using held_busy[of s i] delete by auto
  with delete show ?case
    using sections_update[of s i "Deleted k (delete_failed (fst (cDelete client (cache s) k))) ks" "manager s"]
    by (auto simp: sections_ok_def)
next
  case (release i s k failed ks m)
  then obtain m' where "unlock (manager s) k = Inr m'" "wf m'" "busy m' = busy (manager s) - held (writers s ! i)"
    using unlock_section by blast
  with release show ?case
    using sections_update[of s i "if failed then Retry k ks else Ready ks" m "cache s"] by auto
next
  case (crash i s k failed ks e)
  then show ?case using unlock_section[of s i k failed ks] by auto
next
  case (retry i s k ks)
  then show ?case
    using sections_update[of s i "Ready ks" "manager s"] by (auto simp: sections_ok_def)
qed

lemma sections_reachable:
  "(writer_step lock unlock client)\<^sup>*\<^sup>* s s' \<Longrightarrow> sections_ok s \<Longrightarrow> sections_ok s'"
  by (induction rule: rtranclp_induct) (auto intro: sections_step)

lemma sections_start: "wf m \<Longrightarrow> busy m = {} \<Longrightarrow> sections_ok (start m c kss)"
  by (auto simp: sections_ok_def start_def)

text \<open>No deadlock: while a writer has work left, some writer can move.\<close>

lemma progress:
  assumes ok: "sections_ok s" and "\<not> finished s"
  shows "\<exists>s'. writer_step lock unlock client s s'"
proof -
  obtain i where i: "i < length (writers s)" and w: "writers s ! i \<noteq> Ready []"
    using assms(2) by (auto simp: finished_def list_all_length)
  have moves: "\<exists>s'. writer_step lock unlock client s s'"
    if j: "j < length (writers s)" and sec: "section_key (writers s ! j) \<noteq> None \<or> (\<exists>k ks. writers s ! j = Retry k ks)" for j
  proof (cases "writers s ! j")
    case (Deleted k failed ks)
    then obtain m where "unlock (manager s) k = Inr m"
      using unlock_section[of s j k failed ks] ok j by auto
    with j Deleted show ?thesis by (blast intro: writer_step.release)
  qed (use j sec in \<open>auto intro: writer_step.intros\<close>)
  show ?thesis
  proof (cases "writers s ! i")
    case (Ready ks)
    with w obtain k ks' where ks: "ks = k # ks'" by (cases ks) auto
    show ?thesis
    proof (cases "lock (manager s) k")
      case None
      then have k: "k \<noteq> []" using no_key by auto
      then have "cell k \<in> busy (manager s)" using None lock_free[of "manager s" k] ok by (auto simp: sections_ok_def)
      then obtain j where "j < length (writers s)" "cell k \<in> held (writers s ! j)" using ok by (auto simp: sections_ok_def)
      then show ?thesis using moves[of j] by (auto simp: held_def split: option.splits)
    next
      case (Some m)
      with i Ready ks show ?thesis by (blast intro: writer_step.acquire)
    qed
  next
    case Crashed
    with i ok show ?thesis by (auto simp: sections_ok_def) (metis nth_mem)
  qed (use moves[OF i] in auto)
qed

text \<open>Every schedule can be run to its end.\<close>

lemma runs_to_end:
  "sections_ok s \<Longrightarrow> \<exists>s'. (writer_step lock unlock client)\<^sup>*\<^sup>* s s' \<and> finished s'"
proof (induction "total_work s" arbitrary: s rule: less_induct)
  case less
  show ?case
  proof (cases "finished s")
    case False
    then obtain s1 where s1: "writer_step lock unlock client s s1" using progress[OF less.prems] by blast
    with less.hyps[OF step_uses_work[OF s1]] sections_step[OF s1 less.prems] obtain s2 where
      "(writer_step lock unlock client)\<^sup>*\<^sup>* s1 s2" "finished s2" by blast
    with s1 show ?thesis by (meson converse_rtranclp_into_rtranclp)
  qed blast
qed

lemma exclusive:
  assumes "sections_ok s" and "i < length (writers s)" and "j < length (writers s)" and "i \<noteq> j"
    and "section_key (writers s ! i) = Some k" and "section_key (writers s ! j) = Some k'" and "k \<noteq> []" and "k' \<noteq> []"
  shows "cell k \<noteq> cell k'"
proof -
  have "held (writers s ! i) \<inter> held (writers s ! j) = {}" using assms(1-4) by (simp add: sections_ok_def)
  then show ?thesis using assms(5-8) by (auto simp: held_def)
qed

end


section \<open>Both managers keep the contract\<close>

lemma shard_less: "shard k < lockShardCount"
proof -
  have "fnv1a32 k mod of_nat lockShardCount < of_nat lockShardCount"
    by (rule word_mod_less_divisor) (simp add: lockShardCount_def)
  then have "unat (fnv1a32 k mod of_nat lockShardCount) < unat (of_nat lockShardCount :: 32 word)"
    by (rule unat_mono)
  then show ?thesis by (simp add: shard_def lockShardCount_def)
qed

definition taken_shards :: "CacheKeyLockManager \<Rightarrow> nat set" where
  "taken_shards m = {i. i < length (shards m) \<and> shards m ! i}"

definition manager_ok :: "CacheKeyLockManager \<Rightarrow> bool" where
  "manager_ok m = (length (shards m) = lockShardCount)"

interpretation sharded: key_locks Lock Unlock manager_ok shard taken_shards
proof
  fix m m' k
  assume ok: "manager_ok m"
  then have k: "shard k < length (shards m)" using shard_less by (simp add: manager_ok_def)
  show "k \<noteq> [] \<Longrightarrow> shard k \<notin> taken_shards m \<Longrightarrow> Lock m k \<noteq> None"
    using k by (auto simp: Lock_def taken_shards_def)
  show "k \<noteq> [] \<Longrightarrow> Lock m k = Some m' \<Longrightarrow>
      manager_ok m' \<and> shard k \<notin> taken_shards m \<and> taken_shards m' = insert (shard k) (taken_shards m)"
    using k ok by (auto simp: Lock_def taken_shards_def manager_ok_def nth_list_update split: if_splits)
  show "k \<noteq> [] \<Longrightarrow> shard k \<in> taken_shards m \<Longrightarrow>
      \<exists>m'. Unlock m k = Inr m' \<and> manager_ok m' \<and> taken_shards m' = taken_shards m - {shard k}"
    using k ok by (auto simp: Unlock_def taken_shards_def manager_ok_def nth_list_update split: if_splits)
qed (simp_all add: Lock_def Unlock_def)

definition taken_keys :: "KeyMutexMap \<Rightarrow> string set" where
  "taken_keys m = {k. gm_get (locks m) k = Some True}"

interpretation keyed: key_locks map_Lock map_Unlock "\<lambda>_. True" "\<lambda>k. k" taken_keys
  by unfold_locales
    (auto simp: map_Lock_def map_Unlock_def taken_keys_def load_or_store_def split: option.splits if_splits)

section \<open>What the writers do to the cache\<close>

context reliable_cache
begin

definition covered :: "string set \<Rightarrow> ('m, 'c) write_system \<Rightarrow> bool" where
  "covered K s \<longleftrightarrow> (\<forall>k \<in> K. view (cache s) k = None \<or> (\<exists>j < length (writers s). k \<in> set (pending_keys (writers s ! j))))"

lemma covered_update:
  assumes "covered K s" and "i < length (writers s)" and "view c \<subseteq>\<^sub>m view (cache s)"
    and "\<forall>k \<in> set (pending_keys (writers s ! i)) - set (pending_keys x). view c k = None"
  shows "covered K (s\<lparr>manager := m, cache := c, writers := (writers s)[i := x]\<rparr>)"
  unfolding covered_def
proof
  fix k
  assume "k \<in> K"
  then consider "view (cache s) k = None" | j where "j < length (writers s)" "k \<in> set (pending_keys (writers s ! j))"
    using assms(1) by (auto simp: covered_def)
  then show "view (cache (s\<lparr>manager := m, cache := c, writers := (writers s)[i := x]\<rparr>)) k = None \<or>
    (\<exists>j < length (writers (s\<lparr>manager := m, cache := c, writers := (writers s)[i := x]\<rparr>)).
       k \<in> set (pending_keys (writers (s\<lparr>manager := m, cache := c, writers := (writers s)[i := x]\<rparr>) ! j)))"
  proof cases
    case 1
    then show ?thesis using view_le_None[OF assms(3)] by simp
  next
    case 2
    then show ?thesis using assms(2,4) by (cases "j = i"; cases "k \<in> set (pending_keys x)") auto
  qed
qed

lemma covered_step:
  assumes "writer_step lock unlock client s s'" and "covered K s" and "Crashed \<notin> set (writers s')"
  shows "covered K s'"
  using assms
proof (induction rule: writer_step.induct)
  case (acquire i s k ks m)
  then show ?case using covered_update[of K s i "cache s" "Locked k ks" m] by simp
next
  case (delete i s k ks)
  have "\<forall>j \<in> insert k (set ks) - set ks. view (snd (cDelete client (cache s) k)) j = None"
    using delete_gone by auto
  with delete show ?case
    using covered_update[of K s i "snd (cDelete client (cache s) k)"
        "Deleted k (delete_failed (fst (cDelete client (cache s) k))) ks" "manager s"] delete_le by simp
next
  case (release i s k failed ks m)
  then show ?case using covered_update[of K s i "cache s" "if failed then Retry k ks else Ready ks" m] by simp
next
  case (crash i s k failed ks e)
  then show ?case by (simp add: set_update_memI)
next
  case (retry i s k ks)
  then show ?case
    using covered_update[of K s i "snd (cDelete client (cache s) k)" "Ready ks" "manager s"] delete_le by simp
qed

lemma step_view: "writer_step lock unlock client s s' \<Longrightarrow> view (cache s') \<subseteq>\<^sub>m view (cache s)"
  by (induction rule: writer_step.induct) (auto intro: delete_le)

lemma run_view: "(writer_step lock unlock client)\<^sup>*\<^sup>* s s' \<Longrightarrow> view (cache s') \<subseteq>\<^sub>m view (cache s)"
  by (induction rule: rtranclp_induct) (auto dest: step_view intro: map_le_trans)

lemma finished_gone: "covered K s \<Longrightarrow> finished s \<Longrightarrow> k \<in> K \<Longrightarrow> view (cache s) k = None"
  by (auto simp: covered_def finished_def list_all_length)

lemma covered_start: "covered (\<Union>ks \<in> set kss. set ks) (start m c kss)"
  by (auto simp: covered_def start_def in_set_conv_nth) (metis nth_map nth_mem pending_keys.simps(1))

end

lemma sections_new: "sharded.sections_ok (start NewCacheKeyLockManagerInternal c kss)"
proof -
  have "taken_shards NewCacheKeyLockManagerInternal = {}" "manager_ok NewCacheKeyLockManagerInternal"
    by (auto simp: taken_shards_def manager_ok_def NewCacheKeyLockManagerInternal_def)
  then show ?thesis by (simp add: sharded.sections_start)
qed

text \<open>A run that never crashes, as in \<open>sections_reachable\<close>, keeps every key pending or deleted.\<close>

lemma local_run_covered:
  assumes "(writer_step Lock Unlock localClient)\<^sup>*\<^sup>* (start NewCacheKeyLockManagerInternal c kss) s"
  shows "sharded.sections_ok s \<and> lcr.covered (\<Union>ks \<in> set kss. set ks) s"
  using assms
proof (induction rule: rtranclp_induct)
  case base
  show ?case by (simp add: sections_new lcr.covered_start)
next
  case (step s s')
  then have "sharded.sections_ok s'" using sharded.sections_step by blast
  then show ?case using step lcr.covered_step by (auto simp: sharded.sections_ok_def)
qed

lemma steps_bounded: "(writer_step lock unlock client ^^ n) s s' \<Longrightarrow> n + total_work s' \<le> total_work s"
proof (induction n arbitrary: s')
  case (Suc n)
  then obtain s1 where "(writer_step lock unlock client ^^ n) s s1" "writer_step lock unlock client s1 s'" by auto
  with Suc.IH step_uses_work show ?case by fastforce
qed simp

lemma total_work_start: "total_work (start m c kss) = 4 * length (concat kss)"
  by (induction kss) (simp_all add: total_work_def start_def)

section \<open>Properties\<close>

text \<open>
  C18: mutual exclusion of the key locks. Whatever the interleaving of any number of invalidating
  goroutines, two of them are never at once in the section of keys of one shard, so never in that
  of one key, and no \<open>Unlock\<close> hits a free mutex.
\<close>

theorem writers_exclusive:
  assumes "(writer_step Lock Unlock localClient)\<^sup>*\<^sup>* (start NewCacheKeyLockManagerInternal c kss) s"
    and "i < length (writers s)" and "j < length (writers s)" and "i \<noteq> j"
    and "section_key (writers s ! i) = Some k" and "section_key (writers s ! j) = Some k'"
    and "k \<noteq> []" and "k' \<noteq> []"
  shows "shard k \<noteq> shard k' \<and> k \<noteq> k' \<and> Crashed \<notin> set (writers s)"
proof -
  have ok: "sharded.sections_ok s" using local_run_covered[OF assms(1)] ..
  then have "shard k \<noteq> shard k'" using sharded.exclusive assms(2-8) by blast
  with ok show ?thesis by (auto simp: sharded.sections_ok_def)
qed

text \<open>
  C17: the concurrent invalidation always finishes. From every reachable state the writers can go on
  until all are done, they never take more than four steps per key, and when they are done none
  of their keys is in the cache and no other entry has appeared.
\<close>

theorem writers_finish:
  assumes "(writer_step Lock Unlock localClient ^^ n) (start NewCacheKeyLockManagerInternal c kss) s"
  shows "n \<le> 4 * length (concat kss) \<and>
    (\<exists>s'. (writer_step Lock Unlock localClient)\<^sup>*\<^sup>* s s' \<and> finished s') \<and>
    (\<not> finished s \<or> (lcview (cache s) \<subseteq>\<^sub>m lcview c \<and> list_all (\<lambda>k. lcview (cache s) k = None) (concat kss)))"
proof -
  have run: "(writer_step Lock Unlock localClient)\<^sup>*\<^sup>* (start NewCacheKeyLockManagerInternal c kss) s"
    using assms by (rule relpowp_imp_rtranclp)
  have ok: "sharded.sections_ok s" and cov: "lcr.covered (\<Union>ks \<in> set kss. set ks) s"
    using local_run_covered[OF run] by auto
  have "n \<le> 4 * length (concat kss)" using steps_bounded[OF assms] by (simp add: total_work_start)
  moreover have "\<exists>s'. (writer_step Lock Unlock localClient)\<^sup>*\<^sup>* s s' \<and> finished s'"
    using sharded.runs_to_end[OF ok] .
  moreover have "lcview (cache s) \<subseteq>\<^sub>m lcview c" using lcr.run_view[OF run] by (simp add: start_def)
  moreover have "list_all (\<lambda>k. lcview (cache s) k = None) (concat kss)" if "finished s"
    using lcr.finished_gone[OF cov that] by (auto simp: list_all_iff)
  ultimately show ?thesis by blast
qed

text \<open>The cache a lone writer ends with, from the middle of its loop.\<close>

fun rest_of_writer :: "'c cache_client \<Rightarrow> writer \<Rightarrow> 'c \<Rightarrow> 'c" where
  "rest_of_writer client (Ready ks) c = delete_keys client ks c"
| "rest_of_writer client (Locked k ks) c = delete_keys client ks (delete_key client k c)"
| "rest_of_writer client (Deleted k failed ks) c =
     delete_keys client ks (if failed then snd (cDelete client c k) else c)"
| "rest_of_writer client (Retry k ks) c = delete_keys client ks (snd (cDelete client c k))"
| "rest_of_writer client Crashed c = c"

lemma delete_key_alt:
  "delete_key client k c =
     (let rc = cDelete client c k in if delete_failed (fst rc) then snd (cDelete client (snd rc) k) else snd rc)"
  by (auto simp: delete_key_def delete_failed_def Let_def split: sum.splits)

lemma lone_step:
  assumes "writer_step Lock Unlock client s s'" and "length (writers s) = 1" and "sharded.sections_ok s"
  shows "length (writers s') = 1 \<and> rest_of_writer client (writers s' ! 0) (cache s') = rest_of_writer client (writers s ! 0) (cache s)"
  using assms
proof (induction rule: writer_step.induct)
  case (acquire i s k ks m)
  then have "i = 0" by simp
  with acquire show ?case by simp
next
  case (delete i s k ks)
  then have "i = 0" by simp
  with delete show ?case by (simp add: delete_key_alt Let_def)
next
  case (release i s k failed ks m)
  then have "i = 0" by simp
  with release show ?case by simp
next
  case (crash i s k failed ks e)
  then show ?case using sharded.unlock_section[of s i k failed ks] by auto
next
  case (retry i s k ks)
  then have "i = 0" by simp
  with retry show ?case by simp
qed

text \<open>
  A lone invalidation is the sequential one. With no other writer, the steps of the loop under
  the locks leave exactly the cache that \<open>delete_keys\<close> computes, for any cache client.
\<close>

theorem lone_writer_sequential:
  assumes "(writer_step Lock Unlock client)\<^sup>*\<^sup>* (start NewCacheKeyLockManagerInternal c [ks]) s" and "finished s"
  shows "cache s = delete_keys client ks c"
proof -
  have "sharded.sections_ok s \<and> length (writers s) = 1 \<and> rest_of_writer client (writers s ! 0) (cache s) = delete_keys client ks c"
    using assms(1)
  proof (induction rule: rtranclp_induct)
    case base
    show ?case using sections_new[of c "[ks]"] by (simp add: start_def)
  next
    case (step s s')
    then show ?case using lone_step[OF step(2)] sharded.sections_step[OF step(2)] by auto
  qed
  moreover have "writers s ! 0 = Ready []" if "length (writers s) = 1"
    using assms(2) that by (auto simp: finished_def list_all_length)
  ultimately show ?thesis by auto
qed

section \<open>Examples of runs\<close>

definition example_cache :: localCache where
  "example_cache = snd (lcSetQueryIDs emptyLocalCache ''a'' [1] 0)"

abbreviation example_start :: "string list list \<Rightarrow> (CacheKeyLockManager, localCache) write_system" where
  "example_start kss \<equiv> start NewCacheKeyLockManagerInternal example_cache kss"

definition lock_shard :: "string \<Rightarrow> CacheKeyLockManager \<Rightarrow> CacheKeyLockManager" where
  "lock_shard k m = m\<lparr>shards := (shards m)[shard k := True]\<rparr>"

lemma Lock_new:
  "k \<noteq> [] \<Longrightarrow> Lock NewCacheKeyLockManagerInternal k = Some (lock_shard k NewCacheKeyLockManagerInternal)"
  using shard_less by (simp add: Lock_def NewCacheKeyLockManagerInternal_def lock_shard_def)

lemma Unlock_lock_shard:
  "k \<noteq> [] \<Longrightarrow> Unlock (lock_shard k NewCacheKeyLockManagerInternal) k = Inr NewCacheKeyLockManagerInternal"
  using shard_less[of k] by (simp add: Unlock_def NewCacheKeyLockManagerInternal_def lock_shard_def list_update_same_conv)

lemma Lock_second:
  "k \<noteq> [] \<Longrightarrow> shard k \<noteq> shard j \<Longrightarrow>
   Lock (lock_shard j NewCacheKeyLockManagerInternal) k = Some (lock_shard k (lock_shard j NewCacheKeyLockManagerInternal))"
  using shard_less[of k] by (simp add: Lock_def NewCacheKeyLockManagerInternal_def lock_shard_def)

definition two_locked :: "(CacheKeyLockManager, localCache) write_system" where
  "two_locked =
     \<lparr>manager = lock_shard ''b'' (lock_shard ''a'' NewCacheKeyLockManagerInternal), cache = example_cache,
      writers = [Locked ''a'' [], Locked ''b'' []]\<rparr>"

lemma shards_a_b: "shard ''b'' \<noteq> shard ''a''"
  by code_simp

lemma two_locked_reached:
  "(writer_step Lock Unlock localClient)\<^sup>*\<^sup>* (example_start [[''a''], [''b'']]) two_locked"
proof -
  let ?s1 = "\<lparr>manager = lock_shard ''a'' NewCacheKeyLockManagerInternal, cache = example_cache,
    writers = [Locked ''a'' [], Ready [''b'']]\<rparr>"
  have "writer_step Lock Unlock localClient (example_start [[''a''], [''b'']]) ?s1"
    using writer_step.acquire[of 0 "example_start [[''a''], [''b'']]" "''a''" "[]" Lock _ Unlock localClient]
    by (simp add: start_def Lock_new)
  moreover have "writer_step Lock Unlock localClient ?s1 two_locked"
    using writer_step.acquire[of 1 ?s1 "''b''" "[]" Lock _ Unlock localClient]
    by (simp add: Lock_second shards_a_b two_locked_def)
  ultimately show ?thesis by (meson converse_rtranclp_into_rtranclp rtranclp.rtrancl_refl)
qed

theorem writers_exclusive_witness: "shard ''a'' \<noteq> shard ''b'' \<and> Crashed \<notin> set (writers two_locked)"
  using writers_exclusive[OF two_locked_reached, of 0 1 "''a''" "''b''"] by (simp add: two_locked_def)

definition one_done :: "(CacheKeyLockManager, localCache) write_system" where
  "one_done =
     \<lparr>manager = NewCacheKeyLockManagerInternal, cache = snd (lcDelete example_cache ''a''), writers = [Ready []]\<rparr>"

lemma one_done_reached: "(writer_step Lock Unlock localClient ^^ 3) (example_start [[''a'']]) one_done"
proof -
  let ?m = "lock_shard ''a'' NewCacheKeyLockManagerInternal"
  let ?s1 = "\<lparr>manager = ?m, cache = example_cache, writers = [Locked ''a'' []]\<rparr>"
  let ?s2 = "\<lparr>manager = ?m, cache = snd (lcDelete example_cache ''a''), writers = [Deleted ''a'' False []]\<rparr>"
  have "writer_step Lock Unlock localClient (example_start [[''a'']]) ?s1"
    using writer_step.acquire[of 0 "example_start [[''a'']]" "''a''" "[]" Lock _ Unlock localClient]
    by (simp add: start_def Lock_new)
  moreover have "writer_step Lock Unlock localClient ?s1 ?s2"
    using writer_step.delete[of 0 ?s1 "''a''" "[]" Lock Unlock localClient]
    by (simp add: localClient_def lcDelete_def delete_failed_def)
  moreover have "writer_step Lock Unlock localClient ?s2 one_done"
    using writer_step.release[of 0 ?s2 "''a''" False "[]" Unlock _ Lock localClient]
    by (simp add: Unlock_lock_shard one_done_def)
  ultimately show ?thesis by (auto simp: numeral_3_eq_3)
qed

lemma example_cache_view: "lcview example_cache ''a'' = Some (CIDs [1])"
  by code_simp

theorem writers_finish_witness:
  "lcview example_cache ''a'' = Some (CIDs [1]) \<and> lcview (cache one_done) ''a'' = None"
  using writers_finish[OF one_done_reached]
  by (simp add: finished_def one_done_def example_cache_view)

theorem lone_writer_sequential_witness: "cache one_done = delete_keys localClient [''a''] example_cache"
  using lone_writer_sequential[OF relpowp_imp_rtranclp[OF one_done_reached]] by (simp add: finished_def one_done_def)

end
