(* ===== verification/Query_Keys.thy ===== *)
theory Query_Keys
  imports Query_Predicate "HOL-Library.Word"
begin

unbundle bit_operations_syntax

text \<open>
  Keys of cached queries: \<open>GenerateQueryHash\<close> and \<open>GenerateCacheKey\<close> of \<^verbatim>\<open>cache.go\<close>, and
  \<open>NormalizeValue\<close> of \<^verbatim>\<open>internal/utils/utils.go\<close>.

  The hash is FNV-1a with 64 bits of the JSON text of the parameters. \<open>encoding/json\<close> is modelled on
  the values of \<open>Go_Values\<close>; the text of floating point numbers and times is the function \<open>num\<close>.
  Strings are valid UTF-8, so that bytes above 127 stand for themselves. A nil and an empty list
  of preloads are the same here and are written as nil.
\<close>

section \<open>JSON\<close>

definition hex_digit :: "nat \<Rightarrow> char" where
  "hex_digit d = (if d < 10 then char_of (48 + d) else char_of (87 + d))"

definition unicode_escape :: "nat \<Rightarrow> string" where
  "unicode_escape n = [CHR 0x5C, CHR ''u'', CHR ''0'', CHR ''0'', hex_digit (n div 16), hex_digit (n mod 16)]"

text \<open>One byte of a string; angle brackets and the ampersand are escaped, as \<open>json.Marshal\<close> does.\<close>

definition json_char :: "char \<Rightarrow> string" where
  "json_char c =
     (let n = (of_char c :: nat) in
      if c = CHR 0x22 \<or> c = CHR 0x5C then [CHR 0x5C, c]
      else if c = CHR 0x08 then [CHR 0x5C, CHR ''b'']
      else if c = CHR 0x0C then [CHR 0x5C, CHR ''f'']
      else if c = CHR 0x0A then [CHR 0x5C, CHR ''n'']
      else if c = CHR 0x0D then [CHR 0x5C, CHR ''r'']
      else if c = CHR 0x09 then [CHR 0x5C, CHR ''t'']
      else if n < 32 \<or> c = CHR ''<'' \<or> c = CHR ''>'' \<or> c = CHR ''&'' then unicode_escape n
      else [c])"

definition json_string :: "string \<Rightarrow> string" where
  "json_string s = [CHR 0x22] @ concat (map json_char s) @ [CHR 0x22]"

definition json_array :: "string list \<Rightarrow> string" where
  "json_array xs = ''['' @ str_join xs '','' @ '']''"

definition base64_char :: "nat \<Rightarrow> char" where
  "base64_char n =
     (if n < 26 then char_of (65 + n) else if n < 52 then char_of (71 + n) else if n < 62 then char_of (n - 4)
      else if n = 62 then CHR ''+'' else CHR ''/'')"

fun base64 :: "nat list \<Rightarrow> string" where
  "base64 [] = []"
| "base64 [a] = [base64_char (a div 4), base64_char (a mod 4 * 16), CHR ''='', CHR ''='']"
| "base64 [a, b] = [base64_char (a div 4), base64_char (a mod 4 * 16 + b div 16), base64_char (b mod 16 * 4), CHR ''='']"
| "base64 (a # b # c # r) =
     [base64_char (a div 4), base64_char (a mod 4 * 16 + b div 16), base64_char (b mod 16 * 4 + c div 64), base64_char (c mod 64)] @ base64 r"

fun json_value :: "(goval \<Rightarrow> string) \<Rightarrow> goval \<Rightarrow> string" where
  "json_value num VNil = ''null''"
| "json_value num (VBool b) = (if b then ''true'' else ''false'')"
| "json_value num (VInt _ i) = format_int i"
| "json_value num (VUint _ i) = format_int i"
| "json_value num (VString s) = json_string s"
| "json_value num (VPtr _ None) = ''null''"
| "json_value num (VPtr _ (Some v)) = json_value num v"
| "json_value num (VSlice _ None) = ''null''"
| "json_value num (VSlice t (Some vs)) =
     (if t = TUint S8 then [CHR 0x22] @ base64 (map (\<lambda>c. of_char c) (bytes_of_slice vs)) @ [CHR 0x22]
      else json_array (map (json_value num) vs))"
| "json_value num v = num v"

definition json_field :: "string \<Rightarrow> string \<Rightarrow> string" where
  "json_field name v = json_string name @ '':'' @ v"

definition json_strings :: "string list \<Rightarrow> string" where
  "json_strings xs = (if xs = [] then ''null'' else json_array (map json_string xs))"

definition json_params :: "(goval \<Rightarrow> string) \<Rightarrow> QueryParams \<Rightarrow> string" where
  "json_params num p =
     ''{'' @ json_field ''Where'' (json_string (Where p)) @ '','' @
       json_field ''Args'' (json_array (map (json_value num) (Args p))) @ '','' @
       json_field ''Order'' (json_string (Order p)) @ '','' @
       json_field ''Preloads'' (json_strings (Preloads p)) @ '','' @
       json_field ''IncludeDeleted'' (json_value num (VBool (IncludeDeleted p))) @ ''}''"

section \<open>The hash and the key\<close>

definition fnv1a64 :: "string \<Rightarrow> 64 word" where
  "fnv1a64 s = foldl (\<lambda>h c. (h XOR of_nat (of_char c)) * 1099511628211) 14695981039346656037 s"

fun nat_hex :: "nat \<Rightarrow> string" where
  "nat_hex n = (if n < 16 then [hex_digit n] else nat_hex (n div 16) @ [hex_digit (n mod 16)])"

declare nat_hex.simps [simp del]

definition GenerateQueryHash :: "(goval \<Rightarrow> string) \<Rightarrow> QueryParams \<Rightarrow> string" where
  "GenerateQueryHash num p = nat_hex (unat (fnv1a64 (json_params num p)))"

text \<open>Normalising copies a list of interface values; a nil list becomes an empty one.\<close>

fun NormalizeValue :: "goval \<Rightarrow> goval" where
  "NormalizeValue (VSlice TIface vs) = VSlice TIface (Some (case vs of None \<Rightarrow> [] | Some xs \<Rightarrow> map NormalizeValue xs))"
| "NormalizeValue v = v"

definition GenerateCacheKey :: "(goval \<Rightarrow> string) \<Rightarrow> int \<Rightarrow> string \<Rightarrow> string \<Rightarrow> QueryParams \<Rightarrow> string" where
  "GenerateCacheKey num version prefix tableName p =
     prefix @ '':v'' @ format_int version @ '':'' @ tableName @ '':'' @
       GenerateQueryHash num (p\<lparr>Args := map NormalizeValue (Args p)\<rparr>)"

section \<open>The JSON text determines the query\<close>

definition hex_digit_val :: "char \<Rightarrow> nat" where
  "hex_digit_val c = (let n = (of_char c :: nat) in if n < 58 then n - 48 else n - 87)"

lemma hex_digit_val: "d < 16 \<Longrightarrow> hex_digit_val (hex_digit d) = d"
  by (auto simp: hex_digit_val_def hex_digit_def Let_def)

text \<open>A reader of JSON strings, after the opening quote.\<close>

definition simple_escape :: "char \<Rightarrow> char" where
  "simple_escape e =
     (if e = CHR ''b'' then CHR 0x08 else if e = CHR ''f'' then CHR 0x0C else if e = CHR ''n'' then CHR 0x0A
      else if e = CHR ''r'' then CHR 0x0D else if e = CHR ''t'' then CHR 0x09 else e)"

fun read_json :: "nat \<Rightarrow> string \<Rightarrow> (string \<times> string) option" where
  "read_json 0 s = None"
| "read_json (Suc n) [] = None"
| "read_json (Suc n) (c # s) =
     (if c = CHR 0x22 then Some ([], s)
      else if c = CHR 0x5C then
        (case s of
           [] \<Rightarrow> None
         | e # r \<Rightarrow>
             if e = CHR ''u'' then
               map_option (apfst ((#) (char_of (16 * hex_digit_val (r ! 2) + hex_digit_val (r ! 3))))) (read_json n (drop 4 r))
             else map_option (apfst ((#) (simple_escape e))) (read_json n r))
      else map_option (apfst ((#) c)) (read_json n s))"

lemma unicode_escape_read:
  "read_json (Suc n) (unicode_escape (of_char c) @ r) = map_option (apfst ((#) c)) (read_json n r)"
proof -
  have "(of_char c :: nat) div 16 < 16" using nat_of_char_less_256[of c] by linarith
  then have "16 * hex_digit_val (hex_digit (of_char c div 16)) + hex_digit_val (hex_digit (of_char c mod 16)) = (of_char c :: nat)"
    by (simp add: hex_digit_val)
  then show ?thesis by (simp add: unicode_escape_def del: of_char_mod_256)
qed

lemma json_char_cases:
  obtains e where "json_char c = [CHR 0x5C, e]" and "e \<noteq> CHR ''u''" and "simple_escape e = c"
  | "json_char c = unicode_escape (of_char c)"
  | "json_char c = [c]" and "c \<noteq> CHR 0x22" and "c \<noteq> CHR 0x5C"
proof -
  consider "c = CHR 0x22" | "c = CHR 0x5C" | "c = CHR 0x08" | "c = CHR 0x0C" | "c = CHR 0x0A" | "c = CHR 0x0D" | "c = CHR 0x09"
    | "c \<notin> {CHR 0x22, CHR 0x5C, CHR 0x08, CHR 0x0C, CHR 0x0A, CHR 0x0D, CHR 0x09}" by blast
  then show thesis
  proof cases
    case 8
    then show thesis using that(2,3) by (cases "json_char c = [c]") (auto simp: json_char_def Let_def split: if_splits)
  qed (rule that(1), simp add: json_char_def, simp, simp add: simple_escape_def)+
qed

lemma read_json_char:
  "read_json (Suc n) (json_char c @ r) = map_option (apfst ((#) c)) (read_json n r)"
  by (cases rule: json_char_cases[of c]) (simp_all add: unicode_escape_read)

lemma read_json_string:
  "length s < n \<Longrightarrow> read_json n (concat (map json_char s) @ CHR 0x22 # r) = Some (s, r)"
proof (induction s arbitrary: n)
  case Nil
  then show ?case by (cases n) auto
next
  case (Cons c s)
  then obtain m where n: "n = Suc m" by (cases n) auto
  with Cons have "read_json m (concat (map json_char s) @ CHR 0x22 # r) = Some (s, r)" by simp
  then show ?case using read_json_char[of m c "concat (map json_char s) @ CHR 0x22 # r"] n by simp
qed

lemma json_string_inj: "json_string s @ r = json_string t @ r' \<Longrightarrow> s = t \<and> r = r'"
proof -
  assume eq: "json_string s @ r = json_string t @ r'"
  let ?n = "Suc (max (length s) (length t))"
  have "read_json ?n (concat (map json_char s) @ CHR 0x22 # r) = Some (s, r)" by (rule read_json_string) simp
  moreover have "read_json ?n (concat (map json_char t) @ CHR 0x22 # r') = Some (t, r')" by (rule read_json_string) simp
  moreover have "concat (map json_char s) @ CHR 0x22 # r = concat (map json_char t) @ CHR 0x22 # r'"
    using eq by (simp add: json_string_def)
  ultimately show ?thesis by (metis Pair_inject option.inject)
qed

text \<open>Arguments of the types a query usually has.\<close>

fun simple_arg :: "goval \<Rightarrow> bool" where
  "simple_arg (VBool _) = True"
| "simple_arg (VInt s _) = (s = S64)"
| "simple_arg (VString _) = True"
| "simple_arg _ = False"

definition ends_value :: "string \<Rightarrow> bool" where
  "ends_value r \<longleftrightarrow> (case r of c # _ \<Rightarrow> c = CHR '','' \<or> c = CHR '']'' | [] \<Rightarrow> False)"

definition value_char :: "char \<Rightarrow> bool" where
  "value_char c \<longleftrightarrow> c \<noteq> CHR '','' \<and> c \<noteq> CHR '']''"

lemma format_int_value_chars: "list_all value_char (format_int i)"
proof -
  have "list_all value_char (nat_dec n)" for n
    using nat_dec_digits(1)[of n] by (auto simp: list_all_iff is_digit_def value_char_def)
  then show ?thesis by (auto simp: format_int_def value_char_def)
qed

lemma takeWhile_value: "list_all value_char s \<Longrightarrow> ends_value r \<Longrightarrow> takeWhile value_char (s @ r) = s"
  by (induction s) (auto simp: ends_value_def value_char_def split: list.splits)

lemma format_int_first: "format_int i \<noteq> [] \<and> (hd (format_int i) = CHR ''-'' \<or> is_digit (hd (format_int i)))"
  using nat_dec_digits[of "nat i"] by (cases "nat_dec (nat i)") (auto simp: format_int_def)

lemma format_int_not_word: "format_int i \<noteq> ''true''" "format_int i \<noteq> ''false''" "hd (format_int i) \<noteq> CHR 0x22"
  using format_int_first[of i] by (auto simp: is_digit_def)

text \<open>The text of a value without a string in it, and its first byte.\<close>

definition plain_text :: "goval \<Rightarrow> bool" where
  "plain_text v \<longleftrightarrow> (case v of VString _ \<Rightarrow> False | _ \<Rightarrow> True)"

lemma json_value_plain:
  assumes "simple_arg v" and "plain_text v"
  shows "list_all value_char (json_value num v)" and "json_value num v \<noteq> []" and "hd (json_value num v) \<noteq> CHR 0x22"
proof -
  from assms obtain b i where "v = VBool b \<or> v = VInt S64 i" by (cases v) (auto simp: plain_text_def)
  then show "list_all value_char (json_value num v)" "json_value num v \<noteq> []" "hd (json_value num v) \<noteq> CHR 0x22"
    using format_int_value_chars[of i] format_int_first[of i] format_int_not_word(3)[of i]
    by (elim disjE; simp add: value_char_def)+
qed

lemma json_plain_inj:
  assumes "simple_arg v" and "simple_arg w" and "plain_text v" and "plain_text w" and "json_value num v = json_value num w"
  shows "v = w"
proof -
  have form: "(\<exists>b. x = VBool b) \<or> (\<exists>i. x = VInt S64 i)" if "simple_arg x" "plain_text x" for x
    using that by (cases x) (auto simp: plain_text_def)
  from form[OF assms(1,3)] form[OF assms(2,4)] assms(5) show ?thesis
    by (elim disjE exE) (auto split: if_splits dest: format_int_inj simp: format_int_not_word format_int_not_word(1,2)[THEN not_sym])
qed

lemma json_value_inj:
  assumes "simple_arg v" and "simple_arg w" and "ends_value r" and "ends_value r'"
    and "json_value num v @ r = json_value num w @ r'"
  shows "v = w \<and> r = r'"
proof (cases "plain_text v \<and> plain_text w")
  case True
  then have "json_value num v = json_value num w"
    using takeWhile_value[OF json_value_plain(1)[OF assms(1)] assms(3)]
      takeWhile_value[OF json_value_plain(1)[OF assms(2)] assms(4)] assms(5) by metis
  moreover from this have "v = w" using json_plain_inj True assms(1,2) by blast
  ultimately show ?thesis using assms(5) by simp
next
  case False
  have quote: "hd (json_value num x) = CHR 0x22" "json_value num x \<noteq> []" if "\<not> plain_text x" for x
    using that by (cases x; auto simp: plain_text_def json_string_def)+
  have "\<not> plain_text v \<and> \<not> plain_text w"
    using False assms quote json_value_plain by (metis hd_append2)
  then obtain s t where "v = VString s" "w = VString t" by (cases v; cases w) (simp_all add: plain_text_def)
  moreover from this assms(5) have "json_string s @ r = json_string t @ r'" by simp
  ultimately show ?thesis using json_string_inj[of s r t r'] by simp
qed

text \<open>
  Elements whose texts can be told apart, with the byte after them being a comma or the closing
  bracket: an array of them can be told apart from any other.
\<close>

lemma str_join_Cons: "str_join (x # xs) sep = x @ concat (map (\<lambda>y. sep @ y) xs)"
  by (induction xs arbitrary: x) auto

locale json_elements =
  fixes valid :: "'a \<Rightarrow> bool" and enc :: "'a \<Rightarrow> string"
  assumes enc_inj: "valid v \<Longrightarrow> valid w \<Longrightarrow> ends_value r \<Longrightarrow> ends_value r' \<Longrightarrow> enc v @ r = enc w @ r' \<Longrightarrow> v = w \<and> r = r'"
    and enc_first: "valid v \<Longrightarrow> enc v \<noteq> [] \<and> hd (enc v) \<noteq> CHR '']''"
begin

lemma tail_ends: "ends_value (concat (map (\<lambda>y. '','' @ enc y) xs) @ '']'' @ r)"
  by (cases xs) (auto simp: ends_value_def)

lemma tail_inj:
  "list_all valid xs \<Longrightarrow> list_all valid ys \<Longrightarrow>
   concat (map (\<lambda>y. '','' @ enc y) xs) @ '']'' @ r = concat (map (\<lambda>y. '','' @ enc y) ys) @ '']'' @ r' \<Longrightarrow> xs = ys \<and> r = r'"
proof (induction xs arbitrary: ys)
  case Nil
  then show ?case by (cases ys) auto
next
  case (Cons x xs)
  then obtain y ys' where ys: "ys = y # ys'" by (cases ys) auto
  with Cons.prems have "enc x @ (concat (map (\<lambda>y. '','' @ enc y) xs) @ '']'' @ r) =
      enc y @ (concat (map (\<lambda>y. '','' @ enc y) ys') @ '']'' @ r')" by simp
  from enc_inj[OF _ _ tail_ends tail_ends this] Cons.prems ys Cons.IH[of ys'] show ?case by simp
qed

lemma array_inj:
  assumes "list_all valid xs" and "list_all valid ys" and eq: "json_array (map enc xs) @ r = json_array (map enc ys) @ r'"
  shows "xs = ys \<and> r = r'"
proof -
  have ne: "'']'' @ q \<noteq> enc v @ q'" if "valid v" for v q q'
    using enc_first[OF that] by (cases "enc v") auto
  show ?thesis
  proof (cases xs)
    case Nil
    then have "ys = []" using eq assms(2) ne by (cases ys) (auto simp: json_array_def str_join_Cons)
    with Nil eq show ?thesis by simp
  next
    case (Cons x xs')
    then obtain y ys' where ys: "ys = y # ys'"
      using eq assms(1) ne[THEN not_sym] by (cases ys) (auto simp: json_array_def str_join_Cons)
    from eq Cons ys have "enc x @ (concat (map (\<lambda>y. '','' @ enc y) xs') @ '']'' @ r) =
        enc y @ (concat (map (\<lambda>y. '','' @ enc y) ys') @ '']'' @ r')"
      by (simp add: json_array_def str_join_Cons o_def)
    from enc_inj[OF _ _ tail_ends tail_ends this] tail_inj[of xs' ys' r r'] assms(1,2) Cons ys show ?thesis by simp
  qed
qed

end

lemma json_value_first: "simple_arg v \<Longrightarrow> json_value num v \<noteq> [] \<and> hd (json_value num v) \<noteq> CHR '']''"
proof (cases "plain_text v")
  case True
  moreover assume "simple_arg v"
  ultimately show ?thesis using json_value_plain[of v num] by (cases "json_value num v") (auto simp: value_char_def)
next
  case False
  then show ?thesis by (cases v) (auto simp: plain_text_def json_string_def)
qed

interpretation jargs: json_elements simple_arg "json_value num" for num
  by unfold_locales (auto simp: json_value_first dest: json_value_inj)

interpretation jstrs: json_elements "\<lambda>_. True" json_string
  by unfold_locales (blast dest: json_string_inj, simp add: json_string_def)

text \<open>The text of a query, field by field.\<close>

lemma json_strings_inj: "json_strings xs @ r = json_strings ys @ r' \<Longrightarrow> xs = ys \<and> r = r'"
  using jstrs.array_inj[of xs ys r r']
  by (auto simp: json_strings_def list_all_iff json_array_def[of "[]"] split: if_splits) (simp_all add: json_array_def)

lemma json_field_eq: "json_field f v @ r = json_field f w @ r' \<longleftrightarrow> v @ r = w @ r'"
  by (simp add: json_field_def)

lemma json_params_inj:
  assumes args: "list_all simple_arg (Args p)" "list_all simple_arg (Args q)" and eq: "json_params num p = json_params num q"
  shows "p = (q :: QueryParams)"
proof -
  let ?D = "\<lambda>p. '','' @ json_field ''IncludeDeleted'' (json_value num (VBool (IncludeDeleted p))) @ ''}''"
  let ?P = "\<lambda>p. '','' @ json_field ''Preloads'' (json_strings (Preloads p)) @ ?D p"
  let ?O = "\<lambda>p. '','' @ json_field ''Order'' (json_string (Order p)) @ ?P p"
  let ?A = "\<lambda>p. '','' @ json_field ''Args'' (json_array (map (json_value num) (Args p))) @ ?O p"
  have "json_string (Where p) @ ?A p = json_string (Where q) @ ?A q"
    using eq by (simp add: json_params_def json_field_eq)
  from json_string_inj[OF this] have w: "Where p = Where q" and "?A p = ?A q" by blast+
  then have "json_array (map (json_value num) (Args p)) @ ?O p = json_array (map (json_value num) (Args q)) @ ?O q"
    by (simp add: json_field_eq)
  from jargs.array_inj[OF args this] have a: "Args p = Args q" and "?O p = ?O q" by blast+
  then have "json_string (Order p) @ ?P p = json_string (Order q) @ ?P q" by (simp add: json_field_eq)
  from json_string_inj[OF this] have o: "Order p = Order q" and "?P p = ?P q" by blast+
  then have "json_strings (Preloads p) @ ?D p = json_strings (Preloads q) @ ?D q" by (simp add: json_field_eq)
  from json_strings_inj[OF this] have l: "Preloads p = Preloads q" and "?D p = ?D q" by blast+
  then have "IncludeDeleted p = IncludeDeleted q" by (simp add: json_field_def split: if_splits)
  with w a o l show ?thesis by simp
qed

lemma hex_digit_inj: "d < 16 \<Longrightarrow> e < 16 \<Longrightarrow> hex_digit d = hex_digit e \<Longrightarrow> d = e"
  by (metis hex_digit_val)

lemma nat_hex_ne [simp]: "nat_hex n \<noteq> []"
  by (subst nat_hex.simps) simp

lemma nat_hex_inj: "nat_hex m = nat_hex n \<Longrightarrow> m = n"
proof (induction m arbitrary: n rule: nat_hex.induct)
  case (1 m)
  have small: "nat_hex k = [hex_digit k]" if "k < 16" for k using that by (simp add: nat_hex.simps[of k])
  have big: "nat_hex k = nat_hex (k div 16) @ [hex_digit (k mod 16)]" if "\<not> k < 16" for k
    using that by (simp add: nat_hex.simps[of k])
  show ?case
  proof (cases "m < 16 \<or> n < 16")
    case True
    have "length (nat_hex k) = 1 \<longleftrightarrow> k < 16" for k
      using small[of k] big[of k] nat_hex_ne[of "k div 16"] by (cases "k < 16") auto
    with True 1(2) have "m < 16 \<and> n < 16" by metis
    with 1(2) show ?thesis using small[of m] small[of n] hex_digit_inj[of m n] by simp
  next
    case False
    with 1(2) big have "nat_hex (m div 16) = nat_hex (n div 16)" "hex_digit (m mod 16) = hex_digit (n mod 16)" by auto
    with 1(1)[of "n div 16"] False hex_digit_inj[of "m mod 16" "n mod 16"] have "m div 16 = n div 16" "m mod 16 = n mod 16" by auto
    then show ?thesis by (metis div_mult_mod_eq)
  qed
qed

lemma simple_arg_normal: "list_all simple_arg xs \<Longrightarrow> map NormalizeValue xs = xs"
  by (induction xs) (auto elim: simple_arg.elims)


definition adult_query :: "int \<Rightarrow> QueryParams" where
  "adult_query n = \<lparr>Where = ''age > ?'', Args = [VInt S64 n], Order = ''id'', Preloads = [], IncludeDeleted = False\<rparr>"


end
