(* ===== verification/Sql_Builder.thy ===== *)
theory Sql_Builder
  imports Go_Values
begin

text \<open>
  SQL text generation: \<^verbatim>\<open>internal/sqlbuilder/sqlbuilder.go\<close> and the three dialects of
  \<^verbatim>\<open>drivers/db\<close>. Statements are byte strings.

  \<open>ExpandInClauses\<close> looks left and right of each placeholder; here the text to the left is passed
  along reversed, so that a scan to the left is a scan of that list.
\<close>

section \<open>Dialects\<close>

record Dialector =
  Quote :: "string \<Rightarrow> string"
  Placeholder :: "nat \<Rightarrow> string"

definition PostgresDialector :: Dialector where
  "PostgresDialector = \<lparr>Quote = (\<lambda>s. CHR 0x22 # s @ [CHR 0x22]), Placeholder = (\<lambda>i. CHR ''$'' # nat_dec i)\<rparr>"

definition MySQLDialector :: Dialector where
  "MySQLDialector = \<lparr>Quote = (\<lambda>s. CHR 0x60 # s @ [CHR 0x60]), Placeholder = (\<lambda>_. ''?'')\<rparr>"

definition SQLiteDialector :: Dialector where
  "SQLiteDialector = \<lparr>Quote = (\<lambda>s. CHR 0x22 # s @ [CHR 0x22]), Placeholder = (\<lambda>_. ''?'')\<rparr>"

section \<open>Statements\<close>

definition BuildSelectSQL :: "Dialector \<Rightarrow> string \<Rightarrow> string list \<Rightarrow> string" where
  "BuildSelectSQL b tableName columns =
     (if tableName = [] \<or> columns = [] then []
      else ''SELECT '' @ str_join (map (Quote b) columns) '', '' @ '' FROM '' @ Quote b tableName)"

definition sql_blank :: "char \<Rightarrow> bool" where
  "sql_blank c \<longleftrightarrow> c = CHR '' '' \<or> c = CHR 0x09 \<or> c = CHR 0x0A \<or> c = CHR 0x0D"

definition word_char :: "char \<Rightarrow> bool" where
  "word_char c \<longleftrightarrow> c = CHR ''_'' \<or>
     (let n = (of_char c :: nat) in 48 \<le> n \<and> n \<le> 57 \<or> 65 \<le> n \<and> n \<le> 90 \<or> 97 \<le> n \<and> n \<le> 122)"

text \<open>
  Is the placeholder between \<open>before\<close> (reversed) and \<open>after\<close> the only operand of an \<open>IN\<close>? It stands
  in parentheses, and the word before them is \<open>IN\<close>.
\<close>

definition in_clause :: "string \<Rightarrow> string \<Rightarrow> bool" where
  "in_clause before after =
     (case (dropWhile sql_blank before, dropWhile sql_blank after) of
        (l # left, r # _) \<Rightarrow>
          l = CHR ''('' \<and> r = CHR '')'' \<and>
          (case dropWhile sql_blank left of
             n # i # beforeWord \<Rightarrow>
               equal_fold [i, n] ''IN'' \<and> (case beforeWord of [] \<Rightarrow> True | c # _ \<Rightarrow> \<not> word_char c)
           | _ \<Rightarrow> False)
      | _ \<Rightarrow> False)"

definition slice_elements :: "goval \<Rightarrow> goval list option" where
  "slice_elements v = (case v of VSlice _ vs \<Rightarrow> Some (case vs of None \<Rightarrow> [] | Some xs \<Rightarrow> xs) | _ \<Rightarrow> None)"

definition in_placeholders :: "goval list \<Rightarrow> string" where
  "in_placeholders vs = (if vs = [] then ''NULL'' else str_join (replicate (length vs) ''?'') '', '')"

fun expand_from :: "string \<Rightarrow> string \<Rightarrow> goval list \<Rightarrow> string \<times> goval list" where
  "expand_from before [] args = ([], [])"
| "expand_from before (c # s) args =
     (if c \<noteq> CHR ''?'' then (let (w, a) = expand_from (c # before) s args in (c # w, a))
      else case args of
        [] \<Rightarrow> (let (w, a) = expand_from (c # before) s [] in (CHR ''?'' # w, a))
      | arg # rest \<Rightarrow>
          (let (w, a) = expand_from (c # before) s rest
           in case (if in_clause before s then slice_elements arg else None) of
                Some vs \<Rightarrow> (in_placeholders vs @ w, vs @ a)
              | None \<Rightarrow> (CHR ''?'' # w, arg # a)))"

definition ExpandInClauses :: "string \<Rightarrow> goval list \<Rightarrow> string \<times> goval list" where
  "ExpandInClauses where_text args = expand_from [] where_text args"

definition BuildSelectIDsSQL ::
  "Dialector \<Rightarrow> string \<Rightarrow> string \<Rightarrow> string \<Rightarrow> goval list \<Rightarrow> string \<Rightarrow> string \<times> goval list" where
  "BuildSelectIDsSQL b tableName pkName where_text args order =
     (if tableName = [] \<or> pkName = [] then ([], [])
      else
        let select = ''SELECT '' @ Quote b pkName @ '' FROM '' @ Quote b tableName;
            (cond, args') = (if where_text = [] then ([], args)
                             else let (w, a) = ExpandInClauses where_text args in ('' WHERE '' @ w, a));
            order_by = (if order = [] then [] else '' ORDER BY '' @ order)
        in (select @ cond @ order_by, args'))"

definition BuildInsertSQL :: "Dialector \<Rightarrow> string \<Rightarrow> string list \<Rightarrow> string" where
  "BuildInsertSQL b tableName columns =
     (if tableName = [] \<or> columns = [] then []
      else ''INSERT INTO '' @ Quote b tableName @ '' ('' @ str_join (map (Quote b) columns) '', '' @ '') VALUES (''
           @ str_join (map (\<lambda>i. Placeholder b (i + 1)) [0..<length columns]) '', '' @ '')'')"

text \<open>\<open>strings.Replace(s, "?", t, 1)\<close>.\<close>

fun replace_first :: "char \<Rightarrow> string \<Rightarrow> string \<Rightarrow> string" where
  "replace_first d t [] = []"
| "replace_first d t (c # s) = (if c = d then t @ s else c # replace_first d t s)"

definition BuildUpdateSQL :: "Dialector \<Rightarrow> string \<Rightarrow> string list \<Rightarrow> string \<Rightarrow> string" where
  "BuildUpdateSQL b tableName setClauses pkName =
     (if tableName = [] \<or> setClauses = [] \<or> pkName = [] then []
      else ''UPDATE '' @ Quote b tableName @ '' SET ''
           @ str_join (map (\<lambda>(i, clause). replace_first CHR ''?'' (Placeholder b (i + 1)) clause)
                (enumerate 0 setClauses)) '', ''
           @ '' WHERE '' @ Quote b pkName @ '' = '' @ Placeholder b (length setClauses + 1))"

definition BuildDeleteSQL :: "Dialector \<Rightarrow> string \<Rightarrow> string \<Rightarrow> string" where
  "BuildDeleteSQL b tableName pkName =
     (if tableName = [] \<or> pkName = [] then []
      else ''DELETE FROM '' @ Quote b tableName @ '' WHERE '' @ Quote b pkName @ '' = '' @ Placeholder b 1)"

definition BuildCountSQL :: "Dialector \<Rightarrow> string \<Rightarrow> string \<Rightarrow> string" where
  "BuildCountSQL b tableName whereClause =
     (if tableName = [] then []
      else ''SELECT COUNT(*) FROM '' @ Quote b tableName @ (if whereClause = [] then [] else '' WHERE '' @ whereClause))"

fun rebind_from :: "Dialector \<Rightarrow> nat \<Rightarrow> string \<Rightarrow> string" where
  "rebind_from b idx [] = []"
| "rebind_from b idx (c # s) =
     (if c = CHR ''?'' then Placeholder b idx @ rebind_from b (idx + 1) s else c # rebind_from b idx s)"

definition Rebind :: "Dialector \<Rightarrow> string \<Rightarrow> string" where
  "Rebind b query = rebind_from b 1 query"

section \<open>Counting placeholders\<close>

abbreviation marks :: "string \<Rightarrow> nat" where
  "marks s \<equiv> count_list s CHR ''?''"

lemma marks_join_replicate: "marks (str_join (replicate n ''?'') '', '') = n"
proof (induction n)
  case (Suc n)
  then show ?case by (cases n) auto
qed simp

lemma marks_in_placeholders [simp]: "marks (in_placeholders vs) = length vs"
  by (simp add: in_placeholders_def marks_join_replicate)

text \<open>Which placeholders of the text are the operand of an \<open>IN\<close>.\<close>

fun in_flags :: "string \<Rightarrow> string \<Rightarrow> bool list" where
  "in_flags before [] = []"
| "in_flags before (c # s) =
     (if c = CHR ''?'' then in_clause before s # in_flags (c # before) s else in_flags (c # before) s)"

definition expand_arg :: "bool \<times> goval \<Rightarrow> goval list" where
  "expand_arg fa = (case (if fst fa then slice_elements (snd fa) else None) of Some vs \<Rightarrow> vs | None \<Rightarrow> [snd fa])"

lemma length_in_flags [simp]: "length (in_flags before s) = marks s"
  by (induction s arbitrary: before) auto

lemma expand_from_args: "snd (expand_from before s args) = concat (map expand_arg (zip (in_flags before s) args))"
  by (induction before s args rule: expand_from.induct)
    (auto simp: expand_arg_def split: prod.splits option.splits list.splits)

lemma expand_from_marks:
  "marks s \<le> length args \<Longrightarrow> marks (fst (expand_from before s args)) = length (snd (expand_from before s args))"
  by (induction before s args rule: expand_from.induct) (auto split: prod.splits option.splits list.splits)

text \<open>
  After \<open>ExpandInClauses\<close> the text and the arguments still fit. Given an argument for each
  placeholder, the new text has as many placeholders as there are new arguments, and those are
  the old ones in order, a slice under an \<open>IN\<close> replaced by its elements.
\<close>

theorem expand_in_fits:
  assumes "marks where_text = length args" and "ExpandInClauses where_text args = (w, a)"
  shows "marks w = length a \<and> a = concat (map expand_arg (zip (in_flags [] where_text) args))"
  using expand_from_marks[of where_text args "[]"] expand_from_args[of "[]" where_text args] assms
  by (simp add: ExpandInClauses_def)

theorem expand_in_fits_witness:
  "ExpandInClauses ''a = ? AND id IN ( ? )'' [VInt S64 1, VSlice (TInt S64) (Some [VInt S64 2, VInt S64 3])] =
     (''a = ? AND id IN ( ?, ? )'', [VInt S64 1, VInt S64 2, VInt S64 3]) \<and>
   marks ''a = ? AND id IN ( ?, ? )'' = length [VInt S64 1, VInt S64 2, VInt S64 3]"
proof -
  have e: "ExpandInClauses ''a = ? AND id IN ( ? )'' [VInt S64 1, VSlice (TInt S64) (Some [VInt S64 2, VInt S64 3])] =
     (''a = ? AND id IN ( ?, ? )'', [VInt S64 1, VInt S64 2, VInt S64 3])" by code_simp
  have m: "marks ''a = ? AND id IN ( ? )'' = length [VInt S64 1, VSlice (TInt S64) (Some [VInt S64 2, VInt S64 3])]" by simp
  show ?thesis using e expand_in_fits[OF m e, THEN conjunct1] by blast
qed

section \<open>Numbering\<close>

text \<open>The pieces of a statement around its placeholders, joined by numbered ones.\<close>

fun join_numbered :: "Dialector \<Rightarrow> nat \<Rightarrow> string list \<Rightarrow> string" where
  "join_numbered b i [] = []"
| "join_numbered b i [s] = s"
| "join_numbered b i (s # t # ss) = s @ Placeholder b i @ join_numbered b (i + 1) (t # ss)"

lemma split_on_Cons_cases: obtains w ws where "split_on d s = w # ws"
  using split_on_nonempty[of d s] by (cases "split_on d s") auto

lemma join_numbered_Cons: "join_numbered b i ((c # w) # ws) = c # join_numbered b i (w # ws)"
  by (cases ws) auto

lemma rebind_from_join: "rebind_from b i s = join_numbered b i (split_on CHR ''?'' s)"
proof (induction s arbitrary: i)
  case (Cons c s)
  obtain w ws where "split_on CHR ''?'' s = w # ws" by (rule split_on_Cons_cases)
  with Cons show ?case by (simp add: join_numbered_Cons)
qed simp

lemma rebind_plain: "Placeholder b = (\<lambda>_. ''?'') \<Longrightarrow> rebind_from b i s = s"
  by (induction s arbitrary: i) auto

lemma nat_dec_no_mark: "CHR ''?'' \<notin> set (nat_dec n)"
  using nat_dec_digits(1)[of n] by (auto simp: list_all_iff is_digit_def)

text \<open>
  \<open>Rebind\<close> numbers the placeholders from left to right and changes nothing else: in PostgreSQL
  the \<open>k\<close>-th becomes \<open>$k\<close> and none is left, in MySQL and SQLite the statement is unchanged.
\<close>

theorem rebind_numbers:
  "Rebind b query = join_numbered b 1 (split_on CHR ''?'' query) \<and>
   marks (Rebind PostgresDialector query) = 0 \<and>
   Rebind MySQLDialector query = query \<and> Rebind SQLiteDialector query = query"
proof -
  have "marks (rebind_from PostgresDialector i query) = 0" for i
    by (induction query arbitrary: i) (auto simp: PostgresDialector_def nat_dec_no_mark count_list_0_iff)
  moreover have "rebind_from MySQLDialector 1 query = query" by (rule rebind_plain) (simp add: MySQLDialector_def)
  moreover have "rebind_from SQLiteDialector 1 query = query" by (rule rebind_plain) (simp add: SQLiteDialector_def)
  ultimately show ?thesis by (simp add: Rebind_def rebind_from_join)
qed

text \<open>
  A question mark inside a string literal counts as a placeholder here, unlike in the WHERE
  parser of the cache.
\<close>

lemma rebind_in_literal:
  "Rebind PostgresDialector (''a = '' @ [CHR 0x27] @ ''x?'' @ [CHR 0x27]) = ''a = '' @ [CHR 0x27] @ ''x$1'' @ [CHR 0x27]"
  by code_simp

section \<open>Generated statements\<close>

text \<open>Identifiers a schema has: no question mark.\<close>

abbreviation plain :: "string \<Rightarrow> bool" where
  "plain s \<equiv> CHR ''?'' \<notin> set s"

lemma marks_append [simp]: "marks (s @ t) = marks s + marks t"
  by simp

lemma marks_join: "marks (str_join ss '', '') = sum_list (map marks ss)"
  by (induction ss rule: induct_list012) auto

lemma marks_plain: "plain s \<Longrightarrow> marks s = 0"
  by (simp add: count_list_0_iff)

lemma replace_first_mark: "marks s = 1 \<Longrightarrow> plain t \<Longrightarrow> marks (replace_first CHR ''?'' t s) = 0"
  by (induction s) (auto simp: count_list_0_iff split: if_splits)

lemma rebind_from_plain: "plain s \<Longrightarrow> rebind_from b i s = s"
  by (induction s) auto

lemma rebind_append: "rebind_from b i (s @ t) = rebind_from b i s @ rebind_from b (i + marks s) t"
  by (induction s arbitrary: i) auto

text \<open>
  The statements built by \<open>Save\<close> and \<open>Delete\<close> already have the placeholders of the dialect, and the
  adapter applies \<open>Rebind\<close> once more: it must leave them alone.
\<close>

lemma plain_join: "list_all plain ss \<Longrightarrow> plain (str_join ss '', '')"
  by (induction ss rule: induct_list012) auto

definition dialect_ok :: "Dialector \<Rightarrow> bool" where
  "dialect_ok b \<longleftrightarrow> b = PostgresDialector \<or> b = MySQLDialector \<or> b = SQLiteDialector"

lemma rebind_ok: "b = MySQLDialector \<or> b = SQLiteDialector \<Longrightarrow> rebind_from b i s = s"
  by (auto intro!: rebind_plain simp: MySQLDialector_def SQLiteDialector_def)

lemma quote_plain: "dialect_ok b \<Longrightarrow> plain s \<Longrightarrow> plain (Quote b s)"
  by (auto simp: dialect_ok_def PostgresDialector_def MySQLDialector_def SQLiteDialector_def)

lemma pg_placeholder_plain: "plain (Placeholder PostgresDialector i)"
  using nat_dec_no_mark by (auto simp: PostgresDialector_def)

definition set_clause :: "string \<Rightarrow> string" where
  "set_clause col = col @ '' = ?''"

lemma replace_set_clause: "plain col \<Longrightarrow> replace_first CHR ''?'' t (set_clause col) = col @ '' = '' @ t"
  by (induction col) (auto simp: set_clause_def)

lemma update_parts:
  assumes "list_all plain cols"
  shows "map (\<lambda>(i, clause). replace_first CHR ''?'' (Placeholder b (i + 1)) clause) (enumerate k (map set_clause cols)) =
    map (\<lambda>(i, col). col @ '' = '' @ Placeholder b (i + 1)) (enumerate k cols)"
  using assms by (induction cols arbitrary: k) (auto simp: replace_set_clause)

lemma insert_marks: "sum_list (map marks (map (\<lambda>i. Placeholder b (Suc i)) [0..<n])) = (\<Sum>i < n. marks (Placeholder b (Suc i)))"
  by (induction n) auto

lemma update_marks:
  "list_all plain cols \<Longrightarrow>
   sum_list (map marks (map (\<lambda>(i, col). col @ '' = '' @ Placeholder b (i + 1)) (enumerate k cols))) =
     (\<Sum>i < length cols. marks (Placeholder b (k + i + 1)))"
proof (induction cols arbitrary: k)
  case (Cons c cols)
  then show ?case by (simp add: marks_plain sum.lessThan_Suc_shift del: sum.lessThan_Suc)
qed simp

lemma plain_columns: "dialect_ok b \<Longrightarrow> list_all plain cols \<Longrightarrow> marks (str_join (map (Quote b) cols) '', '') = 0"
  by (intro marks_plain plain_join) (auto simp: list_all_iff quote_plain)

lemma statements_marks:
  assumes "dialect_ok b" and "plain t" and "plain pk" and "list_all plain cols" and "t \<noteq> []" and "pk \<noteq> []" and "cols \<noteq> []"
  shows "marks (BuildInsertSQL b t cols) = (\<Sum>i < length cols. marks (Placeholder b (i + 1)))"
    and "marks (BuildUpdateSQL b t (map set_clause cols) pk) = (\<Sum>i < length cols + 1. marks (Placeholder b (i + 1)))"
    and "marks (BuildDeleteSQL b t pk) = marks (Placeholder b 1)"
proof -
  have q: "marks (Quote b t) = 0" "marks (Quote b pk) = 0" using assms by (simp_all add: marks_plain quote_plain)
  show "marks (BuildInsertSQL b t cols) = (\<Sum>i < length cols. marks (Placeholder b (i + 1)))"
    using assms q by (simp add: BuildInsertSQL_def plain_columns marks_join[of "map _ [0..<_]"] insert_marks del: map_map)
  show "marks (BuildUpdateSQL b t (map set_clause cols) pk) = (\<Sum>i < length cols + 1. marks (Placeholder b (i + 1)))"
    using assms q update_marks[of cols b 0] unfolding BuildUpdateSQL_def update_parts[OF assms(4)]
    by (simp add: marks_join del: map_map)
  show "marks (BuildDeleteSQL b t pk) = marks (Placeholder b 1)"
    using assms q by (simp add: BuildDeleteSQL_def)
qed


lemma sqlite_not_postgres: "SQLiteDialector \<noteq> PostgresDialector"
proof
  assume "SQLiteDialector = PostgresDialector"
  then have "Placeholder SQLiteDialector 1 = Placeholder PostgresDialector 1" by simp
  then show False by (simp add: SQLiteDialector_def PostgresDialector_def)
qed


end
