(* ===== verification/Fetch_Models.thy ===== *)
theory Fetch_Models
  imports Local_Cache Model_Info Sql_Builder
begin

text \<open>
  Reading models by primary key through the cache: \<open>fetchModelsByIDsInternal\<close> and \<open>byIDInternal\<close> of
  \<^verbatim>\<open>crud.go\<close>, over any cache client and any database adapter.

  The database is a parameter: \<open>db_adapter\<close> has the methods of \<open>DBAdapter\<close> and \<open>Tx\<close>
  (\<^verbatim>\<open>interfaces.go\<close>) as functions on a database state. \<open>Select\<close> takes its element type from its
  destination, so it is two functions, for models and for ids. A destination struct is passed as
  a model with the values it has before the call. The model type of a \<open>Thing\<close> is \<open>model_type\<close>: whether
  it is a pointer type, and a zero struct.
\<close>

section \<open>The database interface\<close>

record exec_result =
  LastInsertId :: "int go_result"
  RowsAffected :: int

record 'd db_adapter =
  dbDialect :: Dialector
  dbGet :: "'d \<Rightarrow> gomodel \<Rightarrow> string \<Rightarrow> goval list \<Rightarrow> gomodel go_result \<times> 'd"
  dbSelectModels :: "'d \<Rightarrow> gomodel \<Rightarrow> string \<Rightarrow> goval list \<Rightarrow> gomodel list go_result \<times> 'd"
  dbSelectIDs :: "'d \<Rightarrow> string \<Rightarrow> goval list \<Rightarrow> int list go_result \<times> 'd"
  dbExec :: "'d \<Rightarrow> string \<Rightarrow> goval list \<Rightarrow> exec_result go_result \<times> 'd"
  dbGetCount :: "'d \<Rightarrow> string \<Rightarrow> string \<Rightarrow> goval list \<Rightarrow> int go_result \<times> 'd"
  dbBeginTx :: "'d \<Rightarrow> unit go_result \<times> 'd"
  txGet :: "'d \<Rightarrow> gomodel \<Rightarrow> string \<Rightarrow> goval list \<Rightarrow> gomodel go_result \<times> 'd"
  txExec :: "'d \<Rightarrow> string \<Rightarrow> goval list \<Rightarrow> exec_result go_result \<times> 'd"
  txCommit :: "'d \<Rightarrow> unit go_result \<times> 'd"
  txRollback :: "'d \<Rightarrow> unit go_result \<times> 'd"

record model_type =
  isPtr :: bool
  zeroModel :: gomodel

text \<open>The unexported flag of an embedded \<open>BaseModel\<close>.\<close>

definition setNewRecordFlagIfBaseModel :: "gomodel \<Rightarrow> bool \<Rightarrow> gomodel" where
  "setNewRecordFlagIfBaseModel m isNew =
     (if FieldByName m ''isNewRecord'' \<noteq> None then AList.update ''isNewRecord'' (VBool isNew) m else m)"

section \<open>Fetching by id\<close>

definition ByIDBatchSize :: nat where
  "ByIDBatchSize = 100"

text \<open>The outcome of the batch read of the cache: the models found and the ids to ask the database for.\<close>

fun cache_results ::
  "int list \<Rightarrow> gomodel go_result list \<Rightarrow> (int, gomodel) gomap \<Rightarrow> int list \<Rightarrow> (int, gomodel) gomap \<times> int list" where
  "cache_results (i # ids) (r # rs) resultMap missingIDs =
     (case r of
        Inr m \<Rightarrow> cache_results ids rs (gm_set i (setNewRecordFlagIfBaseModel m False) resultMap) missingIDs
      | Inl e \<Rightarrow>
          if errors_is e ErrCacheNoneResult then cache_results ids rs resultMap missingIDs
          else cache_results ids rs resultMap (missingIDs @ [i]))"
| "cache_results ids rs resultMap missingIDs = (resultMap, missingIDs)"

function batches :: "nat \<Rightarrow> 'a list \<Rightarrow> 'a list list" where
  "batches n xs = (if xs = [] \<or> n = 0 then [] else take n xs # batches n (drop n xs))"
  by pat_completeness auto
termination
  by (relation "measure (length \<circ> snd)") auto

declare batches.simps [simp del]

definition batch_query :: "Dialector \<Rightarrow> ModelInfo \<Rightarrow> nat \<Rightarrow> string" where
  "batch_query b info n =
     BuildSelectSQL b (TableName info) (Columns info) @ '' WHERE '' @ [CHR 0x22] @ PkName info @ [CHR 0x22]
       @ '' IN ('' @ str_join (replicate n ''?'') '','' @ '')''"

text \<open>
  The rows of a batch: into the result, into the cache, and the ids seen. A failed cache write is
  only logged.
\<close>

fun store_rows ::
  "'c cache_client option \<Rightarrow> ModelInfo \<Rightarrow> int \<Rightarrow> gomodel list \<Rightarrow> (int, gomodel) gomap \<Rightarrow> int list \<Rightarrow> 'c \<Rightarrow>
   (int, gomodel) gomap \<times> int list \<times> 'c" where
  "store_rows client_opt info ttl [] resultMap fetched c = (resultMap, fetched, c)"
| "store_rows client_opt info ttl (m # ms) resultMap fetched c =
     (let i = GetID m in
      if i = 0 then store_rows client_opt info ttl ms resultMap fetched c
      else
        let m' = setNewRecordFlagIfBaseModel m False;
            c' = (case client_opt of
                    None \<Rightarrow> c
                  | Some client \<Rightarrow> snd (cSetModel client c (generateCacheKey (TableName info) i) m' (FieldNames info) ttl))
        in store_rows client_opt info ttl ms (gm_set i m' resultMap) (i # fetched) c')"

fun store_none :: "'c cache_client \<Rightarrow> ModelInfo \<Rightarrow> int \<Rightarrow> int list \<Rightarrow> int list \<Rightarrow> 'c \<Rightarrow> 'c" where
  "store_none client info ttl fetched [] c = c"
| "store_none client info ttl fetched (i # ids) c =
     store_none client info ttl fetched ids
       (if i \<in> set fetched then c else snd (cSet client c (generateCacheKey (TableName info) i) NoneResult ttl))"

fun fetch_batches ::
  "'c cache_client option \<Rightarrow> 'd db_adapter \<Rightarrow> ModelInfo \<Rightarrow> gomodel \<Rightarrow> int \<Rightarrow> int list list \<Rightarrow> (int, gomodel) gomap \<Rightarrow> 'c \<times> 'd \<Rightarrow>
   (int, gomodel) gomap \<times> 'c \<times> 'd" where
  "fetch_batches client_opt db info zero ttl [] resultMap s = (resultMap, s)"
| "fetch_batches client_opt db info zero ttl (b # bs) resultMap (c, d) =
     (case dbSelectModels db d zero (batch_query (dbDialect db) info (length b)) (map (VInt S64) b) of
        (Inl e, d') \<Rightarrow> fetch_batches client_opt db info zero ttl bs resultMap (c, d')
      | (Inr rows, d') \<Rightarrow>
          (let (resultMap', fetched, c') = store_rows client_opt info ttl rows resultMap [] c;
               c'' = (case client_opt of None \<Rightarrow> c' | Some client \<Rightarrow> store_none client info ttl fetched b c')
           in fetch_batches client_opt db info zero ttl bs resultMap' (c'', d')))"

definition fetchModelsByIDsInternal ::
  "'c cache_client option \<Rightarrow> 'd db_adapter \<Rightarrow> ModelInfo \<Rightarrow> model_type \<Rightarrow> int \<Rightarrow> int list \<Rightarrow> 'c \<times> 'd \<Rightarrow>
   (int, gomodel) gomap go_result \<times> 'c \<times> 'd" where
  "fetchModelsByIDsInternal client_opt db info ty ttl ids s =
     (if ids = [] then (Inr [], s)
      else if \<not> isPtr ty then (Inl (Errorf ''modelType must be a pointer to struct''), s)
      else
        let (resultMap, missingIDs, c1) =
              (case client_opt of
                 None \<Rightarrow> ([], ids, fst s)
               | Some client \<Rightarrow>
                   (let (rs, c1) = cMGetModel client (fst s) (map (generateCacheKey (TableName info)) ids)
                                     (replicate (length ids) (zeroModel ty));
                        (resultMap, missingIDs) = cache_results ids rs [] []
                    in (resultMap, missingIDs, c1)))
        in if missingIDs = [] then (Inr resultMap, c1, snd s)
           else
             let (resultMap', s') = fetch_batches client_opt db info (zeroModel ty) ttl (batches ByIDBatchSize missingIDs)
                                      resultMap (c1, snd s)
             in (Inr resultMap', s'))"

definition byIDInternal ::
  "'c cache_client option \<Rightarrow> 'd db_adapter \<Rightarrow> ModelInfo \<Rightarrow> model_type \<Rightarrow> int \<Rightarrow> int \<Rightarrow> 'c \<times> 'd \<Rightarrow>
   gomodel go_result \<times> 'c \<times> 'd" where
  "byIDInternal client_opt db info ty ttl i s =
     (if i \<le> 0 then (Inl (Errorf ''invalid ID provided (must be > 0)''), s)
      else case fetchModelsByIDsInternal client_opt db info ty ttl [i] s of
        (Inl e, s') \<Rightarrow> (Inl (Wrapped ''failed to fetch model by ID'' e), s')
      | (Inr results, s') \<Rightarrow>
          (case gm_get results i of Some m \<Rightarrow> (Inr m, s') | None \<Rightarrow> (Inl ErrNotFound, s')))"

section \<open>Batches\<close>

lemma concat_batches: "0 < n \<Longrightarrow> concat (batches n xs) = xs"
proof (induction n xs rule: batches.induct)
  case (1 n xs)
  then show ?case by (subst batches.simps) simp
qed

lemma batches_bound: "b \<in> set (batches n xs) \<Longrightarrow> b \<noteq> [] \<and> length b \<le> n"
proof (induction n xs rule: batches.induct)
  case (1 n xs)
  show ?case
  proof (cases "xs = [] \<or> n = 0")
    case True
    with "1.prems" show ?thesis by (subst (asm) batches.simps) simp
  next
    case False
    with "1.prems" have "b = take n xs \<or> b \<in> set (batches n (drop n xs))" by (subst (asm) batches.simps) simp
    with "1.IH" False show ?thesis by auto
  qed
qed

lemma generateCacheKey_inj [simp]: "generateCacheKey t i = generateCacheKey t j \<longleftrightarrow> i = j"
  by (auto simp: generateCacheKey_def dest: format_int_inj)

section \<open>What the reads promise\<close>

text \<open>
  What \<open>Fetch\<close> relies on in a database: the text of a batch query, with the ids as arguments, selects
  the rows of those ids, in any order, and reading changes nothing. \<open>tbl d\<close> is the content of the
  table, by primary key.
\<close>

definition serves_rows :: "'d db_adapter \<Rightarrow> ModelInfo \<Rightarrow> gomodel \<Rightarrow> ('d \<Rightarrow> int \<Rightarrow> gomodel option) \<Rightarrow> 'd \<Rightarrow> bool" where
  "serves_rows db info zero tbl d0 \<longleftrightarrow>
     (\<forall>d ids. tbl d = tbl d0 \<and> ids \<noteq> [] \<and> length ids \<le> ByIDBatchSize \<longrightarrow>
        (\<exists>rows d'. dbSelectModels db d zero (batch_query (dbDialect db) info (length ids)) (map (VInt S64) ids) = (Inr rows, d') \<and>
           tbl d' = tbl d0 \<and> set rows = {r. \<exists>i \<in> set ids. tbl d0 i = Some r})) \<and>
     (\<forall>i r. tbl d0 i = Some r \<longrightarrow> GetID r = i \<and> i \<noteq> 0)"

lemma serves_select:
  "serves_rows db info zero tbl d0 \<Longrightarrow> tbl d = tbl d0 \<Longrightarrow> ids \<noteq> [] \<Longrightarrow> length ids \<le> ByIDBatchSize \<Longrightarrow>
   \<exists>rows d'. dbSelectModels db d zero (batch_query (dbDialect db) info (length ids)) (map (VInt S64) ids) = (Inr rows, d') \<and>
     tbl d' = tbl d0 \<and> set rows = {r. \<exists>i \<in> set ids. tbl d0 i = Some r}"
  by (simp add: serves_rows_def)

lemma serves_id: "serves_rows db info zero tbl d0 \<Longrightarrow> tbl d0 i = Some r \<Longrightarrow> GetID r = i \<and> i \<noteq> 0"
  by (simp add: serves_rows_def)

definition same_fields :: "ModelInfo \<Rightarrow> gomodel \<Rightarrow> gomodel \<Rightarrow> bool" where
  "same_fields info x r \<longleftrightarrow> (\<forall>f \<in> set (FieldNames info). FieldByName x f = FieldByName r f)"

lemma same_fields_flag:
  "''isNewRecord'' \<notin> set (FieldNames info) \<Longrightarrow> same_fields info (setNewRecordFlagIfBaseModel x b) r = same_fields info x r"
  by (auto simp: same_fields_def setNewRecordFlagIfBaseModel_def)

text \<open>
  What the reads need of a cache for models: \<open>read s k dest\<close> is what \<open>GetModel\<close> makes of the
  destination, if it succeeds; \<open>marked s k\<close> says that the marker of a missing row is stored;
  \<open>restored m fs dest\<close> is what a read after \<open>SetModel\<close> gives.
\<close>

locale model_cache =
  fixes client :: "'c cache_client"
    and read :: "'c \<Rightarrow> string \<Rightarrow> gomodel \<Rightarrow> gomodel option"
    and marked :: "'c \<Rightarrow> string \<Rightarrow> bool"
    and restored :: "gomodel \<Rightarrow> string list \<Rightarrow> gomodel \<Rightarrow> gomodel"
  assumes mget_length: "length dests = length keys \<Longrightarrow> length (fst (cMGetModel client s keys dests)) = length keys"
    and mget_value: "length dests = length keys \<Longrightarrow> i < length keys \<Longrightarrow> fst (cMGetModel client s keys dests) ! i = Inr m \<Longrightarrow>
      read s (keys ! i) (dests ! i) = Some m"
    and mget_none: "length dests = length keys \<Longrightarrow> i < length keys \<Longrightarrow> fst (cMGetModel client s keys dests) ! i = Inl e \<Longrightarrow>
      errors_is e ErrCacheNoneResult \<Longrightarrow> marked s (keys ! i)"
    and mget_read: "read (snd (cMGetModel client s keys dests)) k dest = Some m \<Longrightarrow> read s k dest = Some m"
    and mget_marked: "marked (snd (cMGetModel client s keys dests)) k \<Longrightarrow> marked s k"
    and set_model_read: "read (snd (cSetModel client s k m fs d)) j dest = Some x \<Longrightarrow>
      read s j dest = Some x \<or> j = k \<and> x = restored m fs dest"
    and set_model_marked: "marked (snd (cSetModel client s k m fs d)) j \<Longrightarrow> marked s j"
    and set_read: "read (snd (cSet client s k v d)) j dest = Some x \<Longrightarrow> read s j dest = Some x \<or> j = k \<and> v \<noteq> NoneResult"
    and set_marked: "marked (snd (cSet client s k v d)) j \<Longrightarrow> marked s j \<or> j = k \<and> v = NoneResult"
begin

text \<open>The cache agrees with the table \<open>T\<close>.\<close>

definition coherent :: "ModelInfo \<Rightarrow> gomodel \<Rightarrow> (int \<Rightarrow> gomodel option) \<Rightarrow> 'c \<Rightarrow> bool" where
  "coherent info zero T c \<longleftrightarrow>
     (\<forall>i x. read c (generateCacheKey (TableName info) i) zero = Some x \<longrightarrow> (\<exists>r. T i = Some r \<and> same_fields info x r)) \<and>
     (\<forall>i. marked c (generateCacheKey (TableName info) i) \<longrightarrow> T i = None)"

text \<open>What a result says of the ids asked for so far.\<close>

definition found_ok :: "ModelInfo \<Rightarrow> (int \<Rightarrow> gomodel option) \<Rightarrow> (int, gomodel) gomap \<Rightarrow> bool" where
  "found_ok info T res \<longleftrightarrow> (\<forall>i m. gm_get res i = Some m \<longrightarrow> (\<exists>r. T i = Some r \<and> same_fields info m r))"

lemma found_ok_set:
  "found_ok info T res \<Longrightarrow> T i = Some r \<Longrightarrow> same_fields info m r \<Longrightarrow> found_ok info T (gm_set i m res)"
  by (auto simp: found_ok_def)

lemma cache_results_ok:
  assumes "length rs = length ids" and "found_ok info T res" and flag: "''isNewRecord'' \<notin> set (FieldNames info)"
    and "\<forall>j < length ids. \<forall>m. rs ! j = Inr m \<longrightarrow> (\<exists>r. T (ids ! j) = Some r \<and> same_fields info m r)"
    and "\<forall>j < length ids. \<forall>e. rs ! j = Inl e \<longrightarrow> errors_is e ErrCacheNoneResult \<longrightarrow> T (ids ! j) = None"
    and "cache_results ids rs res missing = (res', missing')"
  shows "found_ok info T res' \<and> set missing \<subseteq> set missing' \<and> set missing' \<subseteq> set missing \<union> set ids \<and>
    (\<forall>i. gm_get res i \<noteq> None \<longrightarrow> gm_get res' i \<noteq> None) \<and>
    (\<forall>i \<in> set ids. i \<in> set missing' \<or> gm_get res' i \<noteq> None \<or> T i = None)"
  using assms
proof (induction ids arbitrary: rs res missing)
  case (Cons i ids)
  then obtain r rs' where rs: "rs = r # rs'" by (cases rs) auto
  have rest: "\<forall>j < length ids. \<forall>m. rs' ! j = Inr m \<longrightarrow> (\<exists>r. T (ids ! j) = Some r \<and> same_fields info m r)"
    "\<forall>j < length ids. \<forall>e. rs' ! j = Inl e \<longrightarrow> errors_is e ErrCacheNoneResult \<longrightarrow> T (ids ! j) = None"
    using Cons.prems(4,5) rs by auto
  have len: "length rs' = length ids" using Cons.prems(1) rs by simp
  show ?case
  proof (cases r)
    case (Inl e)
    show ?thesis
    proof (cases "errors_is e ErrCacheNoneResult")
      case True
      then have eq: "cache_results ids rs' res missing = (res', missing')" using Cons.prems(6) rs Inl by simp
      have "T i = None" using Cons.prems(5) rs Inl True by auto
      then show ?thesis using Cons.IH[OF len Cons.prems(2) flag rest eq] by auto
    next
      case False
      then have eq: "cache_results ids rs' res (missing @ [i]) = (res', missing')" using Cons.prems(6) rs Inl by simp
      then show ?thesis using Cons.IH[OF len Cons.prems(2) flag rest eq] by auto
    qed
  next
    case (Inr m)
    then obtain row where row: "T i = Some row" "same_fields info m row" using Cons.prems(4)[rule_format, of 0 m] rs by auto
    let ?res = "gm_set i (setNewRecordFlagIfBaseModel m False) res"
    have eq: "cache_results ids rs' ?res missing = (res', missing')" using Cons.prems(6) rs Inr by simp
    have fo: "found_ok info T ?res"
      by (rule found_ok_set[OF Cons.prems(2) row(1)]) (simp add: row(2) same_fields_flag[OF flag])
    have "found_ok info T res' \<and> set missing \<subseteq> set missing' \<and> set missing' \<subseteq> set missing \<union> set ids \<and>
      (\<forall>i. gm_get ?res i \<noteq> None \<longrightarrow> gm_get res' i \<noteq> None) \<and>
      (\<forall>i \<in> set ids. i \<in> set missing' \<or> gm_get res' i \<noteq> None \<or> T i = None)"
      by (rule Cons.IH[OF len fo flag rest eq])
    then show ?thesis by (auto split: if_splits)
  qed
qed auto

lemma coherent_set_model:
  assumes "coherent info zero T c" and "T i = Some r" and "same_fields info (restored m (FieldNames info) zero) r"
  shows "coherent info zero T (snd (cSetModel client c (generateCacheKey (TableName info) i) m (FieldNames info) ttl))"
  using assms set_model_read set_model_marked unfolding coherent_def by (metis generateCacheKey_inj)

lemma coherent_set_none:
  assumes "coherent info zero T c" and "T i = None"
  shows "coherent info zero T (snd (cSet client c (generateCacheKey (TableName info) i) NoneResult ttl))"
  using assms set_read set_marked unfolding coherent_def by (metis generateCacheKey_inj)

text \<open>Rows of the table survive a round trip through the cache, up to the fields of the model.\<close>

definition restores :: "ModelInfo \<Rightarrow> gomodel \<Rightarrow> (int \<Rightarrow> gomodel option) \<Rightarrow> bool" where
  "restores info zero T \<longleftrightarrow> (\<forall>i r. T i = Some r \<longrightarrow>
     same_fields info (restored (setNewRecordFlagIfBaseModel r False) (FieldNames info) zero) r)"

lemma store_rows_ok:
  assumes rows: "\<forall>m \<in> set rows. T (GetID m) = Some m \<and> GetID m \<noteq> 0"
    and "coherent info zero T c" and "restores info zero T" and flag: "''isNewRecord'' \<notin> set (FieldNames info)"
    and "found_ok info T res" and "store_rows (Some client) info ttl rows res fetched c = (res', fetched', c')"
  shows "coherent info zero T c' \<and> found_ok info T res' \<and> set fetched' = set fetched \<union> GetID ` set rows \<and>
    (\<forall>i. gm_get res i \<noteq> None \<longrightarrow> gm_get res' i \<noteq> None) \<and> (\<forall>m \<in> set rows. gm_get res' (GetID m) \<noteq> None)"
  using assms
proof (induction rows arbitrary: res fetched c)
  case (Cons m rows)
  let ?m = "setNewRecordFlagIfBaseModel m False"
  let ?c = "snd (cSetModel client c (generateCacheKey (TableName info) (GetID m)) ?m (FieldNames info) ttl)"
  have T: "T (GetID m) = Some m" "GetID m \<noteq> 0" using Cons.prems(1) by auto
  have "store_rows (Some client) info ttl rows (gm_set (GetID m) ?m res) (GetID m # fetched) ?c = (res', fetched', c')"
    using Cons.prems(6) T(2) by (simp add: Let_def)
  moreover have "coherent info zero T ?c"
    using coherent_set_model[OF Cons.prems(2) T(1)] Cons.prems(3) T(1) by (auto simp: restores_def)
  moreover have "found_ok info T (gm_set (GetID m) ?m res)"
    using found_ok_set[OF Cons.prems(5) T(1), of ?m] same_fields_flag[OF flag] by (simp add: same_fields_def)
  ultimately have "coherent info zero T c' \<and> found_ok info T res' \<and>
      set fetched' = set (GetID m # fetched) \<union> GetID ` set rows \<and>
      (\<forall>i. gm_get (gm_set (GetID m) ?m res) i \<noteq> None \<longrightarrow> gm_get res' i \<noteq> None) \<and>
      (\<forall>m \<in> set rows. gm_get res' (GetID m) \<noteq> None)"
    using Cons.IH Cons.prems(1,3) flag by simp
  then show ?case by (auto split: if_splits)
qed auto

lemma store_none_ok:
  "coherent info zero T c \<Longrightarrow> (\<forall>i \<in> set ids. i \<notin> set fetched \<longrightarrow> T i = None) \<Longrightarrow>
   coherent info zero T (store_none client info ttl fetched ids c)"
  by (induction ids arbitrary: c) (auto simp: coherent_set_none)

lemma fetch_batches_ok:
  assumes db: "serves_rows db info zero tbl d0" and "restores info zero (tbl d0)"
    and flag: "''isNewRecord'' \<notin> set (FieldNames info)"
    and "\<forall>b \<in> set bs. b \<noteq> [] \<and> length b \<le> ByIDBatchSize" and "tbl d = tbl d0"
    and "coherent info zero (tbl d0) c" and "found_ok info (tbl d0) res"
    and "fetch_batches (Some client) db info zero ttl bs res (c, d) = (res', c', d')"
  shows "coherent info zero (tbl d0) c' \<and> tbl d' = tbl d0 \<and> found_ok info (tbl d0) res' \<and>
    (\<forall>i. gm_get res i \<noteq> None \<longrightarrow> gm_get res' i \<noteq> None) \<and>
    (\<forall>i \<in> set (concat bs). tbl d0 i \<noteq> None \<longrightarrow> gm_get res' i \<noteq> None)"
  using assms
proof (induction bs arbitrary: res c d)
  case (Cons b bs)
  have "b \<noteq> []" "length b \<le> ByIDBatchSize" using Cons.prems(4) by auto
  from serves_select[OF db Cons.prems(5) this]
  obtain rows d1 where sel: "dbSelectModels db d zero (batch_query (dbDialect db) info (length b)) (map (VInt S64) b) = (Inr rows, d1)"
    and d1: "tbl d1 = tbl d0" and rows: "set rows = {r. \<exists>i \<in> set b. tbl d0 i = Some r}"
    by blast
  have ids: "tbl d0 (GetID m) = Some m \<and> GetID m \<noteq> 0" if "m \<in> set rows" for m
    using that rows serves_id[OF db] by auto
  obtain res1 fetched c1 where st: "store_rows (Some client) info ttl rows res [] c = (res1, fetched, c1)"
    using prod_cases3 by blast
  have one: "coherent info zero (tbl d0) c1" "found_ok info (tbl d0) res1" "set fetched = GetID ` set rows"
      "\<forall>i. gm_get res i \<noteq> None \<longrightarrow> gm_get res1 i \<noteq> None" "\<forall>m \<in> set rows. gm_get res1 (GetID m) \<noteq> None"
    using store_rows_ok[OF _ Cons.prems(6,2) flag Cons.prems(7) st] ids by auto
  have row: "r \<in> set rows \<and> GetID r = i" if "i \<in> set b" "tbl d0 i = Some r" for i r
    using rows that serves_id[OF db] by auto
  have none: "\<forall>i \<in> set b. i \<notin> set fetched \<longrightarrow> tbl d0 i = None"
    using one(3) row by (metis image_eqI not_None_eq)
  have rest: "fetch_batches (Some client) db info zero ttl bs res1 (store_none client info ttl fetched b c1, d1) = (res', c', d')"
    using Cons.prems(8) sel st by simp
  have "coherent info zero (tbl d0) c' \<and> tbl d' = tbl d0 \<and> found_ok info (tbl d0) res' \<and>
      (\<forall>i. gm_get res1 i \<noteq> None \<longrightarrow> gm_get res' i \<noteq> None) \<and>
      (\<forall>i \<in> set (concat bs). tbl d0 i \<noteq> None \<longrightarrow> gm_get res' i \<noteq> None)"
    using Cons.IH[OF db Cons.prems(2) flag _ d1 store_none_ok[OF one(1) none] one(2) rest] Cons.prems(4) by simp
  moreover have "gm_get res1 i \<noteq> None" if "i \<in> set b" "tbl d0 i \<noteq> None" for i
    using one(5) row that by (metis not_None_eq)
  ultimately show ?case using one(4) by auto
qed auto

text \<open>
  Reading through a coherent cache gives the rows of the table, for every id asked for and no
  other, and leaves the cache coherent.
\<close>

lemma fetch_ok:
  assumes db: "serves_rows db info (zeroModel ty) tbl d" and res: "restores info (zeroModel ty) (tbl d)"
    and flag: "''isNewRecord'' \<notin> set (FieldNames info)" and "isPtr ty"
    and coh: "coherent info (zeroModel ty) (tbl d) c"
    and fetch: "fetchModelsByIDsInternal (Some client) db info ty ttl ids (c, d) = (r, c', d')"
  shows "\<exists>result. r = Inr result \<and> coherent info (zeroModel ty) (tbl d) c' \<and> tbl d' = tbl d \<and> found_ok info (tbl d) result \<and>
    (\<forall>i \<in> set ids. tbl d i \<noteq> None \<longrightarrow> gm_get result i \<noteq> None)"
proof (cases "ids = []")
  case True
  with fetch coh show ?thesis by (auto simp: fetchModelsByIDsInternal_def found_ok_def)
next
  case False
  let ?zero = "zeroModel ty"
  let ?keys = "map (generateCacheKey (TableName info)) ids" and ?dests = "replicate (length ids) ?zero"
  obtain rs c1 where mget: "cMGetModel client c ?keys ?dests = (rs, c1)" by (cases "cMGetModel client c ?keys ?dests")
  obtain res1 missing where cr: "cache_results ids rs [] [] = (res1, missing)" by (cases "cache_results ids rs [] []")
  have len: "length rs = length ids" using mget_length[of ?dests ?keys c] mget by simp
  have coh1: "coherent info ?zero (tbl d) c1"
    using coh mget_read[of c ?keys ?dests] mget_marked[of c ?keys ?dests] mget unfolding coherent_def by fastforce
  have vals: "\<forall>j < length ids. \<forall>m. rs ! j = Inr m \<longrightarrow> (\<exists>r. tbl d (ids ! j) = Some r \<and> same_fields info m r)"
    using mget_value[of ?dests ?keys _ c] mget coh by (fastforce simp: coherent_def)
  have nones: "\<forall>j < length ids. \<forall>e. rs ! j = Inl e \<longrightarrow> errors_is e ErrCacheNoneResult \<longrightarrow> tbl d (ids ! j) = None"
    using mget_none[of ?dests ?keys _ c] mget coh by (fastforce simp: coherent_def)
  have c1: "found_ok info (tbl d) res1" "\<forall>i \<in> set ids. i \<in> set missing \<or> gm_get res1 i \<noteq> None \<or> tbl d i = None"
    using cache_results_ok[OF len _ flag vals nones cr] by (auto simp: found_ok_def)
  show ?thesis
  proof (cases "missing = []")
    case True
    with fetch False assms(4) mget cr have "r = Inr res1" "c' = c1" "d' = d"
      by (auto simp: fetchModelsByIDsInternal_def)
    with c1 coh1 True show ?thesis by auto
  next
    case miss: False
    obtain res2 c2 d2 where fb: "fetch_batches (Some client) db info ?zero ttl (batches ByIDBatchSize missing) res1 (c1, d) = (res2, c2, d2)"
      using prod_cases3 by blast
    with fetch False assms(4) mget cr miss have out: "r = Inr res2" "c' = c2" "d' = d2"
      by (auto simp: fetchModelsByIDsInternal_def)
    have "coherent info ?zero (tbl d) c2 \<and> tbl d2 = tbl d \<and> found_ok info (tbl d) res2 \<and>
        (\<forall>i. gm_get res1 i \<noteq> None \<longrightarrow> gm_get res2 i \<noteq> None) \<and>
        (\<forall>i \<in> set (concat (batches ByIDBatchSize missing)). tbl d i \<noteq> None \<longrightarrow> gm_get res2 i \<noteq> None)"
      using fetch_batches_ok[OF db res flag _ refl coh1 c1(1) fb] batches_bound by blast
    then show ?thesis using out c1(2) by (auto simp: concat_batches ByIDBatchSize_def)
  qed
qed

end

section \<open>Reading through the local cache\<close>

definition local_read :: "localCache \<Rightarrow> string \<Rightarrow> gomodel \<Rightarrow> gomodel option" where
  "local_read c k dest = (case lcview c k of Some (CModel dm) \<Rightarrow> Some (populate dest dm) | _ \<Rightarrow> None)"

definition local_marked :: "localCache \<Rightarrow> string \<Rightarrow> bool" where
  "local_marked c k \<longleftrightarrow> lcview c k = Some (CString NoneResult)"

definition local_restored :: "gomodel \<Rightarrow> string list \<Rightarrow> gomodel \<Rightarrow> gomodel" where
  "local_restored m fs dest = (case gob_model (select_fields m fs) of Some dm \<Rightarrow> populate dest dm | None \<Rightarrow> dest)"

lemma lcMGetModel_view [simp]: "lcview (snd (lcMGetModel c keys dests)) = lcview c"
proof (induction keys arbitrary: c dests)
  case (Cons k keys)
  show ?case
  proof (cases dests)
    case (Cons d ds)
    obtain r c1 where one: "lcGetModel c k d = (r, c1)" by (cases "lcGetModel c k d")
    then have "lcview c1 = lcview c" using lcview_reads(2)[of c k d] by simp
    then show ?thesis using Cons.IH[of c1 ds] one Cons by (cases "lcMGetModel c1 keys ds") simp
  qed simp
qed simp

lemma lcMGetModel_results:
  "length dests = length keys \<Longrightarrow>
   fst (lcMGetModel c keys dests) = map2 (\<lambda>k d. fst (lcGetModel c k d)) keys dests"
proof (induction keys arbitrary: c dests)
  case (Cons k keys)
  then obtain d ds where ds: "dests = d # ds" by (cases dests) auto
  obtain r c1 where one: "lcGetModel c k d = (r, c1)" by (cases "lcGetModel c k d")
  then have "lcview c1 = lcview c" using lcview_reads(2)[of c k d] by simp
  then have "fst (lcGetModel c1 k' d') = fst (lcGetModel c k' d')" for k' d' by (simp add: lcGetModel_result)
  then show ?case using Cons.IH[of ds c1] Cons.prems ds one by (cases "lcMGetModel c1 keys ds") simp
qed simp

lemma lcSet_view:
  "lcview (snd (lcSet c k v d)) = lcview c \<or> lcview (snd (lcSet c k v d)) = (lcview c)(k \<mapsto> CString v)"
  by (auto simp: lcSet_def Let_def)

interpretation lcm: model_cache localClient local_read local_marked local_restored
proof
  fix s keys and dests :: "gomodel list" and i e k d j x v fs and m dest :: gomodel
  note [simp] = localClient_def local_read_def local_marked_def
  show "length dests = length keys \<Longrightarrow> length (fst (cMGetModel localClient s keys dests)) = length keys"
    by (simp add: lcMGetModel_results)
  show "length dests = length keys \<Longrightarrow> i < length keys \<Longrightarrow> fst (cMGetModel localClient s keys dests) ! i = Inr m \<Longrightarrow>
      local_read s (keys ! i) (dests ! i) = Some m"
    by (auto simp: lcMGetModel_results lcGetModel_result split: option.splits cache_value.splits)
  show "length dests = length keys \<Longrightarrow> i < length keys \<Longrightarrow> fst (cMGetModel localClient s keys dests) ! i = Inl e \<Longrightarrow>
      errors_is e ErrCacheNoneResult \<Longrightarrow> local_marked s (keys ! i)"
    by (auto simp: lcMGetModel_results lcGetModel_result split: option.splits cache_value.splits)
  show "local_read (snd (cMGetModel localClient s keys dests)) k dest = Some m \<Longrightarrow> local_read s k dest = Some m"
    by simp
  show "local_marked (snd (cMGetModel localClient s keys dests)) k \<Longrightarrow> local_marked s k"
    by simp
  show "local_read (snd (cSetModel localClient s k m fs d)) j dest = Some x \<Longrightarrow>
      local_read s j dest = Some x \<or> j = k \<and> x = local_restored m fs dest"
    by (auto simp: lcview_lcSetModel local_restored_def split: option.splits if_splits cache_value.splits)
  show "local_marked (snd (cSetModel localClient s k m fs d)) j \<Longrightarrow> local_marked s j"
    by (auto simp: lcview_lcSetModel split: option.splits if_splits)
  show "local_read (snd (cSet localClient s k v d)) j dest = Some x \<Longrightarrow> local_read s j dest = Some x \<or> j = k \<and> v \<noteq> NoneResult"
    using lcSet_view[of s k v d] by (auto split: option.splits if_splits cache_value.splits)
  show "local_marked (snd (cSet localClient s k v d)) j \<Longrightarrow> local_marked s j \<or> j = k \<and> v = NoneResult"
    using lcSet_view[of s k v d] by (auto split: if_splits)
qed

text \<open>Rows whose fields hold plain values of the model's field types.\<close>

definition plain_rows :: "ModelInfo \<Rightarrow> gomodel \<Rightarrow> (int \<Rightarrow> gomodel option) \<Rightarrow> bool" where
  "plain_rows info zero T \<longleftrightarrow> ''isNewRecord'' \<notin> set (FieldNames info) \<and>
     (\<forall>i r. T i = Some r \<longrightarrow> (\<forall>f \<in> set (FieldNames info). \<exists>v w. FieldByName r f = Some v \<and> gob_plain v \<and>
        FieldByName zero f = Some w \<and> type_of w = type_of v))"

lemma lcview_empty: "lcview emptyLocalCache k = None"
  by (simp add: lcview_def emptyLocalCache_def)

lemma local_restores: "plain_rows info zero T \<Longrightarrow> lcm.restores info zero T"
  unfolding lcm.restores_def same_fields_def
proof (intro allI impI ballI)
  fix i r f
  assume plain: "plain_rows info zero T" and r: "T i = Some r" and f: "f \<in> set (FieldNames info)"
  let ?m = "setNewRecordFlagIfBaseModel r False" and ?fs = "FieldNames info"
  have eq: "FieldByName ?m g = FieldByName r g" if "g \<in> set ?fs" for g
    using that plain by (auto simp: setNewRecordFlagIfBaseModel_def plain_rows_def)
  have "\<forall>f \<in> set ?fs. \<exists>v w. FieldByName ?m f = Some v \<and> gob_plain v \<and> FieldByName zero f = Some w \<and> type_of w = type_of v"
    using plain r eq by (simp add: plain_rows_def)
  from model_cache_stored[OF this, of emptyLocalCache "[]" 0] f eq[OF f]
  show "FieldByName (local_restored ?m ?fs zero) f = FieldByName r f"
    by (auto simp: lcGetModel_result lcview_lcSetModel local_restored_def lcview_empty split: option.splits)
qed


text \<open>A database that is the list of the rows of one table, for examples.\<close>

definition list_table :: "gomodel list \<Rightarrow> int \<Rightarrow> gomodel option" where
  "list_table d i = find (\<lambda>r. GetID r = i) d"

definition list_db :: "ModelInfo \<Rightarrow> gomodel list db_adapter" where
  "list_db info =
     \<lparr>dbDialect = SQLiteDialector,
      dbGet = (\<lambda>d m q args. (Inl ErrNotFound, d)),
      dbSelectModels = (\<lambda>d m q args.
        if q = batch_query SQLiteDialector info (length args)
        then (Inr (concat (map (\<lambda>a. case a of VInt _ i \<Rightarrow> (case list_table d i of Some r \<Rightarrow> [r] | None \<Rightarrow> []) | _ \<Rightarrow> []) args)), d) else (Inl (Errorf ''syntax''), d)),
      dbSelectIDs = (\<lambda>d q args. (Inl (Errorf ''syntax''), d)),
      dbExec = (\<lambda>d q args. (Inl (Errorf ''syntax''), d)),
      dbGetCount = (\<lambda>d t w args. (Inl (Errorf ''syntax''), d)),
      dbBeginTx = (\<lambda>d. (Inr (), d)),
      txGet = (\<lambda>d m q args. (Inl ErrNotFound, d)),
      txExec = (\<lambda>d q args. (Inl (Errorf ''syntax''), d)),
      txCommit = (\<lambda>d. (Inr (), d)), txRollback = (\<lambda>d. (Inr (), d))\<rparr>"

lemma list_table_Some: "list_table d i = Some r \<Longrightarrow> r \<in> set d \<and> GetID r = i"
  by (auto simp: list_table_def find_Some_iff)

lemma list_db_serves: "list_table d 0 = None \<Longrightarrow> serves_rows (list_db info) info zero list_table d"
  by (auto simp: serves_rows_def list_db_def dest: list_table_Some split: option.splits)

definition person_info :: ModelInfo where
  "person_info = \<lparr>TableName = ''users'', PkName = ''id'', Columns = [''id'', ''name''], FieldNames = [''ID'', ''Name''],
     FieldToColumnMap = [(''ID'', ''id''), (''Name'', ''name'')], ColumnToFieldMap = [(''id'', ''ID''), (''name'', ''Name'')],
     CompareFields = [\<lparr>GoName = ''ID'', DBColumn = ''id'', IgnoreInDiff = False\<rparr>, \<lparr>GoName = ''Name'', DBColumn = ''name'', IgnoreInDiff = False\<rparr>],
     HasCustomKeepItem = False\<rparr>"

definition person_row :: "int \<Rightarrow> string \<Rightarrow> gomodel" where
  "person_row i n = [(''ID'', VInt S64 i), (''Name'', VString n)]"

definition person_type :: model_type where
  "person_type = \<lparr>isPtr = True, zeroModel = person_row 0 []\<rparr>"

definition person_rows :: "gomodel list" where
  "person_rows = [person_row 1 ''ann'', person_row 2 ''bob'']"

lemma person_rows_plain: "plain_rows person_info (zeroModel person_type) (list_table person_rows)"
  by (auto simp: plain_rows_def person_info_def person_type_def person_row_def person_rows_def gob_plain_def
      dest!: list_table_Some)

lemma empty_coherent: "lcm.coherent info zero T emptyLocalCache"
  by (simp add: lcm.coherent_def local_read_def local_marked_def lcview_empty)


end
