(* ===== verification/Hooks.thy ===== *)
theory Hooks
  imports Go_Values
begin

text \<open>
  Event listeners: \<^verbatim>\<open>hooks.go\<close>. A listener is a function with a code pointer; it may change the
  model it is called with and a state of its own, the type \<open>'h\<close>, and returns nil or an error.
  Listeners that call back into the ORM are outside the model.
\<close>

datatype EventType =
    EventTypeBeforeSave | EventTypeAfterSave | EventTypeBeforeCreate | EventTypeAfterCreate
  | EventTypeBeforeDelete | EventTypeAfterDelete | EventTypeBeforeSoftDelete | EventTypeAfterSoftDelete

type_synonym event_data = "(string, goval) gomap option"

record 'h EventListener =
  fpointer :: nat
  call :: "EventType \<Rightarrow> gomodel \<Rightarrow> event_data \<Rightarrow> 'h \<Rightarrow> unit go_result \<times> gomodel \<times> 'h"

type_synonym 'h registry = "(EventType, 'h EventListener list) gomap"

definition listeners_of :: "'h registry \<Rightarrow> EventType \<Rightarrow> 'h EventListener list" where
  "listeners_of reg ev = (case gm_get reg ev of None \<Rightarrow> [] | Some ls \<Rightarrow> ls)"

definition RegisterListener :: "EventType \<Rightarrow> 'h EventListener \<Rightarrow> 'h registry \<Rightarrow> 'h registry" where
  "RegisterListener ev l reg = gm_set ev (listeners_of reg ev @ [l]) reg"

text \<open>The listener removed is the first with the same code pointer.\<close>

fun remove_listener :: "nat \<Rightarrow> 'h EventListener list \<Rightarrow> 'h EventListener list option" where
  "remove_listener p [] = None"
| "remove_listener p (l # ls) = (if fpointer l = p then Some ls else map_option ((#) l) (remove_listener p ls))"

definition UnregisterListener :: "EventType \<Rightarrow> 'h EventListener \<Rightarrow> 'h registry \<Rightarrow> 'h registry" where
  "UnregisterListener ev l reg =
     (case gm_get reg ev of
        None \<Rightarrow> reg
      | Some ls \<Rightarrow>
          (case remove_listener (fpointer l) ls of None \<Rightarrow> reg | Some ls' \<Rightarrow> gm_set ev ls' reg))"

definition ResetListeners :: "'h registry \<Rightarrow> 'h registry" where
  "ResetListeners reg = []"

fun run_listeners ::
  "'h EventListener list \<Rightarrow> EventType \<Rightarrow> event_data \<Rightarrow> gomodel \<Rightarrow> 'h \<Rightarrow> unit go_result \<times> gomodel \<times> 'h" where
  "run_listeners [] ev d m h = (Inr (), m, h)"
| "run_listeners (l # ls) ev d m h =
     (case call l ev m d h of
        (Inl e, m', h') \<Rightarrow> (Inl (Wrapped ''event listener failed'' e), m', h')
      | (Inr _, m', h') \<Rightarrow> run_listeners ls ev d m' h')"

definition triggerEvent ::
  "'h registry \<Rightarrow> EventType \<Rightarrow> gomodel \<Rightarrow> event_data \<Rightarrow> 'h \<Rightarrow> unit go_result \<times> gomodel \<times> 'h" where
  "triggerEvent reg ev m d h = run_listeners (listeners_of reg ev) ev d m h"

section \<open>Order and errors\<close>

lemma run_listeners_append:
  "run_listeners (ls @ ks) ev d m h =
     (case run_listeners ls ev d m h of (Inl e, r) \<Rightarrow> (Inl e, r) | (Inr _, m', h') \<Rightarrow> run_listeners ks ev d m' h')"
  by (induction ls arbitrary: m h) (auto split: sum.splits prod.splits)

lemma listeners_of_set [simp]: "listeners_of (gm_set ev ls reg) e = (if e = ev then ls else listeners_of reg e)"
  by (simp add: listeners_of_def)

lemma remove_last:
  "list_all (\<lambda>k. fpointer k \<noteq> fpointer l) ls \<Longrightarrow> remove_listener (fpointer l) (ls @ [l]) = Some ls"
  by (induction ls) auto

text \<open>
  C23: listeners run in the order they were registered. A listener registered last runs after all
  the others of its event, on the model and the state they left, and only if none of them
  failed; other events are not affected. Unregistering it restores every event, provided its
  code was not registered before.
\<close>

theorem listener_runs_last:
  assumes "list_all (\<lambda>k. fpointer k \<noteq> fpointer l) (listeners_of reg ev)"
  shows "triggerEvent (RegisterListener ev l reg) e m d h =
      (if e \<noteq> ev then triggerEvent reg e m d h
       else case triggerEvent reg ev m d h of
         (Inl err, r) \<Rightarrow> (Inl err, r)
       | (Inr _, m', h') \<Rightarrow>
           (case call l ev m' d h' of
              (Inl err, r) \<Rightarrow> (Inl (Wrapped ''event listener failed'' err), r)
            | (Inr _, r) \<Rightarrow> (Inr (), r))) \<and>
    triggerEvent (UnregisterListener ev l (RegisterListener ev l reg)) e m d h = triggerEvent reg e m d h"
  using remove_last[OF assms]
  by (auto simp: triggerEvent_def RegisterListener_def UnregisterListener_def run_listeners_append
      split: sum.splits prod.splits)

definition reject_all :: "nat EventListener" where
  "reject_all = \<lparr>fpointer = 7, call = (\<lambda>ev m d h. (Inl (Errorf ''no''), m, Suc h))\<rparr>"

theorem listener_runs_last_witness:
  "triggerEvent (RegisterListener EventTypeBeforeSave reject_all []) EventTypeBeforeSave [] None 0 =
     (Inl (Wrapped ''event listener failed'' (Errorf ''no'')), [], 1) \<and>
   triggerEvent (UnregisterListener EventTypeBeforeSave reject_all (RegisterListener EventTypeBeforeSave reject_all []))
     EventTypeBeforeSave [] None 0 = (Inr (), [], 0)"
  using listener_runs_last[of reject_all "[]" EventTypeBeforeSave EventTypeBeforeSave "[]" None 0]
  by (simp add: listeners_of_def triggerEvent_def reject_all_def)

end
