(* ===== verification/Crud.thy ===== *)
theory Crud
  imports Fetch_Models Invalidation Hooks
begin

text \<open>
  Saving and deleting: \<^verbatim>\<open>crud.go\<close>, with \<open>FindChangedFieldsSimple\<close> of \<^verbatim>\<open>internal/utils/diff.go\<close>.

  A \<open>thing\<close> holds what a \<open>Thing[T]\<close> holds and the globals its methods read: cache client, database
  adapter, model type, time to live, listeners, and \<open>tnow\<close>, the successive results of \<open>time.Now\<close>. The
  \<open>world\<close> is what they change: cache, database, query index, listener state and the number of times
  the clock was read. A model is passed as a pointer, \<open>None\<close> for nil, and its value after the call is
  returned with the result. Model types embed \<open>BaseModel\<close>, so that \<open>SetID\<close> exists.

  A function without an error result in Go returns a \<open>go_result\<close> here only to let a panic through.
\<close>

section \<open>State\<close>

record ('c, 'd, 'h) thing =
  tcache :: "'c cache_client option"
  tdb :: "'d db_adapter option"
  tclass :: model_class
  ttype :: model_type
  tttl :: int
  tcanceled :: "nat \<Rightarrow> bool"
  tfmt :: "goval \<Rightarrow> string"
  tlisteners :: "'h registry"
  tnow :: "nat \<Rightarrow> goval"

record ('c, 'd, 'h) world =
  wcache :: 'c
  wdb :: 'd
  windex :: CacheIndex
  whook :: 'h
  wtick :: nat

abbreviation tinfo :: "('c, 'd, 'h) thing \<Rightarrow> ModelInfo" where
  "tinfo t \<equiv> minfo (tclass t)"

definition fire ::
  "('c, 'd, 'h) thing \<Rightarrow> EventType \<Rightarrow> gomodel \<Rightarrow> event_data \<Rightarrow> ('c, 'd, 'h) world \<Rightarrow> unit go_result \<times> gomodel \<times> ('c, 'd, 'h) world" where
  "fire t ev m d w = (case triggerEvent (tlisteners t) ev m d (whook w) of (r, m', h) \<Rightarrow> (r, m', w\<lparr>whook := h\<rparr>))"

record 'd sqlExecutor =
  exGet :: "'d \<Rightarrow> gomodel \<Rightarrow> string \<Rightarrow> goval list \<Rightarrow> gomodel go_result \<times> 'd"
  exExec :: "'d \<Rightarrow> string \<Rightarrow> goval list \<Rightarrow> exec_result go_result \<times> 'd"

definition db_executor :: "'d db_adapter \<Rightarrow> 'd sqlExecutor" where
  "db_executor db = \<lparr>exGet = dbGet db, exExec = dbExec db\<rparr>"

definition tx_executor :: "'d db_adapter \<Rightarrow> 'd sqlExecutor" where
  "tx_executor db = \<lparr>exGet = txGet db, exExec = txExec db\<rparr>"

record saveMutation =
  mvalue :: gomodel
  moriginal :: "gomodel option"
  misNew :: bool
  mchanged :: event_data
  mapplied :: bool

section \<open>What changed\<close>

definition diff_step :: "gomodel \<Rightarrow> gomodel \<Rightarrow> (string, goval) gomap \<Rightarrow> ComparableFieldInfo \<Rightarrow> (string, goval) gomap" where
  "diff_step original updated changed f =
     (case (FieldByName original (GoName f), FieldByName updated (GoName f)) of
        (Some oField, Some uField) \<Rightarrow> if deep_eq oField uField then changed else gm_set (DBColumn f) uField changed
      | _ \<Rightarrow> changed)"

definition FindChangedFieldsSimple :: "ModelInfo \<Rightarrow> gomodel \<Rightarrow> gomodel \<Rightarrow> (string, goval) gomap" where
  "FindChangedFieldsSimple info original updated =
     foldl (diff_step original updated) []
       (filter (\<lambda>f. \<not> (IgnoreInDiff f \<or> DBColumn f = PkName info)) (CompareFields info))"

definition sliceContains :: "string list \<Rightarrow> string \<Rightarrow> bool" where
  "sliceContains slice item = list_ex (\<lambda>s. s = item) slice"

section \<open>Create\<close>

text \<open>Columns and values of the INSERT. A field without a column has the empty column name.\<close>

definition field_pairs :: "ModelInfo \<Rightarrow> gomodel \<Rightarrow> (string \<times> goval) list" where
  "field_pairs info value =
     concat (map (\<lambda>fieldName.
        let colName = (case gm_get (FieldToColumnMap info) fieldName of Some c \<Rightarrow> c | None \<Rightarrow> [])
        in if colName = PkName info then []
           else case FieldByName value fieldName of None \<Rightarrow> [] | Some v \<Rightarrow> [(colName, v)]) (FieldNames info))"

definition insert_pairs :: "ModelInfo \<Rightarrow> gomodel \<Rightarrow> goval \<Rightarrow> (string \<times> goval) list" where
  "insert_pairs info value nowT =
     (let pairs = field_pairs info value
      in case gm_get (FieldToColumnMap info) ''UpdatedAt'' of
           None \<Rightarrow> pairs
         | Some col \<Rightarrow>
             if sliceContains (map fst pairs) col then pairs
             else pairs @ [(col, case FieldByName value ''UpdatedAt'' of Some v \<Rightarrow> v | None \<Rightarrow> nowT)])"

definition save_create ::
  "('c, 'd, 'h) thing \<Rightarrow> 'd db_adapter \<Rightarrow> 'd sqlExecutor \<Rightarrow> gomodel \<Rightarrow> goval \<Rightarrow> ('c, 'd, 'h) world \<Rightarrow>
   saveMutation go_result \<times> gomodel \<times> ('c, 'd, 'h) world" where
  "save_create t db executor value nowT w =
     (case fire t EventTypeBeforeCreate value None w of
        (Inl e, v, w1) \<Rightarrow> (Inl (Wrapped ''BeforeCreate hook failed'' e), v, w1)
      | (Inr _, v0, w1) \<Rightarrow>
          (let v = setUpdatedAtTimestamp (setCreatedAtTimestamp v0 nowT) nowT;
               pairs = insert_pairs (tinfo t) v nowT
           in if pairs = [] then (Inl (Errorf ''no columns to insert''), v, w1)
              else case exExec executor (wdb w1) (BuildInsertSQL (dbDialect db) (TableName (tinfo t)) (map fst pairs)) (map snd pairs) of
                (Inl e, d) \<Rightarrow> (Inl (Wrapped ''database save operation failed'' e), v, w1\<lparr>wdb := d\<rparr>)
              | (Inr res, d) \<Rightarrow>
                  (let v' = (if FieldByName v ''ID'' = None then v
                             else setNewRecordFlagIfBaseModel
                               (case LastInsertId res of Inl _ \<Rightarrow> v | Inr i \<Rightarrow> SetID i v) False)
                   in (Inr \<lparr>mvalue = v', moriginal = None, misNew = True, mchanged = None, mapplied = True\<rparr>, v', w1\<lparr>wdb := d\<rparr>))))"

section \<open>Update\<close>

definition original_query :: "Dialector \<Rightarrow> ModelInfo \<Rightarrow> string" where
  "original_query b info =
     BuildSelectSQL b (TableName info) (Columns info) @ '' WHERE '' @ [CHR 0x22] @ PkName info @ [CHR 0x22] @ '' = ?''"

definition getOriginalForSave ::
  "('c, 'd, 'h) thing \<Rightarrow> 'd db_adapter \<Rightarrow> 'd sqlExecutor \<Rightarrow> int \<Rightarrow> gomodel \<Rightarrow> ('c, 'd, 'h) world \<Rightarrow>
   gomodel go_result \<times> ('c, 'd, 'h) world" where
  "getOriginalForSave t db executor i dest w =
     (case exGet executor (wdb w) dest (original_query (dbDialect db) (tinfo t)) [VInt S64 i] of
        (r, d) \<Rightarrow> (r, w\<lparr>wdb := d\<rparr>))"

definition read_original ::
  "('c, 'd, 'h) thing \<Rightarrow> 'd db_adapter \<Rightarrow> 'd sqlExecutor \<Rightarrow> bool \<Rightarrow> int \<Rightarrow> ('c, 'd, 'h) world \<Rightarrow>
   gomodel \<times> ('c, 'd, 'h) world" where
  "read_original t db executor fromExecutor i w =
     (let (r, w') = (if fromExecutor then getOriginalForSave t db executor i (zeroModel (ttype t)) w
                     else case byIDInternal (tcache t) db (tinfo t) (ttype t) (tttl t) i (wcache w, wdb w) of
                       (r, c, d) \<Rightarrow> (r, w\<lparr>wcache := c, wdb := d\<rparr>))
      in (case r of Inl _ \<Rightarrow> zeroModel (ttype t) | Inr m \<Rightarrow> m, w'))"

definition updatedAtCol :: "ModelInfo \<Rightarrow> string option" where
  "updatedAtCol info = gm_get (FieldToColumnMap info) ''UpdatedAt''"

definition changed_for_update :: "ModelInfo \<Rightarrow> gomodel \<Rightarrow> gomodel \<Rightarrow> (string, goval) gomap" where
  "changed_for_update info original value =
     (let changed = FindChangedFieldsSimple info original value
      in case updatedAtCol info of None \<Rightarrow> changed | Some col \<Rightarrow> gm_del col changed)"

definition with_updated_at :: "ModelInfo \<Rightarrow> gomodel \<Rightarrow> (string, goval) gomap \<Rightarrow> (string, goval) gomap" where
  "with_updated_at info value changed =
     (case (updatedAtCol info, FieldByName value ''UpdatedAt'') of
        (Some col, Some v) \<Rightarrow> gm_set col v changed | _ \<Rightarrow> changed)"

definition save_update ::
  "('c, 'd, 'h) thing \<Rightarrow> 'd db_adapter \<Rightarrow> 'd sqlExecutor \<Rightarrow> bool \<Rightarrow> gomodel \<Rightarrow> int \<Rightarrow> goval \<Rightarrow> ('c, 'd, 'h) world \<Rightarrow>
   saveMutation go_result \<times> gomodel \<times> ('c, 'd, 'h) world" where
  "save_update t db executor fromExecutor value i nowT w =
     (let (original, w1) = read_original t db executor fromExecutor i w;
          changed = changed_for_update (tinfo t) original value
      in if changed = []
         then (Inr \<lparr>mvalue = value, moriginal = Some original, misNew = False, mchanged = None, mapplied = False\<rparr>, value, w1)
         else
           let v = setUpdatedAtTimestamp value nowT;
               changedFields = with_updated_at (tinfo t) v changed;
               query = BuildUpdateSQL (dbDialect db) (TableName (tinfo t)) (map (\<lambda>(col, _). set_clause col) changedFields)
                         (PkName (tinfo t))
           in case exExec executor (wdb w1) query (map snd changedFields @ [VInt S64 i]) of
                (Inl e, d) \<Rightarrow> (Inl (Wrapped ''database save operation failed'' e), v, w1\<lparr>wdb := d\<rparr>)
              | (Inr res, d) \<Rightarrow>
                  (let v' = (if FieldByName v ''ID'' = None then v else setNewRecordFlagIfBaseModel v False)
                   in (Inr \<lparr>mvalue = v', moriginal = Some original, misNew = False, mchanged = Some changedFields, mapplied = True\<rparr>,
                       v', w1\<lparr>wdb := d\<rparr>)))"

section \<open>Save\<close>

text \<open>
  The id that decides between create and update is read before the hooks run. A hook may set the
  id of the model, so an update after a hook still uses the id read here.
\<close>

definition saveWithExecutor ::
  "('c, 'd, 'h) thing \<Rightarrow> 'd sqlExecutor option \<Rightarrow> gomodel option \<Rightarrow> bool \<Rightarrow> ('c, 'd, 'h) world \<Rightarrow>
   saveMutation go_result \<times> gomodel option \<times> ('c, 'd, 'h) world" where
  "saveWithExecutor t executor_opt value_opt fromExecutor w =
     (case (tdb t, tcache t, executor_opt, value_opt) of
        (Some db, Some _, Some executor, Some value) \<Rightarrow>
          (let i = GetID value; isNew = (i = 0); nowT = tnow t (wtick w); w0 = w\<lparr>wtick := Suc (wtick w)\<rparr>
           in case fire t EventTypeBeforeSave (setNewRecordFlagIfBaseModel value isNew) None w0 of
                (Inl e, v, w1) \<Rightarrow> (Inl (Wrapped ''BeforeSave hook failed'' e), Some v, w1)
              | (Inr _, v, w1) \<Rightarrow>
                  (let (r, v', w2) = (if isNew then save_create t db executor v nowT w1
                                      else save_update t db executor fromExecutor v i nowT w1)
                   in (r, Some v', w2)))
      | (Some _, Some _, Some _, None) \<Rightarrow> (Inl (Errorf ''saveInternal: value (model pointer) is nil''), None, w)
      | (Some _, Some _, None, _) \<Rightarrow> (Inl (Errorf ''saveWithExecutor: executor is nil''), value_opt, w)
      | _ \<Rightarrow> (Inl (Errorf ''thing not properly initialized with DBAdapter and CacheClient''), value_opt, w))"

definition lock_key :: "string \<Rightarrow> string" where
  "lock_key cacheKey = cacheKey @ '':lock''"

definition finalizeSave ::
  "('c, 'd, 'h) thing \<Rightarrow> saveMutation \<Rightarrow> ('c, 'd, 'h) world \<Rightarrow> unit go_result \<times> gomodel \<times> ('c, 'd, 'h) world" where
  "finalizeSave t mut w =
     (if \<not> mapplied mut then (Inr (), mvalue mut, w)
      else
        let value = mvalue mut;
            (r, c) = (case tcache t of
                        None \<Rightarrow> (Inr (), wcache w)
                      | Some client \<Rightarrow>
                          (let cacheKey = generateCacheKey (TableName (tinfo t)) (GetID value);
                               (_, _, c1) = WithLock (Some client) (tcanceled t) (lock_key cacheKey)
                                 (\<lambda>(_, c). (Inr (), (), snd (cSetModel client c cacheKey value (FieldNames (tinfo t)) (tttl t))))
                                 ((), wcache w)
                           in invalidateAffectedQueryCaches (tfmt t) (Some client) (tclass t) (windex w) value (moriginal mut)
                                (misNew mut) False c1));
            w1 = w\<lparr>wcache := c\<rparr>
        in case r of
             Inl e \<Rightarrow> (Inl e, value, w1)
           | Inr _ \<Rightarrow>
               (let (_, v2, w2) = (if misNew mut then fire t EventTypeAfterCreate value None w1 else (Inr (), value, w1));
                    (_, v3, w3) = fire t EventTypeAfterSave v2 (mchanged mut) w2
                in (Inr (), v3, w3)))"

definition saveInternal ::
  "('c, 'd, 'h) thing \<Rightarrow> gomodel option \<Rightarrow> ('c, 'd, 'h) world \<Rightarrow> unit go_result \<times> gomodel option \<times> ('c, 'd, 'h) world" where
  "saveInternal t value_opt w =
     (case saveWithExecutor t (map_option db_executor (tdb t)) value_opt False w of
        (Inl e, v, w1) \<Rightarrow> (Inl e, v, w1)
      | (Inr mut, v, w1) \<Rightarrow> (let (r, v', w2) = finalizeSave t mut w1 in (r, Some v', w2)))"

definition Save ::
  "('c, 'd, 'h) thing \<Rightarrow> gomodel option \<Rightarrow> ('c, 'd, 'h) world \<Rightarrow> unit go_result \<times> gomodel option \<times> ('c, 'd, 'h) world" where
  "Save t value_opt w = saveInternal t value_opt w"

section \<open>Save many\<close>

text \<open>The loop inside the transaction: the mutations that changed something, and the values so far.\<close>

fun save_many_loop ::
  "('c, 'd, 'h) thing \<Rightarrow> 'd db_adapter \<Rightarrow> gomodel option list \<Rightarrow> ('c, 'd, 'h) world \<Rightarrow>
   saveMutation list go_result \<times> gomodel option list \<times> ('c, 'd, 'h) world" where
  "save_many_loop t db [] w = (Inr [], [], w)"
| "save_many_loop t db (v # vs) w =
     (case saveWithExecutor t (Some (tx_executor db)) v True w of
        (Inl e, v', w1) \<Rightarrow> (Inl (Wrapped ''SaveMany item failed'' e), v' # vs, w1)
      | (Inr mut, v', w1) \<Rightarrow>
          (let (r, vs', w2) = save_many_loop t db vs w1
           in (bindE r (\<lambda>muts. Inr (if mapplied mut then mut # muts else muts)), v' # vs', w2)))"

fun finalize_saves ::
  "('c, 'd, 'h) thing \<Rightarrow> saveMutation list \<Rightarrow> ('c, 'd, 'h) world \<Rightarrow> unit go_result \<times> ('c, 'd, 'h) world" where
  "finalize_saves t [] w = (Inr (), w)"
| "finalize_saves t (mut # muts) w =
     (case finalizeSave t mut w of (Inl e, _, w1) \<Rightarrow> (Inl e, w1) | (Inr _, _, w1) \<Rightarrow> finalize_saves t muts w1)"

definition rollback :: "'d db_adapter \<Rightarrow> ('c, 'd, 'h) world \<Rightarrow> ('c, 'd, 'h) world" where
  "rollback db w = w\<lparr>wdb := snd (txRollback db (wdb w))\<rparr>"

definition SaveMany ::
  "('c, 'd, 'h) thing \<Rightarrow> gomodel option list \<Rightarrow> ('c, 'd, 'h) world \<Rightarrow> unit go_result \<times> ('c, 'd, 'h) world" where
  "SaveMany t values w =
     (if values = [] then (Inr (), w)
      else case (tdb t, tcache t) of
        (Some db, Some _) \<Rightarrow>
          (case dbBeginTx db (wdb w) of
             (Inl e, d) \<Rightarrow> (Inl (Wrapped ''SaveMany begin transaction failed'' e), w\<lparr>wdb := d\<rparr>)
           | (Inr _, d) \<Rightarrow>
               (case save_many_loop t db values (w\<lparr>wdb := d\<rparr>) of
                  (Inl e, _, w1) \<Rightarrow> (Inl e, rollback db w1)
                | (Inr muts, _, w1) \<Rightarrow>
                    (case txCommit db (wdb w1) of
                       (Inl e, d1) \<Rightarrow> (Inl (Wrapped ''SaveMany commit failed'' e), rollback db (w1\<lparr>wdb := d1\<rparr>))
                     | (Inr _, d1) \<Rightarrow> finalize_saves t muts (w1\<lparr>wdb := d1\<rparr>))))
      | _ \<Rightarrow> (Inl (Errorf ''thing not properly initialized with DBAdapter and CacheClient''), w))"

section \<open>Soft delete\<close>

definition SoftDelete ::
  "('c, 'd, 'h) thing \<Rightarrow> gomodel \<Rightarrow> ('c, 'd, 'h) world \<Rightarrow> unit go_result \<times> gomodel \<times> ('c, 'd, 'h) world" where
  "SoftDelete t value w =
     (if GetID value = 0 then (Inl (Errorf ''SoftDelete: cannot soft delete record with zero ID''), value, w)
      else case fire t EventTypeBeforeSoftDelete value None w of
        (Inl e, v, w1) \<Rightarrow> (Inl (Wrapped ''BeforeSoftDelete hook failed'' e), v, w1)
      | (Inr _, v, w1) \<Rightarrow>
          (if FieldByName v ''Deleted'' = None
           then (Inl (Errorf ''SoftDelete: could not set Deleted field via reflection''), v, w1\<lparr>wtick := Suc (wtick w1)\<rparr>)
           else
             let v1 = AList.update ''Deleted'' (VBool True) v;
                 v2 = (if FieldByName v1 ''UpdatedAt'' = None then v1 else AList.update ''UpdatedAt'' (tnow t (wtick w1)) v1)
             in case saveInternal t (Some v2) (w1\<lparr>wtick := Suc (wtick w1)\<rparr>) of
                  (Inl e, v3, w2) \<Rightarrow>
                    (Inl (if is_panic e then e else Wrapped ''SoftDelete failed during save operation'' e),
                     case v3 of Some x \<Rightarrow> x | None \<Rightarrow> v2, w2)
                | (Inr _, v3, w2) \<Rightarrow>
                    (let (_, v4, w3) = fire t EventTypeAfterSoftDelete (case v3 of Some x \<Rightarrow> x | None \<Rightarrow> v2) None w2
                     in (Inr (), v4, w3))))"

section \<open>Delete\<close>

text \<open>What runs under the lock of the model key: the statement, the cached model, the cached queries.\<close>

definition delete_action ::
  "('c, 'd, 'h) thing \<Rightarrow> 'c cache_client \<Rightarrow> 'd db_adapter \<Rightarrow> CacheIndex \<Rightarrow> gomodel \<Rightarrow> int \<Rightarrow> 'd \<times> 'c \<Rightarrow> unit go_result \<times> 'd \<times> 'c" where
  "delete_action t client db idx value i s =
     (case s of (d, c) \<Rightarrow>
        (case dbExec db d (BuildDeleteSQL (dbDialect db) (TableName (tinfo t)) (PkName (tinfo t))) [VInt S64 i] of
           (Inl e, d1) \<Rightarrow> (Inl (Wrapped ''database delete failed'' e), d1, c)
         | (Inr res, d1) \<Rightarrow>
             (let c1 = snd (cDelete client c (generateCacheKey (TableName (tinfo t)) i))
              in if RowsAffected res = 0 then (Inl ErrNotFound, d1, c1)
                 else
                   let (r, c2) = invalidateAffectedQueryCaches (tfmt t) (Some client) (tclass t) idx value (Some value) False True c1
                   in (r, d1, c2))))"

definition deleteInternal ::
  "('c, 'd, 'h) thing \<Rightarrow> gomodel \<Rightarrow> ('c, 'd, 'h) world \<Rightarrow> unit go_result \<times> gomodel \<times> ('c, 'd, 'h) world" where
  "deleteInternal t value w =
     (case (tdb t, tcache t) of
        (Some db, Some client) \<Rightarrow>
          (let i = GetID value in
           if i = 0 then (Inl (Errorf ''deleteInternal: cannot delete record with zero ID''), value, w)
           else case fire t EventTypeBeforeDelete value None w of
             (Inl e, v, w1) \<Rightarrow> (Inl (Wrapped ''BeforeDelete hook failed'' e), v, w1)
           | (Inr _, v, w1) \<Rightarrow>
               (let (r, d, c) = WithLock (Some client) (tcanceled t) (lock_key (generateCacheKey (TableName (tinfo t)) i))
                      (delete_action t client db (windex w1) v i) (wdb w1, wcache w1);
                    w2 = w1\<lparr>wdb := d, wcache := c\<rparr>
                in case r of
                     Inl e \<Rightarrow>
                       (Inl (if is_panic e then e
                             else if errors_is e ErrNotFound then ErrNotFound
                             else Wrapped ''delete operation failed (lock or db/cache exec)'' e), v, w2)
                   | Inr _ \<Rightarrow> (let (_, v2, w3) = fire t EventTypeAfterDelete v None w2 in (Inr (), v2, w3))))
      | _ \<Rightarrow> (Inl (Errorf ''thing not properly initialized with DBAdapter and CacheClient''), value, w))"

definition Delete ::
  "('c, 'd, 'h) thing \<Rightarrow> gomodel \<Rightarrow> ('c, 'd, 'h) world \<Rightarrow> unit go_result \<times> gomodel \<times> ('c, 'd, 'h) world" where
  "Delete t value w = deleteInternal t value w"

section \<open>Delete many\<close>

definition finalize_delete_action ::
  "('c, 'd, 'h) thing \<Rightarrow> 'c cache_client \<Rightarrow> CacheIndex \<Rightarrow> gomodel \<Rightarrow> string \<Rightarrow> unit \<times> 'c \<Rightarrow> unit go_result \<times> unit \<times> 'c" where
  "finalize_delete_action t client idx value cacheKey s =
     (case cDelete client (snd s) cacheKey of
        (Inl e, c1) \<Rightarrow>
          (if errors_is e ErrNotFound
           then let (r, c2) = invalidateAffectedQueryCaches (tfmt t) (Some client) (tclass t) idx value (Some value) False True c1
                in (r, (), c2)
           else (Inl e, (), c1))
      | (Inr _, c1) \<Rightarrow>
          (let (r, c2) = invalidateAffectedQueryCaches (tfmt t) (Some client) (tclass t) idx value (Some value) False True c1
           in (r, (), c2)))"

definition finalizeDelete ::
  "('c, 'd, 'h) thing \<Rightarrow> gomodel \<Rightarrow> ('c, 'd, 'h) world \<Rightarrow> unit go_result \<times> gomodel \<times> ('c, 'd, 'h) world" where
  "finalizeDelete t value w =
     (case tcache t of
        None \<Rightarrow> (Inr (), value, w)
      | Some client \<Rightarrow>
          (let cacheKey = generateCacheKey (TableName (tinfo t)) (GetID value);
               (r, _, c) = WithLock (Some client) (tcanceled t) (lock_key cacheKey)
                 (finalize_delete_action t client (windex w) value cacheKey) ((), wcache w);
               w1 = w\<lparr>wcache := c\<rparr>
           in case r of
                Inl e \<Rightarrow> if is_panic e then (Inl e, value, w1)
                         else (let (_, v, w2) = fire t EventTypeAfterDelete value None w1 in (Inl e, v, w2))
              | Inr _ \<Rightarrow> (let (_, v, w2) = fire t EventTypeAfterDelete value None w1 in (Inr (), v, w2))))"

fun delete_many_loop ::
  "('c, 'd, 'h) thing \<Rightarrow> 'd db_adapter \<Rightarrow> gomodel option list \<Rightarrow> ('c, 'd, 'h) world \<Rightarrow>
   gomodel list go_result \<times> ('c, 'd, 'h) world" where
  "delete_many_loop t db [] w = (Inr [], w)"
| "delete_many_loop t db (v # vs) w =
     (case v of
        None \<Rightarrow> (Inl (Errorf ''DeleteMany item failed: value (model pointer) is nil''), w)
      | Some value \<Rightarrow>
          (let i = GetID value in
           if i = 0 then (Inl (Errorf ''DeleteMany item failed: cannot delete record with zero ID''), w)
           else case fire t EventTypeBeforeDelete value None w of
             (Inl e, _, w1) \<Rightarrow> (Inl (Wrapped ''DeleteMany item BeforeDelete hook failed'' e), w1)
           | (Inr _, value', w1) \<Rightarrow>
               (case txExec db (wdb w1) (BuildDeleteSQL (dbDialect db) (TableName (tinfo t)) (PkName (tinfo t))) [VInt S64 i] of
                  (Inl e, d) \<Rightarrow> (Inl (Wrapped ''DeleteMany item database delete failed'' e), w1\<lparr>wdb := d\<rparr>)
                | (Inr res, d) \<Rightarrow>
                    (if RowsAffected res = 0 then (Inl (Wrapped ''DeleteMany item failed'' ErrNotFound), w1\<lparr>wdb := d\<rparr>)
                     else
                       let (r, w2) = delete_many_loop t db vs (w1\<lparr>wdb := d\<rparr>)
                       in (bindE r (\<lambda>vals. Inr (value' # vals)), w2)))))"

fun finalize_deletes ::
  "('c, 'd, 'h) thing \<Rightarrow> gomodel list \<Rightarrow> unit go_result \<Rightarrow> ('c, 'd, 'h) world \<Rightarrow> unit go_result \<times> ('c, 'd, 'h) world" where
  "finalize_deletes t [] firstErr w = (firstErr, w)"
| "finalize_deletes t (v # vs) firstErr w =
     (case finalizeDelete t v w of
        (Inl e, _, w1) \<Rightarrow>
          if is_panic e then (Inl e, w1)
          else finalize_deletes t vs (if firstErr = Inr () then Inl e else firstErr) w1
      | (Inr _, _, w1) \<Rightarrow> finalize_deletes t vs firstErr w1)"

definition DeleteMany ::
  "('c, 'd, 'h) thing \<Rightarrow> gomodel option list \<Rightarrow> ('c, 'd, 'h) world \<Rightarrow> unit go_result \<times> ('c, 'd, 'h) world" where
  "DeleteMany t values w =
     (if values = [] then (Inr (), w)
      else case (tdb t, tcache t) of
        (Some db, Some _) \<Rightarrow>
          (case dbBeginTx db (wdb w) of
             (Inl e, d) \<Rightarrow> (Inl (Wrapped ''DeleteMany begin transaction failed'' e), w\<lparr>wdb := d\<rparr>)
           | (Inr _, d) \<Rightarrow>
               (case delete_many_loop t db values (w\<lparr>wdb := d\<rparr>) of
                  (Inl e, w1) \<Rightarrow> (Inl e, rollback db w1)
                | (Inr vals, w1) \<Rightarrow>
                    (case txCommit db (wdb w1) of
                       (Inl e, d1) \<Rightarrow> (Inl (Wrapped ''DeleteMany commit failed'' e), rollback db (w1\<lparr>wdb := d1\<rparr>))
                     | (Inr _, d1) \<Rightarrow> finalize_deletes t vals (Inr ()) (w1\<lparr>wdb := d1\<rparr>))))
      | _ \<Rightarrow> (Inl (Errorf ''thing not properly initialized with DBAdapter and CacheClient''), w))"

section \<open>Read\<close>

definition ByID ::
  "('c, 'd, 'h) thing \<Rightarrow> 'd db_adapter \<Rightarrow> int \<Rightarrow> ('c, 'd, 'h) world \<Rightarrow> gomodel go_result \<times> ('c, 'd, 'h) world" where
  "ByID t db i w =
     (case byIDInternal (tcache t) db (tinfo t) (ttype t) (tttl t) i (wcache w, wdb w) of
        (r, c, d) \<Rightarrow> (r, w\<lparr>wcache := c, wdb := d\<rparr>))"

section \<open>Frame lemmas\<close>

lemma fire_frame:
  "fire t ev m d w = (r, m', w') \<Longrightarrow> wcache w' = wcache w \<and> wdb w' = wdb w \<and> windex w' = windex w \<and> wtick w' = wtick w"
  by (auto simp: fire_def split: prod.splits)

lemma invalidate_only_panics:
  "invalidateAffectedQueryCaches f c cls idx m orig cr del s = (Inl e, s') \<Longrightarrow> is_panic e"
proof -
  have gather: "gather_tasks cl ts ks s0 = (Inl e, s1) \<Longrightarrow> is_panic e" for cl :: "'a cache_client" and ts ks s0 s1
    by (induction ks arbitrary: s0) (auto split: sum.splits prod.splits if_splits)
  assume "invalidateAffectedQueryCaches f c cls idx m orig cr del s = (Inl e, s')"
  then show ?thesis
    by (auto simp: invalidateAffectedQueryCaches_def Let_def split: option.splits if_splits prod.splits sum.splits dest: gather)
qed

lemma finalizeSave_only_panics: "finalizeSave t mut w = (Inl e, v, w') \<Longrightarrow> is_panic e"
  by (auto simp: finalizeSave_def Let_def split: if_splits option.splits prod.splits sum.splits
      dest: invalidate_only_panics)

lemma finalize_saves_only_panics: "finalize_saves t muts w = (Inl e, w') \<Longrightarrow> is_panic e"
  by (induction muts arbitrary: w) (auto split: prod.splits sum.splits dest: finalizeSave_only_panics)

section \<open>Transactions\<close>

text \<open>
  What a transaction promises: \<open>content\<close>, the committed data, changes only in a commit that
  succeeds.
\<close>

definition isolated :: "'d db_adapter \<Rightarrow> ('d \<Rightarrow> 'v) \<Rightarrow> bool" where
  "isolated db content \<longleftrightarrow>
     (\<forall>d. content (snd (dbBeginTx db d)) = content d) \<and>
     (\<forall>d m q a. content (snd (txGet db d m q a)) = content d) \<and>
     (\<forall>d q a. content (snd (txExec db d q a)) = content d) \<and>
     (\<forall>d. content (snd (txRollback db d)) = content d) \<and>
     (\<forall>d e d'. txCommit db d = (Inl e, d') \<longrightarrow> content d' = content d)"

text \<open>Untouched: the cache, the index and the committed data.\<close>

definition untouched :: "('d \<Rightarrow> 'v) \<Rightarrow> ('c, 'd, 'h) world \<Rightarrow> ('c, 'd, 'h) world \<Rightarrow> bool" where
  "untouched content w w' \<longleftrightarrow> wcache w' = wcache w \<and> windex w' = windex w \<and> content (wdb w') = content (wdb w)"

lemma untouched_trans: "untouched content w w' \<Longrightarrow> untouched content w' w'' \<Longrightarrow> untouched content w w''"
  by (simp add: untouched_def)

lemma fire_untouched: "fire t ev m d w = (r, m', w') \<Longrightarrow> untouched content w w'"
  by (auto simp: untouched_def dest: fire_frame)

lemma tx_steps_untouched:
  assumes "isolated db content"
  shows "exExec (tx_executor db) d q a = (r, d') \<Longrightarrow> content d' = content d"
    and "exGet (tx_executor db) d m q a = (r', d') \<Longrightarrow> content d' = content d"
  using assms by (auto simp: isolated_def tx_executor_def) (metis snd_conv)+

lemma save_create_untouched:
  assumes "isolated db content" and "save_create t db (tx_executor db) v n w = (r, v', w')"
  shows "untouched content w w'"
  using assms(2)
  by (auto simp: save_create_def Let_def untouched_def split: prod.splits sum.splits if_splits
      dest!: fire_frame tx_steps_untouched(1)[OF assms(1)])

lemma save_update_untouched:
  assumes "isolated db content" and "save_update t db (tx_executor db) True v i n w = (r, v', w')"
  shows "untouched content w w'"
  using assms(2)
  by (auto simp: save_update_def read_original_def getOriginalForSave_def Let_def untouched_def
      split: prod.splits sum.splits if_splits
      dest!: tx_steps_untouched(1)[OF assms(1)] tx_steps_untouched(2)[OF assms(1)])

lemma saveWithExecutor_untouched:
  assumes iso: "isolated db content" and db: "tdb t = Some db"
    and save: "saveWithExecutor t (Some (tx_executor db)) v True w = (r, v', w')"
  shows "untouched content w w'"
proof (cases "tcache t = None \<or> v = None")
  case True
  with save db show ?thesis by (auto simp: saveWithExecutor_def untouched_def split: option.splits)
next
  case False
  then obtain client x where some: "tcache t = Some client" "v = Some x" by auto
  let ?w0 = "w\<lparr>wtick := Suc (wtick w)\<rparr>"
  have w0: "untouched content w ?w0" by (simp add: untouched_def)
  obtain r1 v1 w1 where f: "fire t EventTypeBeforeSave (setNewRecordFlagIfBaseModel x (GetID x = 0)) None ?w0 = (r1, v1, w1)"
    using prod_cases3 by blast
  note w1 = untouched_trans[OF w0 fire_untouched[OF f]]
  show ?thesis
  proof (cases r1)
    case (Inl e)
    with save db some f w1 show ?thesis by (simp add: saveWithExecutor_def Let_def)
  next
    case (Inr u)
    obtain r2 v2 w2 where s: "(if GetID x = 0 then save_create t db (tx_executor db) v1 (tnow t (wtick w)) w1
        else save_update t db (tx_executor db) True v1 (GetID x) (tnow t (wtick w)) w1) = (r2, v2, w2)"
      using prod_cases3 by blast
    have "w' = w2" using save db some f Inr s by (simp add: saveWithExecutor_def Let_def)
    moreover have "untouched content w1 w2"
      using s save_create_untouched[OF iso] save_update_untouched[OF iso] by (simp split: if_splits) blast+
    ultimately show ?thesis using untouched_trans[OF w1] by simp
  qed
qed

lemma save_many_loop_untouched:
  assumes "isolated db content" and "tdb t = Some db"
  shows "save_many_loop t db vs w = (r, vs', w') \<Longrightarrow> untouched content w w'"
proof (induction vs arbitrary: w r vs' w')
  case (Cons v vs)
  obtain r1 v1 w1 where s: "saveWithExecutor t (Some (tx_executor db)) v True w = (r1, v1, w1)" using prod_cases3 by blast
  note w1 = saveWithExecutor_untouched[OF assms s]
  show ?case
  proof (cases r1)
    case (Inr mut)
    obtain r2 vs2 w2 where l: "save_many_loop t db vs w1 = (r2, vs2, w2)" using prod_cases3 by blast
    have "w' = w2" using Cons.prems s Inr l by simp
    then show ?thesis using untouched_trans[OF w1 Cons.IH[OF l]] by simp
  qed (use Cons.prems s w1 in simp)
qed (simp add: untouched_def)

lemma rollback_untouched: "isolated db content \<Longrightarrow> untouched content w (rollback db w)"
  by (simp add: isolated_def untouched_def rollback_def)

lemma save_many_tx_untouched:
  assumes "isolated db content" and "tdb t = Some db" and "dbBeginTx db (wdb w) = (r0, d0)"
  shows "untouched content w (w\<lparr>wdb := d0\<rparr>)"
    and "save_many_loop t db vs (w\<lparr>wdb := d0\<rparr>) = (r1, vs1, w1) \<Longrightarrow> untouched content w w1"
proof -
  have "content (snd (dbBeginTx db (wdb w))) = content (wdb w)" using assms(1) by (simp add: isolated_def)
  then show w0: "untouched content w (w\<lparr>wdb := d0\<rparr>)" using assms(3) by (simp add: untouched_def)
  show "save_many_loop t db vs (w\<lparr>wdb := d0\<rparr>) = (r1, vs1, w1) \<Longrightarrow> untouched content w w1"
    using untouched_trans[OF w0] save_many_loop_untouched[OF assms(1,2)] by blast
qed

lemma failed_commit_untouched:
  assumes "isolated db content" and "txCommit db (wdb w) = (Inl e, d)"
  shows "untouched content w (rollback db (w\<lparr>wdb := d\<rparr>))"
  using assms by (auto simp: isolated_def untouched_def rollback_def)

text \<open>
  C8: \<open>SaveMany\<close> is all or nothing. With a database whose transactions are isolated, a call that
  returns an error has changed neither the committed data, nor a cached model, nor a cached
  query: whatever item failed, in a hook, in its statement or in the commit.
\<close>

theorem save_many_atomic:
  assumes "isolated db content" and "tdb t = Some db" and "SaveMany t values w = (Inl e, w')" and "\<not> is_panic e"
  shows "wcache w' = wcache w \<and> windex w' = windex w \<and> content (wdb w') = content (wdb w)"
proof (cases "values = [] \<or> tcache t = None")
  case True
  with assms(2,3) show ?thesis by (auto simp: SaveMany_def split: if_splits option.splits)
next
  case False
  then obtain client where c: "values \<noteq> []" "tcache t = Some client" by auto
  obtain r0 d0 where b: "dbBeginTx db (wdb w) = (r0, d0)" by (cases "dbBeginTx db (wdb w)")
  obtain r1 vs1 w1 where l: "save_many_loop t db values (w\<lparr>wdb := d0\<rparr>) = (r1, vs1, w1)" using prod_cases3 by blast
  obtain r2 d2 where k: "txCommit db (wdb w1) = (r2, d2)" by (cases "txCommit db (wdb w1)")
  note w1 = save_many_tx_untouched[OF assms(1,2) b]
  have out: "(Inl e, w') = (case r0 of Inl e0 \<Rightarrow> (Inl (Wrapped ''SaveMany begin transaction failed'' e0), w\<lparr>wdb := d0\<rparr>)
     | Inr _ \<Rightarrow> (case r1 of Inl e1 \<Rightarrow> (Inl e1, rollback db w1)
       | Inr muts \<Rightarrow> (case r2 of Inl e2 \<Rightarrow> (Inl (Wrapped ''SaveMany commit failed'' e2), rollback db (w1\<lparr>wdb := d2\<rparr>))
         | Inr _ \<Rightarrow> finalize_saves t muts (w1\<lparr>wdb := d2\<rparr>))))"
    using assms(2,3) c b l k by (simp add: SaveMany_def split: sum.splits)
  have "untouched content w w'"
  proof (cases "\<exists>u muts u2. r0 = Inr u \<and> r1 = Inr muts \<and> r2 = Inr u2")
    case True
    with out have "\<exists>muts. finalize_saves t muts (w1\<lparr>wdb := d2\<rparr>) = (Inl e, w')" by auto
    with assms(4) finalize_saves_only_panics show ?thesis by blast
  next
    case False
    have "untouched content w (rollback db w1)" by (rule untouched_trans[OF w1(2)[OF l] rollback_untouched[OF assms(1)]])
    moreover have "untouched content w (rollback db (w1\<lparr>wdb := d2\<rparr>))" if "r2 = Inl e2" for e2
      using untouched_trans[OF w1(2)[OF l] failed_commit_untouched[OF assms(1)]] k that by simp
    ultimately show ?thesis using out False w1(1) by (auto split: sum.splits)
  qed
  then show ?thesis by (simp add: untouched_def)
qed

section \<open>Caches after a save\<close>

context reliable_cache
begin

lemma invalidate_view:
  assumes "invalidateAffectedQueryCaches f (Some client) cls idx m orig cr del c = (r, c')"
  shows "view c' \<subseteq>\<^sub>m view c"
proof (cases "GetID m = 0")
  case True
  with assms show ?thesis by (simp add: invalidateAffectedQueryCaches_def)
next
  case False
  from assms obtain ts ks r1 c1 where g: "gather_tasks client ts ks c = (r1, c1)"
    and c': "c' = c1 \<or> (\<exists>ws tasks. c' = delete_keys client ws (snd (read_lists client tasks [] c1)))"
    using False by (auto simp: invalidateAffectedQueryCaches_def Let_def split: prod.splits sum.splits) (metis snd_conv)+
  have "view c1 \<subseteq>\<^sub>m view c" by (rule gather_tasks_view[OF g])
  moreover have "view (delete_keys client ws (snd (read_lists client tasks [] c1))) \<subseteq>\<^sub>m view c1" for ws tasks
    by (rule map_le_trans[OF delete_keys_view read_lists_view])
  ultimately show ?thesis using c' by (auto intro: map_le_trans)
qed

end

lemma finalizeSave_caches:
  assumes "tcache t = Some localClient" and "mapplied mut"
    and "\<not> lock_held (wcache w) (lock_key (generateCacheKey (TableName (tinfo t)) (GetID (mvalue mut))))"
    and "finalizeSave t mut w = (Inr (), v, w')"
  shows "\<exists>c1. lcview c1 = (case gob_model (select_fields (mvalue mut) (FieldNames (tinfo t))) of
      None \<Rightarrow> lcview (wcache w)
    | Some dm \<Rightarrow> (lcview (wcache w))(generateCacheKey (TableName (tinfo t)) (GetID (mvalue mut)) \<mapsto> CModel dm)) \<and>
    invalidateAffectedQueryCaches (tfmt t) (Some localClient) (tclass t) (windex w) (mvalue mut) (moriginal mut)
      (misNew mut) False c1 = (Inr (), wcache w')"
proof -
  let ?key = "generateCacheKey (TableName (tinfo t)) (GetID (mvalue mut))"
  let ?act = "\<lambda>(_ :: unit, c). (Inr () :: unit go_result, (), snd (cSetModel localClient c ?key (mvalue mut) (FieldNames (tinfo t)) (tttl t)))"
  from with_lock_free[OF assms(3), of "tcanceled t" ?act "()"] obtain c0 where c0: "lcview c0 = lcview (wcache w)"
    and lock: "WithLock (Some localClient) (tcanceled t) (lock_key ?key) ?act ((), wcache w) =
      (Inr (), (), snd (lcReleaseLock (snd (lcSetModel c0 ?key (mvalue mut) (FieldNames (tinfo t)) (tttl t))) (lock_key ?key)))"
    by (auto simp: localClient_def)
  let ?c1 = "snd (lcReleaseLock (snd (lcSetModel c0 ?key (mvalue mut) (FieldNames (tinfo t)) (tttl t))) (lock_key ?key))"
  obtain r c2 where inv: "invalidateAffectedQueryCaches (tfmt t) (Some localClient) (tclass t) (windex w) (mvalue mut)
      (moriginal mut) (misNew mut) False ?c1 = (r, c2)" by fastforce
  have "lcview ?c1 = (case gob_model (select_fields (mvalue mut) (FieldNames (tinfo t))) of
      None \<Rightarrow> lcview (wcache w) | Some dm \<Rightarrow> (lcview (wcache w))(?key \<mapsto> CModel dm))"
    by (simp add: lcview_lcSetModel c0 split: option.split)
  moreover have "r = Inr () \<and> wcache w' = c2"
    using assms(1,2,4) lock inv by (auto simp: finalizeSave_def Let_def split: prod.splits sum.splits if_splits dest!: fire_frame)
  ultimately show ?thesis using inv by blast
qed

lemma Save_applied:
  assumes "tdb t = Some db" and "saveWithExecutor t (Some (db_executor db)) v False w = (Inr mut, v1, w1)"
    and "Save t v w = (Inr (), v', w')"
  shows "\<exists>x. finalizeSave t mut w1 = (Inr (), x, w')"
  using assms by (auto simp: Save_def saveInternal_def Let_def split: prod.splits)

text \<open>
  C3: after a save nobody reads the old row from the cache. When \<open>Save\<close> has written a row, the local
  cache has either no model under its key or one with the saved values of all fields, given that
  the key's lock was free and the fields hold plain values.
\<close>

theorem save_model_fresh:
  assumes "tdb t = Some db" and "tcache t = Some localClient"
    and "saveWithExecutor t (Some (db_executor db)) v False w = (Inr mut, v1, w1)" and "mapplied mut"
    and "\<not> lock_held (wcache w1) (lock_key (generateCacheKey (TableName (tinfo t)) (GetID (mvalue mut))))"
    and "plain_rows (tinfo t) zero (\<lambda>i. if i = GetID (mvalue mut) then Some (mvalue mut) else None)"
    and "Save t v w = (Inr (), v', w')"
    and "local_read (wcache w') (generateCacheKey (TableName (tinfo t)) (GetID (mvalue mut))) zero = Some m"
  shows "same_fields (tinfo t) m (mvalue mut)"
proof -
  let ?val = "mvalue mut" and ?fs = "FieldNames (tinfo t)"
  let ?key = "generateCacheKey (TableName (tinfo t)) (GetID ?val)"
  have plain: "\<forall>f \<in> set ?fs. \<exists>x y. FieldByName ?val f = Some x \<and> gob_plain x \<and> FieldByName zero f = Some y \<and> type_of y = type_of x"
    using assms(6) by (simp add: plain_rows_def)
  from model_cache_stored[OF plain, of emptyLocalCache ?key 0] obtain dm where dm: "gob_model (select_fields ?val ?fs) = Some dm"
    and pop: "\<forall>f. FieldByName (populate zero dm) f = (if f \<in> set ?fs then FieldByName ?val f else FieldByName zero f)"
    by (auto simp: lcGetModel_result lcview_lcSetModel lcview_empty split: option.splits)
  obtain x where "finalizeSave t mut w1 = (Inr (), x, w')" using Save_applied[OF assms(1,3,7)] by blast
  from finalizeSave_caches[OF assms(2,4,5) this] dm obtain c1 where
    c1: "lcview c1 = (lcview (wcache w1))(?key \<mapsto> CModel dm)"
    and inv: "invalidateAffectedQueryCaches (tfmt t) (Some localClient) (tclass t) (windex w1) ?val (moriginal mut)
      (misNew mut) False c1 = (Inr (), wcache w')"
    by auto
  have "x = CModel dm" if "lcview (wcache w') ?key = Some x" for x
    using lcr.view_le_Some[OF lcr.invalidate_view[OF inv] that] c1 by simp
  with assms(8) have "m = populate zero dm" by (auto simp: local_read_def split: option.splits)
  then show ?thesis using pop by (simp add: same_fields_def)
qed


section \<open>Caches after a delete\<close>

lemma delete_run:
  assumes "tdb t = Some db" and "tcache t = Some localClient" and "GetID x \<noteq> 0"
    and "fire t EventTypeBeforeDelete x None w = (Inr (), v, w1)"
    and "\<not> lock_held (wcache w1) (lock_key (generateCacheKey (TableName (tinfo t)) (GetID x)))"
    and "Delete t x w = (r, v', w')"
  shows "\<exists>c1 ra d2 c2. lcview c1 = lcview (wcache w1) \<and>
    delete_action t localClient db (windex w1) v (GetID x) (wdb w1, c1) = (ra, d2, c2) \<and>
    lcview (wcache w') = lcview c2 \<and> wdb w' = d2 \<and>
    r = (case ra of Inr _ \<Rightarrow> Inr () | Inl e \<Rightarrow> Inl (if is_panic e then e else if errors_is e ErrNotFound then ErrNotFound
           else Wrapped ''delete operation failed (lock or db/cache exec)'' e))"
proof -
  let ?key = "lock_key (generateCacheKey (TableName (tinfo t)) (GetID x))"
  let ?act = "delete_action t localClient db (windex w1) v (GetID x)"
  from with_lock_free[OF assms(5), of "tcanceled t" ?act "wdb w1"] obtain c1 where c1: "lcview c1 = lcview (wcache w1)"
    and lock: "WithLock (Some localClient) (tcanceled t) ?key ?act (wdb w1, wcache w1) =
      (fst (?act (wdb w1, c1)), fst (snd (?act (wdb w1, c1))), snd (lcReleaseLock (snd (snd (?act (wdb w1, c1)))) ?key))"
    by blast
  obtain ra d2 c2 where a: "?act (wdb w1, c1) = (ra, d2, c2)" using prod_cases3 by blast
  have "lcview (wcache w') = lcview c2 \<and> wdb w' = d2 \<and>
      r = (case ra of Inr _ \<Rightarrow> Inr () | Inl e \<Rightarrow> Inl (if is_panic e then e else if errors_is e ErrNotFound then ErrNotFound
           else Wrapped ''delete operation failed (lock or db/cache exec)'' e))"
    using assms lock a
    by (auto simp: Delete_def deleteInternal_def Let_def split: prod.splits sum.splits if_splits dest!: fire_frame)
  with c1 a show ?thesis by blast
qed

lemma delete_action_outcome:
  assumes "delete_action t localClient db idx v i (d, c) = (ra, d2, c2)"
    and "ra = Inr () \<or> (\<exists>e. ra = Inl e \<and> errors_is e ErrNotFound \<and> \<not> is_panic e)"
    and "\<forall>d q a e d'. dbExec db d q a = (Inl e, d') \<longrightarrow> \<not> errors_is e ErrNotFound"
  shows "lcview c2 (generateCacheKey (TableName (tinfo t)) i) = None"
    and "ra = Inr () \<Longrightarrow> \<exists>c3. invalidateAffectedQueryCaches (tfmt t) (Some localClient) (tclass t) idx v (Some v) False True c3 = (Inr (), c2)"
proof -
  let ?key = "generateCacheKey (TableName (tinfo t)) i"
  let ?c1 = "snd (lcDelete c ?key)"
  obtain rx dx where x: "dbExec db d (BuildDeleteSQL (dbDialect db) (TableName (tinfo t)) (PkName (tinfo t))) [VInt S64 i] = (rx, dx)"
    by fastforce
  obtain ri ci where inv: "invalidateAffectedQueryCaches (tfmt t) (Some localClient) (tclass t) idx v (Some v) False True ?c1 = (ri, ci)"
    by fastforce
  have del: "cDelete localClient = lcDelete" by (simp add: localClient_def)
  have "rx = Inl e \<Longrightarrow> False" for e using assms x by (fastforce simp: delete_action_def)
  then obtain res where rx: "rx = Inr res" by (cases rx) auto
  have c2: "(ra = Inl ErrNotFound \<and> c2 = ?c1) \<or> (ra = ri \<and> c2 = ci)"
    using assms(1) x rx inv by (auto simp: delete_action_def del Let_def split: if_splits)
  have gone: "lcview ?c1 ?key = None" by simp
  show "lcview c2 ?key = None"
    using c2 gone lcr.view_le_None[OF lcr.invalidate_view[OF inv] gone] by auto
  show "ra = Inr () \<Longrightarrow> \<exists>c3. invalidateAffectedQueryCaches (tfmt t) (Some localClient) (tclass t) idx v (Some v) False True c3 = (Inr (), c2)"
    using c2 inv by auto
qed


section \<open>The difference written by an update\<close>

lemma diff_other: "c \<notin> DBColumn ` set fs \<Longrightarrow> gm_get (foldl (diff_step original updated) m fs) c = gm_get m c"
  by (induction fs arbitrary: m) (auto simp: diff_step_def split: option.splits)

lemma diff_field:
  assumes "distinct (map DBColumn fs)" and "f \<in> set fs" and "gm_get m (DBColumn f) = None"
  shows "gm_get (foldl (diff_step original updated) m fs) (DBColumn f) =
    (case (FieldByName original (GoName f), FieldByName updated (GoName f)) of
       (Some oField, Some uField) \<Rightarrow> if deep_eq oField uField then None else Some uField | _ \<Rightarrow> None)"
  using assms
proof (induction fs arbitrary: m)
  case (Cons g fs)
  show ?case
  proof (cases "f = g")
    case True
    with Cons.prems show ?thesis
      by (auto simp: diff_other) (auto simp: diff_step_def split: option.splits)
  next
    case False
    then have f: "f \<in> set fs" "DBColumn f \<noteq> DBColumn g" using Cons.prems(1,2) by (auto simp: image_iff)
    then have "gm_get (diff_step original updated m g) (DBColumn f) = None"
      using Cons.prems(3) by (auto simp: diff_step_def split: option.splits)
    with Cons f show ?thesis by simp
  qed
qed simp

lemma FindChangedFieldsSimple_alt:
  "FindChangedFieldsSimple info original updated =
     foldl (diff_step original updated) [] (filter (\<lambda>f. DBColumn f \<noteq> PkName info) (compared info))"
  by (simp add: FindChangedFieldsSimple_def compared_def conj_commute)

lemma vcanon_eq: "vcanon v \<Longrightarrow> vcanon w \<Longrightarrow> deep_eq v w \<Longrightarrow> v = w"
  by (rule deep_eq_canon)



text \<open>
  When the original cannot be read, the update is compared with a zero struct, so a field that
  was set to its zero value is not written.
\<close>

lemma zero_value_not_written:
  "FindChangedFieldsSimple user_info (user 0 [] False) (user 7 [] True) = [(''deleted'', VBool True)]"
  by code_simp

section \<open>Examples\<close>

text \<open>
  A database that logs statements: the committed ones, and those of the open transaction. A
  statement with the value ''bad'' fails.
\<close>

type_synonym log_state = "string list \<times> string list"

definition log_exec :: "string \<Rightarrow> goval list \<Rightarrow> exec_result go_result" where
  "log_exec q vals =
     (if VString ''bad'' \<in> set vals then Inl (Errorf ''constraint'') else Inr \<lparr>LastInsertId = Inr 7, RowsAffected = 1\<rparr>)"

definition log_db :: "log_state db_adapter" where
  "log_db =
     \<lparr>dbDialect = SQLiteDialector,
      dbGet = (\<lambda>d m q vals. (Inl ErrNotFound, d)),
      dbSelectModels = (\<lambda>d m q vals. (Inr [], d)),
      dbSelectIDs = (\<lambda>d q vals. (Inr [], d)),
      dbExec = (\<lambda>d q vals. (log_exec q vals, fst d @ [q], snd d)),
      dbGetCount = (\<lambda>d t w vals. (Inr 0, d)),
      dbBeginTx = (\<lambda>d. (Inr (), fst d, [])),
      txGet = (\<lambda>d m q vals. (Inl ErrNotFound, d)),
      txExec = (\<lambda>d q vals. (log_exec q vals, fst d, snd d @ [q])),
      txCommit = (\<lambda>d. (Inr (), fst d @ snd d, [])),
      txRollback = (\<lambda>d. (Inr (), fst d, []))\<rparr>"

lemma log_db_isolated: "isolated log_db fst"
  by (simp add: isolated_def log_db_def)

definition user_thing :: "(localCache, log_state, unit) thing" where
  "user_thing =
     \<lparr>tcache = Some localClient, tdb = Some log_db, tclass = base_class user_info,
      ttype = \<lparr>isPtr = True, zeroModel = user 0 [] False\<rparr>, tttl = 60, tcanceled = (\<lambda>_. False), tfmt = (\<lambda>_. []),
      tlisteners = [], tnow = (\<lambda>_. VTime 0 0)\<rparr>"

definition user_world :: "(localCache, log_state, unit) world" where
  "user_world =
     \<lparr>wcache = cache_with_ids ''list:users:1'' [3], wdb = ([], []),
      windex = run_index (\<lambda>_. []) [Register ''users'' ''list:users:1'' (by_name ''ann'')], whook = (), wtick = 0\<rparr>"

lemma user_world_wdb: "wdb user_world = ([], [])"
  by (simp add: user_world_def)

lemma save_many_example:
  "fst (SaveMany user_thing [Some (user 0 ''ann'' False), Some (user 0 ''bad'' False)] user_world) =
     Inl (Wrapped ''SaveMany item failed'' (Wrapped ''database save operation failed'' (Errorf ''constraint'')))"
  by code_simp

theorem save_many_atomic_witness:
  "\<exists>e w'. SaveMany user_thing [Some (user 0 ''ann'' False), Some (user 0 ''bad'' False)] user_world = (Inl e, w') \<and>
     fst (wdb w') = [] \<and> wcache w' = wcache user_world"
proof -
  let ?run = "SaveMany user_thing [Some (user 0 ''ann'' False), Some (user 0 ''bad'' False)] user_world"
  let ?e = "Wrapped ''SaveMany item failed'' (Wrapped ''database save operation failed'' (Errorf ''constraint''))"
  have e: "?run = (Inl ?e, snd ?run)" using save_many_example by (simp add: prod_eq_iff)
  have "tdb user_thing = Some log_db" by (simp add: user_thing_def)
  from save_many_atomic[OF log_db_isolated this e] have "wcache (snd ?run) = wcache user_world \<and> fst (wdb (snd ?run)) = fst (wdb user_world)"
    by simp
  with e show ?thesis by (metis fst_conv user_world_wdb)
qed

definition saved_mutation :: saveMutation where
  "saved_mutation = \<lparr>mvalue = user 7 ''ann'' False, moriginal = None, misNew = True, mchanged = None, mapplied = True\<rparr>"

lemma save_example:
  "fst (saveWithExecutor user_thing (Some (db_executor log_db)) (Some (user 0 ''ann'' False)) False user_world) = Inr saved_mutation"
  "fst (Save user_thing (Some (user 0 ''ann'' False)) user_world) = Inr ()"
  by code_simp+

lemma world_example:
  assumes "saveWithExecutor user_thing (Some (db_executor log_db)) (Some (user 0 ''ann'' False)) False user_world = (r, v, w1)"
  shows "windex w1 = windex user_world \<and> wcache w1 = wcache user_world"
proof -
  have "wcache (snd (snd (saveWithExecutor user_thing (Some (db_executor log_db)) (Some (user 0 ''ann'' False)) False user_world)))
    = wcache user_world" by code_simp
  moreover have "windex (snd (snd (saveWithExecutor user_thing (Some (db_executor log_db)) (Some (user 0 ''ann'' False)) False user_world)))
    = windex user_world" by code_simp
  ultimately show ?thesis using assms by simp
qed

lemma saved_example_run:
  "\<exists>w1 v1 v' w'. saveWithExecutor user_thing (Some (db_executor log_db)) (Some (user 0 ''ann'' False)) False user_world =
      (Inr saved_mutation, v1, w1) \<and> Save user_thing (Some (user 0 ''ann'' False)) user_world = (Inr (), v', w') \<and>
      windex w1 = windex user_world \<and> wcache w1 = wcache user_world"
  using save_example world_example by (metis prod.collapse)

lemma saved_key: "generateCacheKey (TableName (tinfo user_thing)) (GetID (mvalue saved_mutation)) = ''users:7''"
  by code_simp

lemma saved_unlocked: "\<not> lock_held (wcache user_world) (lock_key ''users:7'')"
  by code_simp

lemma user_thing_parts: "tdb user_thing = Some log_db" "tcache user_thing = Some localClient" "mapplied saved_mutation"
  by (simp_all add: user_thing_def saved_mutation_def)

lemma saved_plain:
  "plain_rows (tinfo user_thing) (user 0 [] False)
     (\<lambda>i. if i = GetID (mvalue saved_mutation) then Some (mvalue saved_mutation) else None)"
  by (auto simp: plain_rows_def user_thing_def base_class_def user_info_def saved_mutation_def user_def gob_plain_def
      split: if_splits)

theorem save_model_fresh_witness:
  "\<exists>v' w'. Save user_thing (Some (user 0 ''ann'' False)) user_world = (Inr (), v', w') \<and>
     (case local_read (wcache w') ''users:7'' (user 0 [] False) of
        None \<Rightarrow> True | Some m \<Rightarrow> same_fields user_info m (user 7 ''ann'' False))"
proof -
  obtain w1 v1 v' w' where s: "saveWithExecutor user_thing (Some (db_executor log_db)) (Some (user 0 ''ann'' False)) False user_world =
      (Inr saved_mutation, v1, w1)" "Save user_thing (Some (user 0 ''ann'' False)) user_world = (Inr (), v', w')"
      "wcache w1 = wcache user_world" using saved_example_run by blast
  have info: "tinfo user_thing = user_info" "mvalue saved_mutation = user 7 ''ann'' False"
    by (simp_all add: user_thing_def base_class_def saved_mutation_def)
  have "same_fields user_info m (user 7 ''ann'' False)" if "local_read (wcache w') ''users:7'' (user 0 [] False) = Some m" for m
    using save_model_fresh[OF user_thing_parts(1,2) s(1) user_thing_parts(3) _ saved_plain s(2), unfolded saved_key s(3), OF saved_unlocked that]
    by (simp add: info)
  with s(2) show ?thesis by (auto split: option.splits)
qed

lemma saved_tracked:
  "tracked (tclass user_thing) ''list:users:1'' (by_name ''ann'') (by_name_predicate ''ann'')
     (mvalue saved_mutation) (moriginal saved_mutation) (misNew saved_mutation) False"
proof -
  have "Fields (by_name_predicate ''ann'') = [''name'']" by code_simp
  moreover have "trim_space (Where (by_name ''ann'')) \<noteq> []" by code_simp
  moreover have "is_list_key ''list:users:1''" by code_simp
  ultimately show ?thesis using user_info_ok user_instance[of 7 "''ann''" False] by_name_parse
    by (auto simp: tracked_def user_thing_def base_class_def saved_mutation_def) (simp add: user_info_def)
qed

lemma by_name_registered:
  "registered (history [Register ''users'' ''list:users:1'' (by_name ''ann'')]) (TableName (tinfo user_thing)) ''list:users:1'' (\<lambda>q. q = by_name ''ann'')"
  "latest (history [Register ''users'' ''list:users:1'' (by_name ''ann'')]) ''list:users:1'' = Some (by_name ''ann'')"
  by (simp_all add: history_def user_thing_def base_class_def user_info_def)


lemma delete_example: "fst (Delete user_thing (user 7 ''ann'' False) user_world) = Inr ()"
  by code_simp

lemma delete_tracked:
  "tracked (tclass user_thing) ''list:users:1'' (by_name ''ann'') (by_name_predicate ''ann'')
     (user 7 ''ann'' False) (Some (user 7 ''ann'' False)) False True"
  using saved_tracked by (simp add: tracked_def saved_mutation_def user_thing_def user_instance base_class_def)


end
