(* ===== verification/Query_Exec.thy ===== *)
theory Query_Exec
  imports Query_Keys Crud
begin

text \<open>
  Running queries: \<open>CachedResult\<close> of \<^verbatim>\<open>query.go\<close> and \<open>ByIDs\<close> of \<^verbatim>\<open>crud.go\<close>.

  A \<open>CachedResult\<close> is the record of its fields; each method takes it with the world and returns it
  updated. \<open>query_env\<close> has what the methods read besides: the cache version, the text of floating
  point arguments in a key, and \<open>preloadRelations\<close>, which loads the named relation into the models
  of a result. Offsets and limits are Go \<open>int\<close> values; a negative one that reaches \<open>make\<close> or a slice
  expression panics.
\<close>

section \<open>State\<close>

record ('c, 'd, 'h) query_env =
  qversion :: int
  qnum :: "goval \<Rightarrow> string"
  qpreload :: "string \<Rightarrow> (int, gomodel) gomap \<Rightarrow> ('c, 'd, 'h) world \<Rightarrow>
    unit go_result \<times> (int, gomodel) gomap \<times> ('c, 'd, 'h) world"

definition cacheListCountLimit :: nat where
  "cacheListCountLimit = 200"

record ('c, 'd, 'h) CachedResult =
  crthing :: "('c, 'd, 'h) thing option"
  crparams :: QueryParams
  cachedIDs :: "int list"
  cachedCount :: int
  hasLoadedIDs :: bool
  hasLoadedCount :: bool
  hasLoadedAll :: bool
  crall :: "gomodel list"
  crErr :: "goerror option"

definition emptyParams :: QueryParams where
  "emptyParams = \<lparr>Where = [], Args = [], Order = [], Preloads = [], IncludeDeleted = False\<rparr>"

definition Query :: "('c, 'd, 'h) thing \<Rightarrow> QueryParams \<Rightarrow> ('c, 'd, 'h) CachedResult" where
  "Query t p = \<lparr>crthing = Some t, crparams = p, cachedIDs = [], cachedCount = 0, hasLoadedIDs = False,
     hasLoadedCount = False, hasLoadedAll = False, crall = [], crErr = None\<rparr>"

text \<open>The thing with its cache and its database, when none of them is nil.\<close>

definition ready :: "('c, 'd, 'h) CachedResult \<Rightarrow> (('c, 'd, 'h) thing \<times> 'c cache_client \<times> 'd db_adapter) option" where
  "ready cr =
     (case crthing cr of
        None \<Rightarrow> None
      | Some t \<Rightarrow> (case (tcache t, tdb t) of (Some client, Some db) \<Rightarrow> Some (t, client, db) | _ \<Rightarrow> None))"

section \<open>Keys\<close>

definition query_key :: "('c, 'd, 'h) query_env \<Rightarrow> string \<Rightarrow> ('c, 'd, 'h) thing \<Rightarrow> QueryParams \<Rightarrow> string" where
  "query_key E prefix t p = GenerateCacheKey (qnum E) (qversion E) prefix (TableName (tinfo t)) p"

definition generateCountCacheKey :: "('c, 'd, 'h) query_env \<Rightarrow> ('c, 'd, 'h) thing \<Rightarrow> QueryParams \<Rightarrow> string" where
  "generateCountCacheKey E t p = query_key E ''count'' t p"

definition generatePreciseCountCacheKey :: "('c, 'd, 'h) query_env \<Rightarrow> ('c, 'd, 'h) thing \<Rightarrow> QueryParams \<Rightarrow> string" where
  "generatePreciseCountCacheKey E t p = query_key E ''count_precise'' t p"

definition generateListCacheKey :: "('c, 'd, 'h) query_env \<Rightarrow> ('c, 'd, 'h) thing \<Rightarrow> QueryParams \<Rightarrow> string" where
  "generateListCacheKey E t p = query_key E ''list'' t p"

section \<open>Models by id\<close>

fun apply_preloads ::
  "('c, 'd, 'h) query_env \<Rightarrow> string list \<Rightarrow> (int, gomodel) gomap \<Rightarrow> ('c, 'd, 'h) world \<Rightarrow>
   (int, gomodel) gomap \<times> ('c, 'd, 'h) world" where
  "apply_preloads E [] models w = (models, w)"
| "apply_preloads E (p # ps) models w = (let (_, models', w') = qpreload E p models w in apply_preloads E ps models' w')"

definition ByIDs ::
  "('c, 'd, 'h) query_env \<Rightarrow> ('c, 'd, 'h) thing \<Rightarrow> 'd db_adapter \<Rightarrow> int list \<Rightarrow> string list \<Rightarrow> ('c, 'd, 'h) world \<Rightarrow>
   (int, gomodel) gomap go_result \<times> ('c, 'd, 'h) world" where
  "ByIDs E t db ids preloads w =
     (case fetchModelsByIDsInternal (tcache t) db (tinfo t) (ttype t) (tttl t) ids (wcache w, wdb w) of
        (Inl e, c, d) \<Rightarrow> (Inl (Wrapped ''ByIDs failed during internal fetch'' e), w\<lparr>wcache := c, wdb := d\<rparr>)
      | (Inr models, c, d) \<Rightarrow>
          (let w1 = w\<lparr>wcache := c, wdb := d\<rparr>;
               (models', w2) = (if preloads \<noteq> [] \<and> models \<noteq> [] then apply_preloads E preloads models w1 else (models, w1))
           in (Inr models', w2)))"

section \<open>The database side of a query\<close>

text \<open>The condition with the rows that are not deleted, unless the query wants them all.\<close>

definition visible_where :: "QueryParams \<Rightarrow> string" where
  "visible_where p =
     (if IncludeDeleted p then Where p
      else if Where p = [] then [CHR 0x22] @ ''deleted'' @ [CHR 0x22] @ '' = false''
      else ''('' @ Where p @ '') AND '' @ [CHR 0x22] @ ''deleted'' @ [CHR 0x22] @ '' = false'')"

definition ids_query :: "'d db_adapter \<Rightarrow> ModelInfo \<Rightarrow> QueryParams \<Rightarrow> string \<times> goval list" where
  "ids_query db info p = BuildSelectIDsSQL (dbDialect db) (TableName info) (PkName info) (visible_where p) (Args p) (Order p)"

definition fetch_ids_from_db ::
  "('c, 'd, 'h) CachedResult \<Rightarrow> int \<Rightarrow> int \<Rightarrow> ('c, 'd, 'h) world \<Rightarrow> int list go_result \<times> ('c, 'd, 'h) world" where
  "fetch_ids_from_db cr offset lim w =
     (case crthing cr of
        None \<Rightarrow> (Inl (Errorf ''_fetch_ids_from_db: CachedResult not properly initialized''), w)
      | Some t \<Rightarrow>
          (case tdb t of
             None \<Rightarrow> (Inl (Errorf ''_fetch_ids_from_db: CachedResult not properly initialized''), w)
           | Some db \<Rightarrow>
               (let (query, args) = ids_query db (tinfo t) (crparams cr)
                in case dbSelectIDs db (wdb w) (query @ '' LIMIT '' @ format_int lim @ '' OFFSET '' @ format_int offset) args of
                     (Inl e, d) \<Rightarrow> (Inl (Wrapped ''database query for IDs failed'' e), w\<lparr>wdb := d\<rparr>)
                   | (Inr ids, d) \<Rightarrow> (Inr ids, w\<lparr>wdb := d\<rparr>))))"

section \<open>Counting\<close>

text \<open>A count into the cache and its key into the index; a failed write is only logged.\<close>

definition put_count ::
  "('c, 'd, 'h) thing \<Rightarrow> 'c cache_client \<Rightarrow> string \<Rightarrow> QueryParams \<Rightarrow> int \<Rightarrow> ('c, 'd, 'h) world \<Rightarrow> ('c, 'd, 'h) world" where
  "put_count t client key p n w =
     w\<lparr>wcache := snd (cSet client (wcache w) key (format_int n) (tttl t)),
       windex := RegisterQuery (tfmt t) (windex w) (TableName (tinfo t)) key p\<rparr>"

text \<open>A count from the cache. An entry that is not a number is deleted.\<close>

definition cached_count ::
  "'c cache_client \<Rightarrow> string \<Rightarrow> ('c, 'd, 'h) world \<Rightarrow> int option \<times> ('c, 'd, 'h) world" where
  "cached_count client key w =
     (case cGet client (wcache w) key of
        (Inl e, c) \<Rightarrow> (None, w\<lparr>wcache := c\<rparr>)
      | (Inr s, c) \<Rightarrow>
          (case parse_int s of
             Some n \<Rightarrow> (Some n, w\<lparr>wcache := c\<rparr>)
           | None \<Rightarrow> (None, w\<lparr>wcache := snd (cDelete client c key)\<rparr>)))"

text \<open>The length of the cached list, when the list is complete.\<close>

definition list_count ::
  "'c cache_client \<Rightarrow> string \<Rightarrow> ('c, 'd, 'h) world \<Rightarrow> int option \<times> ('c, 'd, 'h) world" where
  "list_count client key w =
     (case cGetQueryIDs client (wcache w) key of
        (Inl e, c) \<Rightarrow> (None, w\<lparr>wcache := c\<rparr>)
      | (Inr ids, c) \<Rightarrow> (if length ids < cacheListCountLimit then Some (int (length ids)) else None, w\<lparr>wcache := c\<rparr>))"

definition Count ::
  "('c, 'd, 'h) query_env \<Rightarrow> ('c, 'd, 'h) CachedResult \<Rightarrow> ('c, 'd, 'h) world \<Rightarrow>
   int go_result \<times> ('c, 'd, 'h) CachedResult \<times> ('c, 'd, 'h) world" where
  "Count E cr w =
     (case ready cr of
        None \<Rightarrow> (Inl (Errorf ''Count: CachedResult not properly initialized''), cr, w)
      | Some (t, client, db) \<Rightarrow>
          (if hasLoadedCount cr then (Inr (cachedCount cr), cr, w)
           else
             let p = crparams cr; key = generateCountCacheKey E t p
             in case cached_count client key w of
                  (Some n, w1) \<Rightarrow> (Inr n, cr\<lparr>cachedCount := n, hasLoadedCount := True\<rparr>, w1)
                | (None, w1) \<Rightarrow>
                    (case list_count client (generateListCacheKey E t p) w1 of
                       (Some n, w2) \<Rightarrow> (Inr n, cr\<lparr>cachedCount := n, hasLoadedCount := True\<rparr>, put_count t client key p n w2)
                     | (None, w2) \<Rightarrow>
                         (case dbGetCount db (wdb w2) (TableName (tinfo t)) (visible_where p) (Args p) of
                            (Inl e, d) \<Rightarrow> (Inl (Wrapped ''database count query failed'' e), cr, w2\<lparr>wdb := d\<rparr>)
                          | (Inr n, d) \<Rightarrow>
                              (Inr n, cr\<lparr>cachedCount := n, hasLoadedCount := True\<rparr>, put_count t client key p n (w2\<lparr>wdb := d\<rparr>))))))"

section \<open>The precise count\<close>

definition keeps :: "('c, 'd, 'h) thing \<Rightarrow> QueryParams \<Rightarrow> gomodel \<Rightarrow> bool" where
  "keeps t p m = (IncludeDeleted p \<or> KeepItem (tclass t) m)"

definition kept_count :: "('c, 'd, 'h) thing \<Rightarrow> QueryParams \<Rightarrow> (int, gomodel) gomap \<Rightarrow> int list \<Rightarrow> int" where
  "kept_count t p models ids =
     int (length (filter (\<lambda>i. case gm_get models i of None \<Rightarrow> False | Some m \<Rightarrow> keeps t p m) ids))"

definition scanBatchSize :: int where
  "scanBatchSize = 500"

text \<open>The scan ends when the database has no further ids; \<open>None\<close> is a scan that does not end.\<close>

partial_function (option) count_scan ::
  "('c, 'd, 'h) query_env \<Rightarrow> ('c, 'd, 'h) thing \<Rightarrow> 'd db_adapter \<Rightarrow> ('c, 'd, 'h) CachedResult \<Rightarrow> int \<Rightarrow> int \<Rightarrow> ('c, 'd, 'h) world \<Rightarrow>
   (int go_result \<times> ('c, 'd, 'h) world) option" where
  "count_scan E t db cr currentOffset n w =
     (case fetch_ids_from_db cr currentOffset scanBatchSize w of
        (Inl e, w1) \<Rightarrow> Some (Inl (Wrapped ''CountPrecise: failed to fetch IDs from database'' e), w1)
      | (Inr batchIDs, w1) \<Rightarrow>
          (if batchIDs = [] then Some (Inr n, w1)
           else case ByIDs E t db batchIDs [] w1 of
             (Inl e, w2) \<Rightarrow> Some (Inl (Wrapped ''CountPrecise: failed to fetch models for IDs'' e), w2)
           | (Inr models, w2) \<Rightarrow>
               (let n' = n + kept_count t (crparams cr) models batchIDs
                in if int (length batchIDs) < scanBatchSize then Some (Inr n', w2)
                   else count_scan E t db cr (currentOffset + int (length batchIDs)) n' w2)))"

definition countByFullScan ::
  "('c, 'd, 'h) query_env \<Rightarrow> ('c, 'd, 'h) thing \<Rightarrow> 'd db_adapter \<Rightarrow> ('c, 'd, 'h) CachedResult \<Rightarrow> ('c, 'd, 'h) world \<Rightarrow>
   (int go_result \<times> ('c, 'd, 'h) world) option" where
  "countByFullScan E t db cr w = count_scan E t db cr 0 0 w"

definition CountPrecise ::
  "('c, 'd, 'h) query_env \<Rightarrow> ('c, 'd, 'h) CachedResult \<Rightarrow> ('c, 'd, 'h) world \<Rightarrow>
   (int go_result \<times> ('c, 'd, 'h) CachedResult \<times> ('c, 'd, 'h) world) option" where
  "CountPrecise E cr w =
     (case ready cr of
        None \<Rightarrow> Some (Inl (Errorf ''CountPrecise: CachedResult not properly initialized''), cr, w)
      | Some (t, client, db) \<Rightarrow>
          (if \<not> HasCustomKeepItem (tinfo t) then Some (Count E cr w)
           else
             let p = crparams cr; preciseKey = generatePreciseCountCacheKey E t p
             in case cached_count client preciseKey w of
                  (Some n, w1) \<Rightarrow> Some (Inr n, cr, w1)
                | (None, w1) \<Rightarrow>
                    (case list_count client (generateListCacheKey E t p) w1 of
                       (Some n, w2) \<Rightarrow> Some (Inr n, cr, put_count t client preciseKey p n w2)
                     | (None, w2) \<Rightarrow>
                         (case countByFullScan E t db cr w2 of
                            None \<Rightarrow> None
                          | Some (Inl e, w3) \<Rightarrow> Some (Inl e, cr, w3)
                          | Some (Inr n, w3) \<Rightarrow> Some (Inr n, cr, put_count t client preciseKey p n w3)))))"

section \<open>Loading the list of ids\<close>

definition fetchBatchSize :: nat where
  "fetchBatchSize = 300"

definition maxIterations :: nat where
  "maxIterations = 20"

text \<open>The ids of a batch that are valid, as far as the list has room.\<close>

definition take_valid :: "(int \<Rightarrow> bool) \<Rightarrow> int list \<Rightarrow> int list \<Rightarrow> int list" where
  "take_valid valid batchIDs validIDs =
     foldl (\<lambda>vs i. if cacheListCountLimit \<le> length vs then vs else if valid i then vs @ [i] else vs) validIDs batchIDs"

fun fetch_data_loop ::
  "nat \<Rightarrow> ('c, 'd, 'h) query_env \<Rightarrow> ('c, 'd, 'h) thing \<Rightarrow> 'd db_adapter \<Rightarrow> ('c, 'd, 'h) CachedResult \<Rightarrow> int \<Rightarrow> int list \<Rightarrow> ('c, 'd, 'h) world \<Rightarrow>
   int list go_result \<times> ('c, 'd, 'h) world" where
  "fetch_data_loop 0 E t db cr currentOffset validIDs w = (Inr validIDs, w)"
| "fetch_data_loop (Suc n) E t db cr currentOffset validIDs w =
     (if cacheListCountLimit \<le> length validIDs then (Inr validIDs, w)
      else case fetch_ids_from_db cr currentOffset (int fetchBatchSize) w of
        (Inl e, w1) \<Rightarrow> (Inl (Wrapped ''failed to fetch IDs from database'' e), w1)
      | (Inr batchIDs, w1) \<Rightarrow>
          (if batchIDs = [] then (Inr validIDs, w1)
           else
             let currentOffset' = currentOffset + int (length batchIDs);
                 more = (\<lambda>validIDs' w2.
                   if length batchIDs < fetchBatchSize then (Inr validIDs', w2)
                   else fetch_data_loop n E t db cr currentOffset' validIDs' w2)
             in if \<not> HasCustomKeepItem (tinfo t) \<and> \<not> IncludeDeleted (crparams cr)
                then more (take_valid (\<lambda>_. True) batchIDs validIDs) w1
                else case ByIDs E t db batchIDs [] w1 of
                  (Inl e, w2) \<Rightarrow> fetch_data_loop n E t db cr currentOffset' validIDs w2
                | (Inr models, w2) \<Rightarrow>
                    more (take_valid (\<lambda>i. case gm_get models i of None \<Rightarrow> False | Some m \<Rightarrow> keeps t (crparams cr) m)
                            batchIDs validIDs) w2))"

definition fetch_data ::
  "('c, 'd, 'h) query_env \<Rightarrow> ('c, 'd, 'h) CachedResult \<Rightarrow> ('c, 'd, 'h) world \<Rightarrow> int list go_result \<times> ('c, 'd, 'h) world" where
  "fetch_data E cr w =
     (case ready cr of
        None \<Rightarrow> (Inl (Errorf ''_fetch_data: CachedResult not properly initialized''), w)
      | Some (t, client, db) \<Rightarrow>
          (let p = crparams cr; listCacheKey = generateListCacheKey E t p
           in case cGetQueryIDs client (wcache w) listCacheKey of
                (Inr ids, c) \<Rightarrow> (Inr ids, w\<lparr>wcache := c\<rparr>)
              | (Inl e, c) \<Rightarrow>
                  (case fetch_data_loop maxIterations E t db cr 0 [] (w\<lparr>wcache := c\<rparr>) of
                     (Inl e, w1) \<Rightarrow> (Inl e, w1)
                   | (Inr validIDs, w1) \<Rightarrow>
                       (let w2 = w1\<lparr>wcache := snd (cSetQueryIDs client (wcache w1) listCacheKey validIDs (tttl t)),
                              windex := RegisterQuery (tfmt t) (windex w1) (TableName (tinfo t)) listCacheKey p\<rparr>
                        in (Inr validIDs,
                            if length validIDs < cacheListCountLimit
                            then put_count t client (generateCountCacheKey E t p) p (int (length validIDs)) w2
                            else w2)))))"

definition fetch_ids ::
  "('c, 'd, 'h) query_env \<Rightarrow> ('c, 'd, 'h) CachedResult \<Rightarrow> ('c, 'd, 'h) world \<Rightarrow>
   unit go_result \<times> ('c, 'd, 'h) CachedResult \<times> ('c, 'd, 'h) world" where
  "fetch_ids E cr w =
     (if hasLoadedIDs cr then (Inr (), cr, w)
      else case fetch_data E cr w of
        (Inl e, w1) \<Rightarrow> (Inl e, cr, w1)
      | (Inr ids, w1) \<Rightarrow> (Inr (), cr\<lparr>cachedIDs := ids, hasLoadedIDs := True\<rparr>, w1))"

definition invalidateCache ::
  "('c, 'd, 'h) query_env \<Rightarrow> ('c, 'd, 'h) CachedResult \<Rightarrow> ('c, 'd, 'h) world \<Rightarrow>
   unit go_result \<times> ('c, 'd, 'h) CachedResult \<times> ('c, 'd, 'h) world" where
  "invalidateCache E cr w =
     (case crthing cr of
        None \<Rightarrow> (Inl (Errorf ''invalidateCache: CachedResult not properly initialized''), cr, w)
      | Some t \<Rightarrow>
          (case tcache t of
             None \<Rightarrow> (Inl (Errorf ''invalidateCache: CachedResult not properly initialized''), cr, w)
           | Some client \<Rightarrow>
               (let p = crparams cr;
                    c1 = snd (cDelete client (wcache w) (generateListCacheKey E t p));
                    c2 = snd (cDelete client c1 (generateCountCacheKey E t p))
                in (Inr (), cr\<lparr>hasLoadedIDs := False, hasLoadedCount := False, cachedIDs := [], cachedCount := 0\<rparr>,
                    w\<lparr>wcache := c2\<rparr>))))"

section \<open>Fetching a page\<close>

datatype fetch_source = FromCache | FromDatabase | FromNowhere

text \<open>The ids one iteration looks at: a slice of the cached ids, or a page from the database.\<close>

definition ids_to_check ::
  "('c, 'd, 'h) CachedResult \<Rightarrow> int \<Rightarrow> int \<Rightarrow> int \<Rightarrow> ('c, 'd, 'h) world \<Rightarrow>
   fetch_source \<times> int list go_result \<times> ('c, 'd, 'h) world" where
  "ids_to_check cr totalCount offset lim w =
     (let len = int (length (cachedIDs cr)) in
      if offset < len
      then if offset < 0 then (FromCache, Inl (Panic ''slice bounds out of range''), w)
           else let actual = min lim (len - offset) in (FromCache, Inr (take (nat actual) (drop (nat offset) (cachedIDs cr))), w)
      else if offset < totalCount
      then case fetch_ids_from_db cr offset lim w of
             (Inl e, w1) \<Rightarrow> (FromDatabase, Inl (Wrapped ''failed to fetch additional IDs from database'' e), w1)
           | (Inr ids, w1) \<Rightarrow> (FromDatabase, Inr ids, w1)
      else (FromNowhere, Inr [], w))"

text \<open>The models of a batch: the results, how many are still needed, how many ids were processed, and
  whether a cached id had no model to keep.\<close>

fun collect_kept ::
  "('c, 'd, 'h) thing \<Rightarrow> QueryParams \<Rightarrow> fetch_source \<Rightarrow> (int, gomodel) gomap \<Rightarrow> int list \<Rightarrow> gomodel list \<Rightarrow> int \<Rightarrow> nat \<Rightarrow> bool \<Rightarrow>
   gomodel list \<times> int \<times> nat \<times> bool" where
  "collect_kept t p src models [] results needed processed issue = (results, needed, processed, issue)"
| "collect_kept t p src models (i # ids) results needed processed issue =
     (case gm_get models i of
        None \<Rightarrow> collect_kept t p src models ids results needed (Suc processed) (issue \<or> src = FromCache)
      | Some m \<Rightarrow>
          if keeps t p m then
            if needed - 1 = 0 then (results @ [m], 0, Suc processed, issue)
            else collect_kept t p src models ids (results @ [m]) (needed - 1) (Suc processed) issue
          else collect_kept t p src models ids results needed (Suc processed) (issue \<or> src = FromCache))"

lemma collect_kept_processed:
  "collect_kept t p src models ids res rem k issue = (res', rem', k', issue') \<Longrightarrow> k + min 1 (length ids) \<le> k' \<and> k' \<le> k + length ids"
proof (induction ids arbitrary: res rem k issue)
  case (Cons i ids)
  then show ?case by (fastforce split: option.splits if_splits)
qed simp

lemma invalidateCache_ids: "invalidateCache E cr w = (r, cr', w') \<Longrightarrow> length (cachedIDs cr') \<le> length (cachedIDs cr)"
  by (auto simp: invalidateCache_def Let_def split: option.splits)

lemma ids_to_check_bound:
  "ids_to_check cr totalCount offset lim w = (src, Inr ids, w') \<Longrightarrow> ids \<noteq> [] \<Longrightarrow> offset < max (int (length (cachedIDs cr))) totalCount"
  by (auto simp: ids_to_check_def Let_def split: if_splits prod.splits sum.splits)

lemma ids_to_check_advance:
  "(src, r, w') = ids_to_check cr totalCount offset lim w \<Longrightarrow> r = Inr ids \<Longrightarrow> ids \<noteq> [] \<Longrightarrow> n \<le> length (cachedIDs cr) \<Longrightarrow> 0 < k \<Longrightarrow>
   nat (max (int n) totalCount - (offset + k)) < nat (max (int (length (cachedIDs cr))) totalCount - offset)"
  using ids_to_check_bound[of cr totalCount offset lim w src ids w'] by simp

function fetch_loop ::
  "('c, 'd, 'h) query_env \<Rightarrow> ('c, 'd, 'h) thing \<Rightarrow> 'd db_adapter \<Rightarrow> int \<Rightarrow> bool \<Rightarrow> int \<Rightarrow> int \<Rightarrow> int \<Rightarrow> gomodel list \<Rightarrow>
   ('c, 'd, 'h) CachedResult \<Rightarrow> ('c, 'd, 'h) world \<Rightarrow>
   gomodel list go_result \<times> ('c, 'd, 'h) CachedResult \<times> ('c, 'd, 'h) world" where
  "fetch_loop E t db totalCount invalidated offset lim needed results cr w =
     (if needed \<le> 0 then (Inr results, cr, w)
      else case ids_to_check cr totalCount offset lim w of
        (src, Inl e, w1) \<Rightarrow> (Inl e, cr, w1)
      | (src, Inr ids, w1) \<Rightarrow>
          (if ids = [] then (Inr results, cr, w1)
           else case ByIDs E t db ids (Preloads (crparams cr)) w1 of
             (Inl e, w2) \<Rightarrow>
               (if src = FromCache \<and> \<not> invalidated
                then case invalidateCache E cr w2 of
                  (_, cr', w3) \<Rightarrow> fetch_loop E t db totalCount True (offset + int (length ids)) lim needed results cr' w3
                else fetch_loop E t db totalCount invalidated (offset + int (length ids)) needed needed results cr w2)
           | (Inr models, w2) \<Rightarrow>
               (case collect_kept t (crparams cr) src models ids results needed 0 False of
                  (results', needed', processed, issue) \<Rightarrow>
                    (case (if src = FromCache \<and> issue \<and> \<not> invalidated then (True, snd (invalidateCache E cr w2))
                           else (invalidated, cr, w2)) of
                       (invalidated', cr', w3) \<Rightarrow>
                         if needed' = 0 then (Inr results', cr', w3)
                         else fetch_loop E t db totalCount invalidated' (offset + int processed) needed' needed' results' cr' w3))))"
  by pat_completeness auto

termination
proof (relation "measure (\<lambda>(E, t, db, totalCount, invalidated, offset, lim, needed, results, cr, w).
      nat (max (int (length (cachedIDs cr))) totalCount - offset))", goal_cases)
  case (2 E t db totalCount invalidated offset lim needed results cr w x y xa ya b xaa yb a xd yd cr' w3)
  have "length (cachedIDs cr') \<le> length (cachedIDs cr)" using 2 invalidateCache_ids by metis
  with 2 show ?case by (auto intro!: ids_to_check_advance)
next
  case (3 E t db totalCount invalidated offset lim needed results cr w x y xa ya b xaa yb a)
  then show ?case
    using ids_to_check_advance[of x xa ya cr totalCount offset lim w b "length (cachedIDs cr)" "int (length b)"] by auto
next
  case (4 E t db totalCount invalidated offset lim needed results cr w x y xa ya b xaa yb ba xab yc xac yd xad ye xae yf xb yg)
  have "0 < xad" using 4 collect_kept_processed[of t "crparams cr" x ba b results needed 0 False xab xac xad ye]
    by (cases b) auto
  moreover have "length (cachedIDs xb) \<le> length (cachedIDs cr)"
    using 4 invalidateCache_ids[of E cr yb] by (cases "invalidateCache E cr yb") (auto split: if_splits)
  ultimately show ?case using 4 by (auto intro!: ids_to_check_advance)
qed simp

declare fetch_loop.simps [simp del]

definition Fetch ::
  "('c, 'd, 'h) query_env \<Rightarrow> ('c, 'd, 'h) CachedResult \<Rightarrow> int \<Rightarrow> int \<Rightarrow> ('c, 'd, 'h) world \<Rightarrow>
   gomodel list go_result \<times> ('c, 'd, 'h) CachedResult \<times> ('c, 'd, 'h) world" where
  "Fetch E cr offset lim w =
     (case crErr cr of
        Some e \<Rightarrow> (Inl e, cr, w)
      | None \<Rightarrow>
          (case ready cr of
             None \<Rightarrow> (Inl (Errorf ''Fetch: CachedResult not properly initialized''), cr, w)
           | Some (t, client, db) \<Rightarrow>
               (case fetch_ids E cr w of
                  (Inl e, cr1, w1) \<Rightarrow> (Inl (Wrapped ''failed to fetch underlying IDs'' e), cr1, w1)
                | (Inr _, cr1, w1) \<Rightarrow>
                    (if cachedIDs cr1 = [] then (Inr [], cr1, w1)
                     else
                       let (r, cr2, w2) = Count E cr1 w1;
                           totalCount = (case r of Inl _ \<Rightarrow> int (length (cachedIDs cr2)) | Inr n \<Rightarrow> n)
                       in if lim < 0 then (Inl (Panic ''makeslice: cap out of range''), cr2, w2)
                          else fetch_loop E t db totalCount False offset lim lim [] cr2 w2))))"

definition All ::
  "('c, 'd, 'h) query_env \<Rightarrow> ('c, 'd, 'h) CachedResult \<Rightarrow> ('c, 'd, 'h) world \<Rightarrow>
   gomodel list go_result \<times> ('c, 'd, 'h) CachedResult \<times> ('c, 'd, 'h) world" where
  "All E cr w =
     (if hasLoadedAll cr then (Inr (crall cr), cr, w)
      else case Count E cr w of
        (Inl e, cr1, w1) \<Rightarrow> (Inl (Wrapped ''failed to get count for All()'' e), cr1, w1)
      | (Inr n, cr1, w1) \<Rightarrow>
          (if n = 0 then (Inr [], cr1, w1)
           else case Fetch E cr1 0 n w1 of
             (Inl e, cr2, w2) \<Rightarrow> (Inl (if is_panic e then e else Wrapped ''failed to fetch records for All()'' e), cr2, w2)
           | (Inr results, cr2, w2) \<Rightarrow> (Inr results, cr2\<lparr>crall := results, hasLoadedAll := True\<rparr>, w2)))"

definition First ::
  "('c, 'd, 'h) query_env \<Rightarrow> ('c, 'd, 'h) CachedResult \<Rightarrow> ('c, 'd, 'h) world \<Rightarrow>
   gomodel go_result \<times> ('c, 'd, 'h) CachedResult \<times> ('c, 'd, 'h) world" where
  "First E cr w =
     (case Fetch E cr 0 1 w of
        (Inl e, cr1, w1) \<Rightarrow> (Inl e, cr1, w1)
      | (Inr results, cr1, w1) \<Rightarrow> (case results of [] \<Rightarrow> (Inl ErrNotFound, cr1, w1) | m # _ \<Rightarrow> (Inr m, cr1, w1)))"

definition thing_All ::
  "('c, 'd, 'h) query_env \<Rightarrow> ('c, 'd, 'h) thing \<Rightarrow> ('c, 'd, 'h) world \<Rightarrow>
   gomodel list go_result \<times> ('c, 'd, 'h) CachedResult \<times> ('c, 'd, 'h) world" where
  "thing_All E t w = All E (Query t emptyParams) w"

section \<open>Building a query\<close>

definition reset_loaded :: "('c, 'd, 'h) CachedResult \<Rightarrow> ('c, 'd, 'h) CachedResult" where
  "reset_loaded cr =
     cr\<lparr>hasLoadedCount := False, hasLoadedIDs := False, cachedIDs := [], cachedCount := 0, hasLoadedAll := False, crall := []\<rparr>"

definition WithDeleted :: "('c, 'd, 'h) CachedResult \<Rightarrow> ('c, 'd, 'h) CachedResult" where
  "WithDeleted cr = reset_loaded (cr\<lparr>crparams := (crparams cr)\<lparr>IncludeDeleted := True\<rparr>\<rparr>)"

definition Where_thing :: "('c, 'd, 'h) thing \<Rightarrow> string \<Rightarrow> goval list \<Rightarrow> ('c, 'd, 'h) CachedResult" where
  "Where_thing t cond vals = Query t (emptyParams\<lparr>Where := cond, Args := vals\<rparr>)"

definition Where_result :: "('c, 'd, 'h) CachedResult \<Rightarrow> string \<Rightarrow> goval list \<Rightarrow> ('c, 'd, 'h) CachedResult" where
  "Where_result cr cond vals = reset_loaded (cr\<lparr>crparams := (crparams cr)\<lparr>Where := cond, Args := vals\<rparr>\<rparr>)"

definition Order_thing :: "('c, 'd, 'h) thing \<Rightarrow> string \<Rightarrow> ('c, 'd, 'h) CachedResult" where
  "Order_thing t order = Query t (emptyParams\<lparr>Order := order\<rparr>)"

definition Order_result :: "('c, 'd, 'h) CachedResult \<Rightarrow> string \<Rightarrow> ('c, 'd, 'h) CachedResult" where
  "Order_result cr order = reset_loaded (cr\<lparr>crparams := (crparams cr)\<lparr>Order := order\<rparr>\<rparr>)"

definition Preload_thing :: "('c, 'd, 'h) thing \<Rightarrow> string list \<Rightarrow> ('c, 'd, 'h) CachedResult" where
  "Preload_thing t preloads = Query t (emptyParams\<lparr>Preloads := preloads\<rparr>)"

definition Preload_result :: "('c, 'd, 'h) CachedResult \<Rightarrow> string list \<Rightarrow> ('c, 'd, 'h) CachedResult" where
  "Preload_result cr preloads = reset_loaded (cr\<lparr>crparams := (crparams cr)\<lparr>Preloads := Preloads (crparams cr) @ preloads\<rparr>\<rparr>)"

end
