(* ===== verification/Query_Pages.thy ===== *)
theory Query_Pages
  imports Query_Exec
begin

text \<open>
  What a query returns: with caches that agree with the database, \<open>Fetch\<close> returns the requested page
  of the rows of the query in their order, \<open>All\<close> all of them, \<open>First\<close> the first and \<open>Count\<close> their
  number, and the caches still agree afterwards.
\<close>

section \<open>Keys of queries and of models\<close>

definition colons :: "string \<Rightarrow> nat" where
  "colons s = length (filter (\<lambda>c. c = CHR '':'') s)"

lemma colons_append [simp]: "colons (s @ t) = colons s + colons t"
  by (simp add: colons_def)

lemma colons_simps [simp]: "colons [] = 0" "colons (c # s) = (if c = CHR '':'' then 1 else 0) + colons s"
  by (simp_all add: colons_def)

lemma colons_format_int [simp]: "colons (format_int i) = 0"
proof -
  have "list_all (\<lambda>c. c \<noteq> CHR '':'') (nat_dec n)" for n
    using nat_dec_digits(1)[of n] by (auto simp: list_all_iff is_digit_def)
  then show ?thesis by (auto simp: colons_def format_int_def list_all_iff filter_empty_conv)
qed

lemma query_key_not_model_key:
  assumes "CHR '':'' \<notin> set (TableName info)"
  shows "generateCacheKey (TableName info) i \<noteq> query_key E prefix t p"
proof -
  have "colons (TableName info) = 0" using assms by (auto simp: colons_def filter_empty_conv)
  then have "colons (generateCacheKey (TableName info) i) = 1" by (simp add: generateCacheKey_def)
  moreover have "2 \<le> colons (query_key E prefix t p)" by (simp add: query_key_def GenerateCacheKey_def)
  ultimately show ?thesis by auto
qed

lemma list_key_not_count_key: "generateListCacheKey E t p \<noteq> generateCountCacheKey E t q"
  by (simp add: generateListCacheKey_def generateCountCacheKey_def query_key_def GenerateCacheKey_def)

lemma format_int_not_none: "format_int i \<noteq> NoneResult"
proof
  assume eq: "format_int i = NoneResult"
  have "\<exists>c r. format_int i = c # r \<and> (c = CHR ''-'' \<or> is_digit c)"
    using nat_dec_digits[of "nat i"] by (cases "nat_dec (nat i)") (auto simp: format_int_def)
  with eq show False by (auto simp: NoneResult_def is_digit_def)
qed

section \<open>What is asked of the database\<close>

text \<open>
  The database answers a query with the page of a list \<open>I\<close> of ids that was asked for, counts it, and
  keeps its tables.
\<close>

definition serves_query ::
  "'d db_adapter \<Rightarrow> ModelInfo \<Rightarrow> QueryParams \<Rightarrow> ('d \<Rightarrow> int \<Rightarrow> gomodel option) \<Rightarrow> int list \<Rightarrow> 'd \<Rightarrow> bool" where
  "serves_query db info p tbl I d0 \<longleftrightarrow>
     (\<forall>d offset lim. tbl d = tbl d0 \<and> 0 \<le> offset \<and> 0 \<le> lim \<longrightarrow>
        (\<exists>d'. dbSelectIDs db d (fst (ids_query db info p) @ '' LIMIT '' @ format_int lim @ '' OFFSET '' @ format_int offset)
             (snd (ids_query db info p)) = (Inr (take (nat lim) (drop (nat offset) I)), d') \<and> tbl d' = tbl d0)) \<and>
     (\<forall>d. tbl d = tbl d0 \<longrightarrow>
        (\<exists>d'. dbGetCount db d (TableName info) (visible_where p) (Args p) = (Inr (int (length I)), d') \<and> tbl d' = tbl d0))"

text \<open>
  A thing with a cache and such a database, and a query without preloads whose rows are there;
  whether a row is kept depends on its fields.
\<close>

definition query_setup ::
  "('c, 'd, 'h) thing \<Rightarrow> 'c cache_client \<Rightarrow> 'd db_adapter \<Rightarrow> QueryParams \<Rightarrow> ('d \<Rightarrow> int \<Rightarrow> gomodel option) \<Rightarrow> int list \<Rightarrow> 'd \<Rightarrow> bool" where
  "query_setup t client db p tbl I d0 \<longleftrightarrow>
     tcache t = Some client \<and> tdb t = Some db \<and> isPtr (ttype t) \<and> Preloads p = [] \<and>
     CHR '':'' \<notin> set (TableName (tinfo t)) \<and> ''isNewRecord'' \<notin> set (FieldNames (tinfo t)) \<and>
     serves_rows db (tinfo t) (zeroModel (ttype t)) tbl d0 \<and> serves_query db (tinfo t) p tbl I d0 \<and>
     int (length I) \<le> max_int64 \<and>
     (\<forall>i \<in> set I. \<exists>row. tbl d0 i = Some row \<and> (\<forall>m. same_fields (tinfo t) m row \<longrightarrow> keeps t p m = keeps t p row))"

definition all_kept :: "('c, 'd, 'h) thing \<Rightarrow> QueryParams \<Rightarrow> (int \<Rightarrow> gomodel option) \<Rightarrow> int list \<Rightarrow> bool" where
  "all_kept t p T I \<longleftrightarrow> (\<forall>i \<in> set I. \<forall>row. T i = Some row \<longrightarrow> keeps t p row)"

text \<open>The models are those of the rows with these ids.\<close>

definition rows_of :: "ModelInfo \<Rightarrow> (int \<Rightarrow> gomodel option) \<Rightarrow> int list \<Rightarrow> gomodel list \<Rightarrow> bool" where
  "rows_of info T ids ms \<longleftrightarrow> list_all2 (\<lambda>i m. \<exists>row. T i = Some row \<and> same_fields info m row) ids ms"

section \<open>A cache for queries and models\<close>

text \<open>
  A cache for models that holds query results as well: \<open>view\<close> is what a read of a key finds. Reads
  and deletes add nothing, a write adds at most its own entry.
\<close>

locale query_cache = model_cache client read marked restored
  for client :: "'c cache_client" and read marked restored +
  fixes view :: "'c \<Rightarrow> string \<rightharpoonup> cache_value"
  assumes get_view: "fst (cGet client s k) = Inr v \<Longrightarrow> view s k = Some (CString v)"
    and get_ids_view: "fst (cGetQueryIDs client s k) = Inr ids \<Longrightarrow> view s k = Some (CIDs ids)"
    and view_get: "view (snd (cGet client s k)) j = Some x \<Longrightarrow> view s j = Some x"
    and view_get_ids: "view (snd (cGetQueryIDs client s k)) j = Some x \<Longrightarrow> view s j = Some x"
    and view_delete: "view (snd (cDelete client s k)) j = Some x \<Longrightarrow> view s j = Some x"
    and view_mget: "view (snd (cMGetModel client s keys dests)) j = Some x \<Longrightarrow> view s j = Some x"
    and view_set: "view (snd (cSet client s k v d)) j = Some x \<Longrightarrow> view s j = Some x \<or> j = k \<and> x = CString v"
    and view_set_ids: "view (snd (cSetQueryIDs client s k ids d)) j = Some x \<Longrightarrow> view s j = Some x \<or> j = k \<and> x = CIDs ids"
    and view_set_model: "view (snd (cSetModel client s k m fs d)) j = Some x \<Longrightarrow> view s j = Some x \<or> j = k"
    and read_set: "read (snd (cSet client s k v d)) j dest = Some y \<Longrightarrow> read s j dest = Some y"
    and read_get: "read (snd (cGet client s k)) j dest = Some y \<Longrightarrow> read s j dest = Some y"
    and read_get_ids: "read (snd (cGetQueryIDs client s k)) j dest = Some y \<Longrightarrow> read s j dest = Some y"
    and read_delete: "read (snd (cDelete client s k)) j dest = Some y \<Longrightarrow> read s j dest = Some y"
    and read_set_ids: "read (snd (cSetQueryIDs client s k ids d)) j dest = Some y \<Longrightarrow> read s j dest = Some y"
    and marked_get: "marked (snd (cGet client s k)) j \<Longrightarrow> marked s j"
    and marked_get_ids: "marked (snd (cGetQueryIDs client s k)) j \<Longrightarrow> marked s j"
    and marked_delete: "marked (snd (cDelete client s k)) j \<Longrightarrow> marked s j"
    and marked_set_ids: "marked (snd (cSetQueryIDs client s k ids d)) j \<Longrightarrow> marked s j"
begin

text \<open>Reading models does not touch the other keys.\<close>

lemma store_rows_view:
  "store_rows (Some client) info ttl rows res fetched c = (res', fetched', c') \<Longrightarrow> view c' j = Some x \<Longrightarrow>
   (\<And>i. j \<noteq> generateCacheKey (TableName info) i) \<Longrightarrow> view c j = Some x"
proof (induction rows arbitrary: res fetched c)
  case (Cons m rows)
  show ?case
  proof (cases "GetID m = 0")
    case False
    let ?k = "generateCacheKey (TableName info) (GetID m)" and ?m = "setNewRecordFlagIfBaseModel m False"
    have "view (snd (cSetModel client c ?k ?m (FieldNames info) ttl)) j = Some x"
      using Cons.IH[OF _ Cons.prems(2,3)] Cons.prems(1) False by (simp add: Let_def)
    then show ?thesis using view_set_model Cons.prems(3) by blast
  qed (use Cons in simp)
qed simp

lemma store_none_view:
  "view (store_none client info ttl fetched ids c) j = Some x \<Longrightarrow> (\<And>i. j \<noteq> generateCacheKey (TableName info) i) \<Longrightarrow> view c j = Some x"
  by (induction ids arbitrary: c) (auto split: if_splits dest: view_set)

lemma fetch_batches_view:
  "fetch_batches (Some client) db info zero ttl bs res (c, d) = (res', c', d') \<Longrightarrow> view c' j = Some x \<Longrightarrow>
   (\<And>i. j \<noteq> generateCacheKey (TableName info) i) \<Longrightarrow> view c j = Some x"
proof (induction bs arbitrary: res c d)
  case (Cons b bs)
  show ?case
  proof (cases "dbSelectModels db d zero (batch_query (dbDialect db) info (length b)) (map (VInt S64) b)")
    case (Pair r d1)
    obtain res1 f1 c1 where st: "store_rows (Some client) info ttl (case r of Inr rows \<Rightarrow> rows | _ \<Rightarrow> []) res [] c = (res1, f1, c1)"
      using prod_cases3 by blast
    show ?thesis
    proof (cases r)
      case (Inl e)
      then show ?thesis using Cons Pair by simp
    next
      case (Inr rows)
      with Cons.prems(1) Pair st
      have "fetch_batches (Some client) db info zero ttl bs res1 (store_none client info ttl f1 b c1, d1) = (res', c', d')" by simp
      from Cons.IH[OF this Cons.prems(2,3)] have "view (store_none client info ttl f1 b c1) j = Some x" .
      then have "view c1 j = Some x" using store_none_view Cons.prems(3) by blast
      then show ?thesis using store_rows_view[OF _ _ Cons.prems(3)] st Inr by simp
    qed
  qed
qed simp

lemma fetch_view:
  assumes "fetchModelsByIDsInternal (Some client) db info ty ttl ids (c, d) = (r, c', d')" and "view c' j = Some x"
    and j: "\<And>i. j \<noteq> generateCacheKey (TableName info) i"
  shows "view c j = Some x"
proof (cases "ids = [] \<or> \<not> isPtr ty")
  case True
  with assms show ?thesis by (auto simp: fetchModelsByIDsInternal_def split: if_splits)
next
  case False
  let ?keys = "map (generateCacheKey (TableName info)) ids" and ?dests = "replicate (length ids) (zeroModel ty)"
  obtain rs c1 where mget: "cMGetModel client c ?keys ?dests = (rs, c1)" by (cases "cMGetModel client c ?keys ?dests")
  obtain res1 missing where cres: "cache_results ids rs [] [] = (res1, missing)" by (cases "cache_results ids rs [] []")
  have older: "view c1 j = Some x \<Longrightarrow> view c j = Some x" using view_mget[of c ?keys ?dests j x] mget by simp
  obtain res2 c2 d2 where fb: "fetch_batches (Some client) db info (zeroModel ty) ttl (batches ByIDBatchSize missing) res1 (c1, d) = (res2, c2, d2)"
    using prod_cases3 by blast
  have "c' = c1 \<or> c' = c2"
    using assms(1) False mget cres fb by (auto simp: fetchModelsByIDsInternal_def split: if_splits)
  then show ?thesis using older assms(2) fetch_batches_view[OF fb _ j] by auto
qed

text \<open>
  The cache agrees with the table \<open>T\<close> and with the result \<open>I\<close> of one query, whose list and count
  have the keys \<open>lk\<close> and \<open>ck\<close>.
\<close>

definition agrees :: "ModelInfo \<Rightarrow> gomodel \<Rightarrow> (int \<Rightarrow> gomodel option) \<Rightarrow> string \<Rightarrow> string \<Rightarrow> int list \<Rightarrow> 'c \<Rightarrow> bool" where
  "agrees info zero T lk ck I c \<longleftrightarrow> coherent info zero T c \<and>
     (\<forall>x. view c lk = Some x \<longrightarrow> x = CIDs (take cacheListCountLimit I)) \<and>
     (\<forall>x. view c ck = Some x \<longrightarrow> x = CString (format_int (int (length I))))"

lemma agrees_get: "agrees info zero T lk ck I c \<Longrightarrow> agrees info zero T lk ck I (snd (cGet client c k))"
  unfolding agrees_def coherent_def by (meson read_get marked_get view_get)

lemma agrees_get_ids: "agrees info zero T lk ck I c \<Longrightarrow> agrees info zero T lk ck I (snd (cGetQueryIDs client c k))"
  unfolding agrees_def coherent_def by (meson read_get_ids marked_get_ids view_get_ids)

lemma agrees_delete: "agrees info zero T lk ck I c \<Longrightarrow> agrees info zero T lk ck I (snd (cDelete client c k))"
  unfolding agrees_def coherent_def by (meson read_delete marked_delete view_delete)

lemma agrees_set_count:
  assumes "agrees info zero T lk ck I c" and "lk \<noteq> ck"
  shows "agrees info zero T lk ck I (snd (cSet client c ck (format_int (int (length I))) d))"
proof -
  let ?c = "snd (cSet client c ck (format_int (int (length I))) d)"
  have "coherent info zero T ?c"
    using assms(1) format_int_not_none unfolding agrees_def coherent_def by (blast dest: read_set set_marked)
  moreover have "\<And>x. view ?c lk = Some x \<Longrightarrow> view c lk = Some x" using view_set assms(2) by blast
  moreover have "\<And>x. view ?c ck = Some x \<Longrightarrow> view c ck = Some x \<or> x = CString (format_int (int (length I)))"
    using view_set by blast
  ultimately show ?thesis using assms(1) unfolding agrees_def by blast
qed

lemma agrees_set_list:
  assumes "agrees info zero T lk ck I c" and "lk \<noteq> ck"
  shows "agrees info zero T lk ck I (snd (cSetQueryIDs client c lk (take cacheListCountLimit I) d))"
proof -
  let ?c = "snd (cSetQueryIDs client c lk (take cacheListCountLimit I) d)"
  have "coherent info zero T ?c"
    using assms(1) unfolding agrees_def coherent_def by (blast dest: read_set_ids marked_set_ids)
  moreover have "\<And>x. view ?c ck = Some x \<Longrightarrow> view c ck = Some x" using view_set_ids assms(2) by metis
  moreover have "\<And>x. view ?c lk = Some x \<Longrightarrow> view c lk = Some x \<or> x = CIDs (take cacheListCountLimit I)"
    using view_set_ids by blast
  ultimately show ?thesis using assms(1) unfolding agrees_def by blast
qed

end

section \<open>Queries through a cache that agrees\<close>

context query_cache
begin

definition served ::
  "('c, 'd, 'h) thing \<Rightarrow> 'd db_adapter \<Rightarrow> QueryParams \<Rightarrow> ('d \<Rightarrow> int \<Rightarrow> gomodel option) \<Rightarrow> int list \<Rightarrow> 'd \<Rightarrow> bool" where
  "served t db p tbl I d0 \<longleftrightarrow> query_setup t client db p tbl I d0 \<and> restores (tinfo t) (zeroModel (ttype t)) (tbl d0)"

definition good ::
  "('c, 'd, 'h) query_env \<Rightarrow> ('c, 'd, 'h) thing \<Rightarrow> QueryParams \<Rightarrow> ('d \<Rightarrow> int \<Rightarrow> gomodel option) \<Rightarrow> int list \<Rightarrow> 'd \<Rightarrow> ('c, 'd, 'h) world \<Rightarrow> bool" where
  "good E t p tbl I d0 w \<longleftrightarrow> tbl (wdb w) = tbl d0 \<and>
     agrees (tinfo t) (zeroModel (ttype t)) (tbl d0) (generateListCacheKey E t p) (generateCountCacheKey E t p) I (wcache w)"

lemma served_keys:
  assumes "served t db p tbl I d0"
  shows "generateListCacheKey E t p \<noteq> generateCacheKey (TableName (tinfo t)) i"
    and "generateCountCacheKey E t p \<noteq> generateCacheKey (TableName (tinfo t)) i"
  using query_key_not_model_key[of "tinfo t" i E _ t p, THEN not_sym] assms
  by (simp_all add: served_def query_setup_def generateListCacheKey_def generateCountCacheKey_def)

lemma served_row:
  "served t db p tbl I d0 \<Longrightarrow> i \<in> set I \<Longrightarrow> \<exists>row. tbl d0 i = Some row \<and> (\<forall>m. same_fields (tinfo t) m row \<longrightarrow> keeps t p m = keeps t p row)"
  by (simp add: served_def query_setup_def)

lemma good_read:
  "good E t p tbl I d0 w \<Longrightarrow> good E t p tbl I d0 (w\<lparr>wcache := snd (cGet client (wcache w) k)\<rparr>)"
  "good E t p tbl I d0 w \<Longrightarrow> good E t p tbl I d0 (w\<lparr>wcache := snd (cGetQueryIDs client (wcache w) k)\<rparr>)"
  by (auto simp: good_def agrees_get agrees_get_ids)

lemma byids:
  assumes S: "served t db p tbl I d0" and G: "good E t p tbl I d0 w" and ids: "set ids \<subseteq> set I"
  obtains models w' where "ByIDs E t db ids [] w = (Inr models, w')" and "good E t p tbl I d0 w'"
    and "\<forall>i \<in> set ids. \<exists>m row. gm_get models i = Some m \<and> tbl d0 i = Some row \<and> same_fields (tinfo t) m row \<and> keeps t p m = keeps t p row"
proof -
  let ?info = "tinfo t" and ?zero = "zeroModel (ttype t)"
  let ?lk = "generateListCacheKey E t p" and ?ck = "generateCountCacheKey E t p"
  obtain r c' d' where f: "fetchModelsByIDsInternal (Some client) db ?info (ttype t) (tttl t) ids (wcache w, wdb w) = (r, c', d')"
    using prod_cases3 by blast
  have tbl: "tbl (wdb w) = tbl d0" and ag: "agrees ?info ?zero (tbl d0) ?lk ?ck I (wcache w)" using G by (auto simp: good_def)
  have serve: "serves_rows db ?info ?zero tbl (wdb w)" using S tbl by (simp add: served_def query_setup_def serves_rows_def)
  from fetch_ok[OF serve _ _ _ _ f] S tbl ag
  obtain models where r: "r = Inr models" and c': "coherent ?info ?zero (tbl d0) c'" "tbl d' = tbl d0" and found: "found_ok ?info (tbl d0) models"
    "\<forall>i \<in> set ids. tbl d0 i \<noteq> None \<longrightarrow> gm_get models i \<noteq> None"
    by (auto simp: served_def query_setup_def agrees_def)
  have "agrees ?info ?zero (tbl d0) ?lk ?ck I c'"
    using ag c'(1) fetch_view[OF f _ served_keys(1)[OF S]] fetch_view[OF f _ served_keys(2)[OF S]] unfolding agrees_def by blast
  then have "good E t p tbl I d0 (w\<lparr>wcache := c', wdb := d'\<rparr>)" using c'(2) by (simp add: good_def)
  moreover have "ByIDs E t db ids [] w = (Inr models, w\<lparr>wcache := c', wdb := d'\<rparr>)"
    using f r S by (simp add: ByIDs_def served_def query_setup_def)
  moreover have "\<exists>m row. gm_get models i = Some m \<and> tbl d0 i = Some row \<and> same_fields ?info m row \<and> keeps t p m = keeps t p row" if i: "i \<in> set ids" for i
  proof -
    obtain row where row: "tbl d0 i = Some row" "\<forall>m. same_fields ?info m row \<longrightarrow> keeps t p m = keeps t p row"
      using served_row[OF S] ids i by blast
    then obtain m where m: "gm_get models i = Some m" using found(2) i by auto
    then show ?thesis using found(1) row unfolding found_ok_def by (metis option.inject)
  qed
  ultimately show thesis using that by blast
qed

lemma ids_page:
  assumes S: "served t db p tbl I d0" and G: "good E t p tbl I d0 w" and "0 \<le> offset" and "0 \<le> lim" and "crthing cr = Some t" and "crparams cr = p"
  obtains w' where "fetch_ids_from_db cr offset lim w = (Inr (take (nat lim) (drop (nat offset) I)), w')" and "good E t p tbl I d0 w'"
proof -
  from assms obtain d' where "dbSelectIDs db (wdb w) (fst (ids_query db (tinfo t) p) @ '' LIMIT '' @ format_int lim @ '' OFFSET '' @ format_int offset)
      (snd (ids_query db (tinfo t) p)) = (Inr (take (nat lim) (drop (nat offset) I)), d')" "tbl d' = tbl d0"
    unfolding served_def query_setup_def serves_query_def good_def by metis
  with assms show thesis
    by (intro that[of "w\<lparr>wdb := d'\<rparr>"]) (auto simp: fetch_ids_from_db_def served_def query_setup_def good_def case_prod_unfold)
qed

text \<open>The list of ids.\<close>

lemma page_subset: "set (take k (drop n I)) \<subseteq> set I"
  by (meson set_take_subset set_drop_subset subset_trans)

lemma kept_all: "all_kept t p T I \<Longrightarrow> set ids \<subseteq> set I \<Longrightarrow> \<forall>i \<in> set ids. \<forall>row. T i = Some row \<longrightarrow> keeps t p row"
  by (auto simp: all_kept_def)

lemma take_valid_all:
  "\<forall>i \<in> set ids. valid i \<Longrightarrow> take_valid valid ids vs = vs @ take (cacheListCountLimit - length vs) ids"
proof (induction ids arbitrary: vs)
  case (Cons i ids)
  show ?case
  proof (cases "cacheListCountLimit \<le> length vs")
    case True
    then show ?thesis using Cons.IH[of vs] Cons.prems by (simp add: take_valid_def)
  next
    case False
    then have "cacheListCountLimit - length vs = Suc (cacheListCountLimit - length (vs @ [i]))" by simp
    then show ?thesis using Cons.IH[of "vs @ [i]"] Cons.prems False by (simp add: take_valid_def)
  qed
qed (simp add: take_valid_def)

lemma fetch_data_loop_page:
  assumes S: "served t db p tbl I d0" and K: "all_kept t p (tbl d0) I" and G: "good E t p tbl I d0 w" and cr: "crthing cr = Some t" "crparams cr = p"
  obtains w' where "fetch_data_loop maxIterations E t db cr 0 [] w = (Inr (take cacheListCountLimit I), w')" and "good E t p tbl I d0 w'"
proof -
  let ?b = "take fetchBatchSize I" and ?v = "take cacheListCountLimit I"
  obtain n where n: "maxIterations = Suc n" by (simp add: maxIterations_def)
  obtain w1 where b: "fetch_ids_from_db cr 0 (int fetchBatchSize) w = (Inr ?b, w1)" and G1: "good E t p tbl I d0 w1"
    using ids_page[OF S G, of 0 "int fetchBatchSize" cr] cr by auto
  have v: "take_valid valid ?b [] = ?v" if "\<forall>i \<in> set ?b. valid i" for valid
    using take_valid_all[OF that] by (simp add: cacheListCountLimit_def fetchBatchSize_def)
  have more: "fetch_data_loop n E t db cr off ?v w2 = (Inr ?v, w2)" if "\<not> length ?b < fetchBatchSize" for off w2
    using that by (cases n) (auto simp: cacheListCountLimit_def fetchBatchSize_def)
  have empty: "?b = [] \<Longrightarrow> ?v = []" by (simp add: fetchBatchSize_def)
  show thesis
  proof (cases "?b = [] \<or> \<not> HasCustomKeepItem (tinfo t) \<and> \<not> IncludeDeleted p")
    case True
    then have "fetch_data_loop maxIterations E t db cr 0 [] w = (Inr ?v, w1)"
      using b v[of "\<lambda>_. True"] more empty cr by (auto simp: n Let_def cacheListCountLimit_def)
    then show thesis using G1 by (rule that)
  next
    case False
    obtain models w2 where m: "ByIDs E t db ?b [] w1 = (Inr models, w2)" and G2: "good E t p tbl I d0 w2"
      and found: "\<forall>i \<in> set ?b. \<exists>m row. gm_get models i = Some m \<and> tbl d0 i = Some row \<and> same_fields (tinfo t) m row \<and> keeps t p m = keeps t p row"
      using byids[OF S G1, of ?b] set_take_subset by metis
    have "\<forall>i \<in> set ?b. case gm_get models i of None \<Rightarrow> False | Some m \<Rightarrow> keeps t p m" using found kept_all[OF K page_subset[of fetchBatchSize 0 I, simplified]] by fastforce
    from v[OF this] have "fetch_data_loop maxIterations E t db cr 0 [] w = (Inr ?v, w2)"
      using b m more False cr by (auto simp: n Let_def cacheListCountLimit_def)
    then show thesis using G2 by (rule that)
  qed
qed

lemma put_count_good:
  "served t db p tbl I d0 \<Longrightarrow> good E t p tbl I d0 w \<Longrightarrow> n = int (length I) \<Longrightarrow>
   good E t p tbl I d0 (put_count t client (generateCountCacheKey E t p) p n w)"
  by (simp add: good_def put_count_def agrees_set_count[OF _ list_key_not_count_key])

lemma fetch_data_page:
  assumes S: "served t db p tbl I d0" and K: "all_kept t p (tbl d0) I" and G: "good E t p tbl I d0 w" and cr: "crthing cr = Some t" "crparams cr = p"
  obtains w' where "fetch_data E cr w = (Inr (take cacheListCountLimit I), w')" and "good E t p tbl I d0 w'"
proof -
  let ?lk = "generateListCacheKey E t p" and ?v = "take cacheListCountLimit I"
  have ready: "ready cr = Some (t, client, db)" using S cr by (simp add: ready_def served_def query_setup_def)
  obtain r c where g: "cGetQueryIDs client (wcache w) ?lk = (r, c)" by (cases "cGetQueryIDs client (wcache w) ?lk")
  have G1: "good E t p tbl I d0 (w\<lparr>wcache := c\<rparr>)" using good_read(2)[OF G, of ?lk] g by simp
  show thesis
  proof (cases r)
    case (Inr ids)
    then have "ids = ?v" using get_ids_view[of "wcache w" ?lk ids] g G by (auto simp: good_def agrees_def)
    then show thesis using that[OF _ G1] ready g Inr cr by (simp add: fetch_data_def)
  next
    case (Inl e)
    obtain w1 where l: "fetch_data_loop maxIterations E t db cr 0 [] (w\<lparr>wcache := c\<rparr>) = (Inr ?v, w1)" and G2: "good E t p tbl I d0 w1"
      by (rule fetch_data_loop_page[OF S K G1 cr])
    let ?w2 = "w1\<lparr>wcache := snd (cSetQueryIDs client (wcache w1) ?lk ?v (tttl t)),
        windex := RegisterQuery (tfmt t) (windex w1) (TableName (tinfo t)) ?lk p\<rparr>"
    let ?w3 = "if length ?v < cacheListCountLimit then put_count t client (generateCountCacheKey E t p) p (int (length ?v)) ?w2 else ?w2"
    have "good E t p tbl I d0 ?w2" using G2 by (simp add: good_def agrees_set_list[OF _ list_key_not_count_key])
    then have "good E t p tbl I d0 ?w3" using put_count_good[OF S, of E ?w2 "int (length ?v)"]
      by (simp only: split: if_split) simp
    moreover have "fetch_data E cr w = (Inr ?v, ?w3)" using ready g Inl l cr by (simp add: fetch_data_def Let_def)
    ultimately show thesis by (intro that)
  qed
qed

text \<open>The count.\<close>

lemma count_page:
  assumes S: "served t db p tbl I d0" and G: "good E t p tbl I d0 w" and cr: "crthing cr = Some t" "crparams cr = p" "\<not> hasLoadedCount cr"
  obtains w' where "Count E cr w = (Inr (int (length I)), cr\<lparr>cachedCount := int (length I), hasLoadedCount := True\<rparr>, w')"
    and "good E t p tbl I d0 w'"
proof -
  let ?ck = "generateCountCacheKey E t p" and ?lk = "generateListCacheKey E t p" and ?n = "int (length I)"
  have ready: "ready cr = Some (t, client, db)" using S cr by (simp add: ready_def served_def query_setup_def)
  have n: "parse_int (format_int ?n) = Some ?n"
    using S by (intro parse_int_format_int) (simp add: in_int64_def min_int64_def served_def query_setup_def)
  obtain o1 w1 where c: "cached_count client ?ck w = (o1, w1)" by (cases "cached_count client ?ck w")
  have c1: "good E t p tbl I d0 w1 \<and> (o1 = None \<or> o1 = Some ?n)"
  proof -
    obtain r c' where g: "cGet client (wcache w) ?ck = (r, c')" by (cases "cGet client (wcache w) ?ck")
    have "good E t p tbl I d0 (w\<lparr>wcache := c'\<rparr>)" using good_read(1)[OF G, of ?ck] g by simp
    moreover have "r = Inr v \<Longrightarrow> v = format_int ?n" for v
      using get_view[of "wcache w" ?ck v] g G by (auto simp: good_def agrees_def)
    ultimately show ?thesis using c g n by (auto simp: cached_count_def split: sum.splits)
  qed
  obtain o2 w2 where l: "list_count client ?lk w1 = (o2, w2)" by (cases "list_count client ?lk w1")
  have l1: "good E t p tbl I d0 w2 \<and> (o2 = None \<or> o2 = Some ?n)"
  proof -
    obtain r c' where g: "cGetQueryIDs client (wcache w1) ?lk = (r, c')" by (cases "cGetQueryIDs client (wcache w1) ?lk")
    have "good E t p tbl I d0 (w1\<lparr>wcache := c'\<rparr>)" using good_read(2)[OF c1[THEN conjunct1], of ?lk] g by simp
    moreover have "r = Inr v \<Longrightarrow> v = take cacheListCountLimit I" for v
      using get_ids_view[of "wcache w1" ?lk v] g c1 by (auto simp: good_def agrees_def)
    ultimately show ?thesis using l g by (auto simp: list_count_def split: sum.splits if_splits)
  qed
  obtain d' where d: "dbGetCount db (wdb w2) (TableName (tinfo t)) (visible_where p) (Args p) = (Inr ?n, d')" "tbl d' = tbl d0"
    using S l1 unfolding served_def query_setup_def serves_query_def good_def by metis
  have Gd: "good E t p tbl I d0 (w2\<lparr>wdb := d'\<rparr>)" using l1 d(2) by (simp add: good_def)
  show thesis
    using that c1 l1 put_count_good[OF S] Gd ready cr c l d(1)
    by (cases o1; cases o2) (auto simp: Count_def Let_def)
qed

text \<open>A page.\<close>

lemma ids_to_check_page:
  assumes S: "served t db p tbl I d0" and G: "good E t p tbl I d0 w" and cr: "crthing cr = Some t" "crparams cr = p"
    and ids: "cachedIDs cr = take cacheListCountLimit I" and "0 \<le> offset" and "0 < needed"
  obtains src k w1 where "ids_to_check cr (int (length I)) offset needed w = (src, Inr (take k (drop (nat offset) I)), w1)"
    and "good E t p tbl I d0 w1" and "k \<le> nat needed" and "drop (nat offset) I = [] \<or> 0 < k"
proof (cases "offset < int (length (cachedIDs cr))")
  case True
  let ?k = "min (nat (min needed (int (length (cachedIDs cr)) - offset))) (cacheListCountLimit - nat offset)"
  have "ids_to_check cr (int (length I)) offset needed w = (FromCache, Inr (take ?k (drop (nat offset) I)), w)"
    using True assms(6) by (simp add: ids_to_check_def ids drop_take min.commute)
  moreover have "0 < ?k" using True assms(6,7) ids by (auto simp: min_def split: if_splits)
  ultimately show thesis using G by (intro that) auto
next
  case False
  show thesis
  proof (cases "offset < int (length I)")
    case True
    obtain w1 where "fetch_ids_from_db cr offset needed w = (Inr (take (nat needed) (drop (nat offset) I)), w1)" "good E t p tbl I d0 w1"
      using ids_page[OF S G assms(6) _ cr, of needed] assms(7) by auto
    then show thesis using that[of FromDatabase "nat needed" w1] False True assms(7) by (simp add: ids_to_check_def)
  next
    case end_of_rows: False
    then show thesis using that[of FromNowhere 0 w] False G by (simp add: ids_to_check_def)
  qed
qed

lemma collect_all_kept:
  "\<forall>i \<in> set ids. \<exists>m. gm_get models i = Some m \<and> keeps t p m \<Longrightarrow> int (length ids) \<le> needed \<Longrightarrow> 0 < needed \<Longrightarrow>
   collect_kept t p src models ids results needed k issue =
     (results @ map (\<lambda>i. the (gm_get models i)) ids, needed - int (length ids), k + length ids, issue)"
proof (induction ids arbitrary: results needed k)
  case (Cons i ids)
  then obtain m where m: "gm_get models i = Some m" "keeps t p m" by auto
  show ?case
  proof (cases "needed - 1 = 0")
    case True
    then show ?thesis using Cons.prems m by simp
  next
    case False
    then show ?thesis using Cons.IH[of "needed - 1" "results @ [m]" "Suc k"] Cons.prems m by simp
  qed
qed simp

lemma rows_of_append: "rows_of info T xs ms \<Longrightarrow> rows_of info T ys ns \<Longrightarrow> rows_of info T (xs @ ys) (ms @ ns)"
  by (simp add: rows_of_def list_all2_appendI)

lemma fetch_loop_page:
  assumes S: "served t db p tbl I d0" and K: "all_kept t p (tbl d0) I" and cr: "crthing cr = Some t" "crparams cr = p"
    and ids: "cachedIDs cr = take cacheListCountLimit I"
  shows "good E t p tbl I d0 w \<Longrightarrow> 0 \<le> offset \<Longrightarrow> 0 \<le> needed \<Longrightarrow>
    \<exists>ms w'. fetch_loop E t db (int (length I)) inval offset needed needed results cr w = (Inr (results @ ms), cr, w') \<and>
      good E t p tbl I d0 w' \<and> rows_of (tinfo t) (tbl d0) (take (nat needed) (drop (nat offset) I)) ms"
proof (induction "nat needed" arbitrary: offset needed results w rule: less_induct)
  case less
  let ?J = "drop (nat offset) I"
  show ?case
  proof (cases "needed = 0")
    case True
    then show ?thesis using less.prems(1) by (simp add: fetch_loop.simps[of E t db] rows_of_def)
  next
    case False
    with less.prems have pos: "0 < needed" by simp
    obtain src k w1 where chk: "ids_to_check cr (int (length I)) offset needed w = (src, Inr (take k ?J), w1)"
      and G1: "good E t p tbl I d0 w1" and k: "k \<le> nat needed" "?J = [] \<or> 0 < k"
      by (rule ids_to_check_page[OF S less.prems(1) cr ids less.prems(2) pos])
    show ?thesis
    proof (cases "?J = []")
      case True
      then show ?thesis using chk G1 pos by (simp add: fetch_loop.simps[of E t db] rows_of_def)
    next
      case nonempty: False
      let ?ids = "take k ?J"
      have ne: "?ids \<noteq> []" using nonempty k(2) by simp
      obtain models w2 where m: "ByIDs E t db ?ids [] w1 = (Inr models, w2)" and G2: "good E t p tbl I d0 w2"
        and found: "\<forall>i \<in> set ?ids. \<exists>m row. gm_get models i = Some m \<and> tbl d0 i = Some row \<and> same_fields (tinfo t) m row \<and> keeps t p m = keeps t p row"
        by (rule byids[OF S G1 page_subset[of k "nat offset" I]])
      let ?ms = "map (\<lambda>i. the (gm_get models i)) ?ids" and ?n = "int (length ?ids)"
      have len: "?n \<le> needed" using k(1) pos by (auto simp: min_def)
      have rows: "rows_of (tinfo t) (tbl d0) ?ids ?ms"
        unfolding rows_of_def list_all2_conv_all_nth using found by (fastforce dest: nth_mem)
      have col: "collect_kept t p src models ?ids results needed 0 False = (results @ ?ms, needed - ?n, length ?ids, False)"
        using collect_all_kept[of ?ids models t p needed src results 0 False] found kept_all[OF K page_subset[of k "nat offset" I]] len pos by fastforce
      have pre: "Preloads (crparams cr) = []" using S cr by (simp add: served_def query_setup_def)
      have step: "fetch_loop E t db (int (length I)) inval offset needed needed results cr w =
          (if needed - ?n = 0 then (Inr (results @ ?ms), cr, w2)
           else fetch_loop E t db (int (length I)) inval (offset + ?n) (needed - ?n) (needed - ?n) (results @ ?ms) cr w2)"
        using pos chk ne m col pre cr by (subst fetch_loop.simps) simp
      have split: "take (nat needed) ?J = ?ids @ take (nat (needed - ?n)) (drop (nat (offset + ?n)) I)"
      proof -
        have "take (nat needed) ?J = take (length ?ids) ?J @ take (nat needed - length ?ids) (drop (length ?ids) ?J)"
          using len take_add[of "length ?ids" "nat needed - length ?ids" ?J] by simp
        moreover have "take (length ?ids) ?J = ?ids" by (simp add: min_def)
        moreover have "drop (length ?ids) ?J = drop (nat (offset + ?n)) I" using less.prems(2) by (simp add: nat_add_distrib add.commute)
        moreover have "nat needed - length ?ids = nat (needed - ?n)" using len by linarith
        ultimately show ?thesis by simp
      qed
      show ?thesis
      proof (cases "needed - ?n = 0")
        case True
        then show ?thesis using step split rows G2 by simp
      next
        case False
        have dec: "nat (needed - ?n) < nat needed" using ne pos by (simp del: length_take length_drop)
        obtain ms w' where rest: "fetch_loop E t db (int (length I)) inval (offset + ?n) (needed - ?n) (needed - ?n) (results @ ?ms) cr w2 =
            (Inr ((results @ ?ms) @ ms), cr, w')" "good E t p tbl I d0 w'"
            "rows_of (tinfo t) (tbl d0) (take (nat (needed - ?n)) (drop (nat (offset + ?n)) I)) ms"
          using less.hyps[OF dec G2, of "offset + ?n" "results @ ?ms"] less.prems(2) len by auto
        then show ?thesis using step False rows_of_append[OF rows rest(3)] split by auto
      qed
    qed
  qed
qed

lemma fetch_page:
  assumes S: "served t db p tbl I d0" and K: "all_kept t p (tbl d0) I" and G: "good E t p tbl I d0 w" and "0 \<le> offset" and "0 \<le> lim"
    and cr: "cr = Query t p \<or> cr = (Query t p)\<lparr>cachedCount := int (length I), hasLoadedCount := True\<rparr>"
  obtains ms cr' w' where "Fetch E cr offset lim w = (Inr ms, cr', w')" and "good E t p tbl I d0 w'"
    and "rows_of (tinfo t) (tbl d0) (take (nat lim) (drop (nat offset) I)) ms"
proof -
  let ?v = "take cacheListCountLimit I" and ?n = "int (length I)"
  have crs: "crthing cr = Some t" "crparams cr = p" "crErr cr = None" "\<not> hasLoadedIDs cr"
    using cr by (auto simp: Query_def)
  have ready: "ready cr = Some (t, client, db)" using S crs by (simp add: ready_def served_def query_setup_def)
  obtain w1 where f: "fetch_data E cr w = (Inr ?v, w1)" and G1: "good E t p tbl I d0 w1" by (rule fetch_data_page[OF S K G crs(1,2)])
  let ?cr1 = "cr\<lparr>cachedIDs := ?v, hasLoadedIDs := True\<rparr>"
  have f1: "fetch_ids E cr w = (Inr (), ?cr1, w1)" using f crs(4) by (simp add: fetch_ids_def)
  show thesis
  proof (cases "I = []")
    case True
    then show thesis using that[of "[]" ?cr1 w1] crs(3) ready f1 G1 by (simp add: Fetch_def rows_of_def)
  next
    case False
    obtain cr2 w2 where c: "Count E ?cr1 w1 = (Inr ?n, cr2, w2)" and G2: "good E t p tbl I d0 w2"
      and cr2: "crthing cr2 = Some t" "crparams cr2 = p" "cachedIDs cr2 = ?v"
    proof (cases "hasLoadedCount cr")
      case True
      moreover have "cachedCount cr = ?n" using cr True by (elim disjE) (simp_all add: Query_def)
      moreover have "ready ?cr1 = ready cr" by (simp add: ready_def)
      ultimately have "Count E ?cr1 w1 = (Inr ?n, ?cr1, w1)" using ready by (simp add: Count_def)
      then show thesis using that[OF _ G1] crs by simp
    next
      case notloaded: False
      obtain w2 where "Count E ?cr1 w1 = (Inr ?n, ?cr1\<lparr>cachedCount := ?n, hasLoadedCount := True\<rparr>, w2)" "good E t p tbl I d0 w2"
        using count_page[OF S G1, of ?cr1] crs notloaded by auto
      then show thesis using that crs by auto
    qed
    obtain ms w' where "fetch_loop E t db ?n False offset lim lim [] cr2 w2 = (Inr ([] @ ms), cr2, w')" "good E t p tbl I d0 w'"
      "rows_of (tinfo t) (tbl d0) (take (nat lim) (drop (nat offset) I)) ms"
      using fetch_loop_page[OF S K cr2 G2 assms(4,5)] by blast
    moreover have "?v \<noteq> []" using False by (simp add: cacheListCountLimit_def)
    ultimately show thesis using that crs(3) ready f1 c assms(5) by (auto simp: Fetch_def)
  qed
qed

lemma all_rows:
  assumes S: "served t db p tbl I d0" and K: "all_kept t p (tbl d0) I" and G: "good E t p tbl I d0 w"
  obtains ms cr' w' where "All E (Query t p) w = (Inr ms, cr', w')" and "good E t p tbl I d0 w'" and "rows_of (tinfo t) (tbl d0) I ms"
proof -
  obtain w1 where c: "Count E (Query t p) w = (Inr (int (length I)), (Query t p)\<lparr>cachedCount := int (length I), hasLoadedCount := True\<rparr>, w1)"
    and G1: "good E t p tbl I d0 w1"
    using count_page[OF S G, of "Query t p"] by (auto simp: Query_def)
  obtain ms cr' w' where f: "Fetch E ((Query t p)\<lparr>cachedCount := int (length I), hasLoadedCount := True\<rparr>) 0 (int (length I)) w1 = (Inr ms, cr', w')"
    "good E t p tbl I d0 w'" "rows_of (tinfo t) (tbl d0) I ms"
    using fetch_page[OF S K G1, of 0 "int (length I)" "(Query t p)\<lparr>cachedCount := int (length I), hasLoadedCount := True\<rparr>"] by auto
  show thesis
  proof (cases "I = []")
    case True
    have "\<not> hasLoadedAll (Query t p)" by (simp add: Query_def)
    then show thesis using True c G1 that by (auto simp: All_def rows_of_def)
  next
    case False
    have "\<not> hasLoadedAll (Query t p)" by (simp add: Query_def)
    then show thesis using False c f that by (auto simp: All_def)
  qed
qed

lemma first_row:
  assumes S: "served t db p tbl I d0" and K: "all_kept t p (tbl d0) I" and G: "good E t p tbl I d0 w"
  obtains cr' w' where "I = [] \<Longrightarrow> First E (Query t p) w = (Inl ErrNotFound, cr', w')" and "good E t p tbl I d0 w'"
    and "I \<noteq> [] \<Longrightarrow> \<exists>m row. First E (Query t p) w = (Inr m, cr', w') \<and> tbl d0 (hd I) = Some row \<and> same_fields (tinfo t) m row"
proof -
  obtain ms cr' w' where f: "Fetch E (Query t p) 0 1 w = (Inr ms, cr', w')" "good E t p tbl I d0 w'"
    "rows_of (tinfo t) (tbl d0) (take 1 I) ms"
    using fetch_page[OF S K G, of 0 1 "Query t p"] by auto
  show thesis
    by (rule that[of cr' w']) (use f in \<open>auto simp: First_def rows_of_def neq_Nil_conv list_all2_Cons1\<close>)
qed

text \<open>The scan of the precise count ends.\<close>

definition kept_ids :: "('c, 'd, 'h) thing \<Rightarrow> QueryParams \<Rightarrow> (int \<Rightarrow> gomodel option) \<Rightarrow> int list \<Rightarrow> int list" where
  "kept_ids t p T ids = filter (\<lambda>i. case T i of None \<Rightarrow> False | Some row \<Rightarrow> keeps t p row) ids"

lemma kept_count_rows:
  assumes "\<forall>i \<in> set ids. \<exists>m row. gm_get models i = Some m \<and> T i = Some row \<and> same_fields info m row \<and> keeps t p m = keeps t p row"
  shows "kept_count t p models ids = int (length (kept_ids t p T ids))"
  unfolding kept_count_def kept_ids_def using assms
  by (intro arg_cong[where f = "\<lambda>xs. int (length xs)"] filter_cong) fastforce+

lemma count_scan_ends:
  assumes S: "served t db p tbl I d0" and cr: "crthing cr = Some t" "crparams cr = p"
  shows "good E t p tbl I d0 w \<Longrightarrow> 0 \<le> offset \<Longrightarrow>
    \<exists>w'. count_scan E t db cr offset n w = Some (Inr (n + int (length (kept_ids t p (tbl d0) (drop (nat offset) I)))), w') \<and> good E t p tbl I d0 w'"
proof (induction "length I - nat offset" arbitrary: offset n w rule: less_induct)
  case less
  let ?J = "drop (nat offset) I" and ?K = "kept_ids t p (tbl d0)"
  let ?ids = "take (nat scanBatchSize) ?J"
  obtain w1 where f: "fetch_ids_from_db cr offset scanBatchSize w = (Inr ?ids, w1)" and G1: "good E t p tbl I d0 w1"
    using ids_page[OF S less.prems(1,2) _ cr, of scanBatchSize] by (auto simp: scanBatchSize_def)
  show ?case
  proof (cases "?J = []")
    case True
    then show ?thesis using f G1 by (subst count_scan.simps) (simp add: kept_ids_def)
  next
    case False
    then have ne: "?ids \<noteq> []" by (simp add: scanBatchSize_def)
    obtain models w2 where m: "ByIDs E t db ?ids [] w1 = (Inr models, w2)" and G2: "good E t p tbl I d0 w2"
      and found: "\<forall>i \<in> set ?ids. \<exists>m row. gm_get models i = Some m \<and> tbl d0 i = Some row \<and> same_fields (tinfo t) m row \<and> keeps t p m = keeps t p row"
      by (rule byids[OF S G1 page_subset[of "nat scanBatchSize" "nat offset" I]])
    let ?off = "offset + int (length ?ids)" and ?n = "n + int (length (?K ?ids))"
    have step: "count_scan E t db cr offset n w =
        (if int (length ?ids) < scanBatchSize then Some (Inr ?n, w2) else count_scan E t db cr ?off ?n w2)"
      using f ne m cr kept_count_rows[OF found] by (subst count_scan.simps) (simp add: Let_def)
    show ?thesis
    proof (cases "int (length ?ids) < scanBatchSize")
      case True
      then have "?ids = ?J" by (simp add: scanBatchSize_def)
      then show ?thesis using step True G2 by metis
    next
      case more: False
      have "0 < length ?ids" using ne by blast
      moreover have "length ?ids \<le> length I - nat offset" by simp
      ultimately have dec: "length I - nat ?off < length I - nat offset" and off: "0 \<le> ?off" using less.prems(2) by linarith+
      have "length ?ids = nat scanBatchSize" using more by (simp add: scanBatchSize_def)
      then have "drop (nat ?off) I = drop (nat scanBatchSize) ?J"
        using less.prems(2) by (simp add: nat_add_distrib add.commute del: length_take length_drop)
      then have "?K ?ids @ ?K (drop (nat ?off) I) = ?K ?J" by (metis append_take_drop_id filter_append kept_ids_def)
      then have "?n + int (length (?K (drop (nat ?off) I))) = n + int (length (?K ?J))" by (metis add.assoc length_append of_nat_add)
      with less.hyps[OF dec G2 off, of ?n] show ?thesis using step more by (simp only: if_False)
    qed
  qed
qed

end

section \<open>Cached queries are registered\<close>

context query_cache
begin

text \<open>Every cached entry that is not a model is known to the index.\<close>

definition indexed :: "ModelInfo \<Rightarrow> ('c, 'd, 'h) world \<Rightarrow> bool" where
  "indexed info w \<longleftrightarrow> (\<forall>k x. view (wcache w) k = Some x \<longrightarrow> (\<forall>i. k \<noteq> generateCacheKey (TableName info) i) \<longrightarrow>
     GetQueryParamsForKey (windex w) k \<noteq> None)"

lemma indexed_mono:
  "indexed info w \<Longrightarrow> (\<And>k x. view c k = Some x \<Longrightarrow> (\<And>i. k \<noteq> generateCacheKey (TableName info) i) \<Longrightarrow> view (wcache w) k = Some x) \<Longrightarrow>
   indexed info (w\<lparr>wcache := c\<rparr>)"
  by (simp add: indexed_def)

lemma indexed_db [simp]: "indexed info (w\<lparr>wdb := d\<rparr>) = indexed info w"
  by (simp add: indexed_def)

lemma indexed_reads:
  assumes "indexed info w"
  shows "indexed info (w\<lparr>wcache := snd (cGet client (wcache w) k)\<rparr>)"
    and "indexed info (w\<lparr>wcache := snd (cGetQueryIDs client (wcache w) k)\<rparr>)"
    and "indexed info (w\<lparr>wcache := snd (cDelete client (wcache w) k)\<rparr>)"
  by (rule indexed_mono[OF assms], blast dest: view_get view_get_ids view_delete)+

lemma registered_key:
  "TableName info \<noteq> [] \<Longrightarrow> k \<noteq> [] \<Longrightarrow> GetQueryParamsForKey (RegisterQuery f idx (TableName info) k p) j =
     (if j = k then Some p else GetQueryParamsForKey idx j)"
  by (simp add: GetQueryParamsForKey_def RegisterQuery_def Let_def case_prod_unfold)

lemma query_key_ne: "query_key E prefix t p \<noteq> []"
  by (simp add: query_key_def GenerateCacheKey_def)

lemma indexed_register:
  assumes "indexed info w" and "TableName info \<noteq> []" and "k \<noteq> []"
    and "\<And>j x. view c j = Some x \<Longrightarrow> j = k \<or> view (wcache w) j = Some x"
  shows "indexed info (w\<lparr>wcache := c, windex := RegisterQuery f (windex w) (TableName info) k p\<rparr>)"
  using assms(1) assms(4) unfolding indexed_def by (simp add: registered_key[OF assms(2,3)]) blast

lemma indexed_put_count:
  assumes "indexed (tinfo t) w" and "TableName (tinfo t) \<noteq> []" and "k \<noteq> []"
  shows "indexed (tinfo t) (put_count t client k p n w)"
  unfolding put_count_def by (rule indexed_register[OF assms]) (blast dest: view_set)

lemma indexed_cached_count:
  assumes "indexed info w" and "cached_count client k w = (r, w')"
  shows "indexed info w'"
proof -
  obtain q c where g: "cGet client (wcache w) k = (q, c)" by (cases "cGet client (wcache w) k")
  have 1: "indexed info (w\<lparr>wcache := c\<rparr>)" using indexed_reads(1)[OF assms(1), of k] g by simp
  have 2: "indexed info (w\<lparr>wcache := snd (cDelete client c k)\<rparr>)" using indexed_reads(3)[OF 1, of k] by simp
  show ?thesis using assms(2) g 1 2 by (auto simp: cached_count_def split: sum.splits option.splits)
qed

lemma indexed_list_count: "indexed info w \<Longrightarrow> list_count client k w = (r, w') \<Longrightarrow> indexed info w'"
  using indexed_reads(2)[of info w k]
  by (cases "cGetQueryIDs client (wcache w) k") (auto simp: list_count_def split: sum.splits)

lemma indexed_count:
  assumes "indexed (tinfo t) w" and T: "TableName (tinfo t) \<noteq> []" and cr: "crthing cr = Some t" and c: "tcache t = Some client"
    and "Count E cr w = (r, cr', w')"
  shows "indexed (tinfo t) w' \<and> crthing cr' = crthing cr \<and> crparams cr' = crparams cr \<and> cachedIDs cr' = cachedIDs cr"
proof (cases "ready cr")
  case None
  then show ?thesis using assms by (auto simp: Count_def)
next
  case (Some a)
  then obtain db where ready: "ready cr = Some (t, client, db)" using cr c by (auto simp: ready_def split: option.splits)
  let ?p = "crparams cr" let ?ck = "generateCountCacheKey E t ?p"
  have ck: "?ck \<noteq> []" by (simp add: generateCountCacheKey_def query_key_ne)
  obtain o1 w1 where 1: "cached_count client ?ck w = (o1, w1)" by (cases "cached_count client ?ck w")
  obtain o2 w2 where 2: "list_count client (generateListCacheKey E t ?p) w1 = (o2, w2)" by (cases "list_count client (generateListCacheKey E t ?p) w1")
  obtain q d where 3: "dbGetCount db (wdb w2) (TableName (tinfo t)) (visible_where ?p) (Args ?p) = (q, d)" by (cases "dbGetCount db (wdb w2) (TableName (tinfo t)) (visible_where ?p) (Args ?p)")
  have i1: "indexed (tinfo t) w1" using indexed_cached_count[OF assms(1) 1] .
  have i2: "indexed (tinfo t) w2" using indexed_list_count[OF i1 2] .
  show ?thesis
    using assms(1,5) i1 i2 indexed_put_count[OF _ T ck] 1 2 3
    by (cases o1; cases o2; cases q) (auto simp: Count_def ready Let_def split: if_splits)
qed

lemma indexed_byids:
  assumes "indexed (tinfo t) w" and c: "tcache t = Some client"
    and pre: "\<And>n ms w r ms' w'. qpreload E n ms w = (r, ms', w') \<Longrightarrow> indexed (tinfo t) w \<Longrightarrow> indexed (tinfo t) w'"
    and "ByIDs E t db ids ps w = (r, w')"
  shows "indexed (tinfo t) w'"
proof -
  have preloads: "apply_preloads E ps ms w1 = (ms', w2) \<Longrightarrow> indexed (tinfo t) w1 \<Longrightarrow> indexed (tinfo t) w2" for ps ms w1 ms' w2
    by (induction ps arbitrary: ms w1) (auto split: prod.splits dest: pre)
  obtain q c' d' where f: "fetchModelsByIDsInternal (Some client) db (tinfo t) (ttype t) (tttl t) ids (wcache w, wdb w) = (q, c', d')"
    using prod_cases3 by blast
  have "indexed (tinfo t) (w\<lparr>wcache := c'\<rparr>)" using indexed_mono[OF assms(1)] fetch_view[OF f] by blast
  then have "indexed (tinfo t) (w\<lparr>wcache := c', wdb := d'\<rparr>)" by (simp add: indexed_def)
  then show ?thesis using assms(4) f c
    by (auto simp: ByIDs_def Let_def split: sum.splits if_splits prod.splits dest: preloads)
qed

lemma indexed_ids_db: "fetch_ids_from_db cr off lim w = (r, w') \<Longrightarrow> indexed info w' = indexed info w"
  by (auto simp: fetch_ids_from_db_def split: option.splits prod.splits sum.splits)

lemma indexed_fetch_data_loop:
  assumes c: "tcache t = Some client"
    and pre: "\<And>n ms w r ms' w'. qpreload E n ms w = (r, ms', w') \<Longrightarrow> indexed (tinfo t) w \<Longrightarrow> indexed (tinfo t) w'"
  shows "indexed (tinfo t) w \<Longrightarrow> fetch_data_loop n E t db cr off valid w = (r, w') \<Longrightarrow> indexed (tinfo t) w'"
proof (induction n arbitrary: off valid w)
  case (Suc n)
  obtain r1 w1 where f: "fetch_ids_from_db cr off (int fetchBatchSize) w = (r1, w1)" by (cases "fetch_ids_from_db cr off (int fetchBatchSize) w")
  have i1: "indexed (tinfo t) w1" using indexed_ids_db[OF f] Suc.prems(1) by simp
  show ?case
  proof (cases r1)
    case (Inl e)
    then show ?thesis using Suc.prems f i1 by (auto split: if_splits)
  next
    case (Inr ids)
    obtain r2 w2 where b: "ByIDs E t db ids [] w1 = (r2, w2)" by (cases "ByIDs E t db ids [] w1")
    have i2: "indexed (tinfo t) w2" using indexed_byids[OF i1 c pre b] .
    show ?thesis using Suc.prems f Inr b i1 i2 Suc.IH[OF i1] Suc.IH[OF i2]
      by (cases r2) (auto simp: Let_def split: if_splits)
  qed
qed simp

lemma indexed_fetch_ids:
  assumes "indexed (tinfo t) w" and T: "TableName (tinfo t) \<noteq> []" and cr: "crthing cr = Some t" and c: "tcache t = Some client"
    and pre: "\<And>n ms w r ms' w'. qpreload E n ms w = (r, ms', w') \<Longrightarrow> indexed (tinfo t) w \<Longrightarrow> indexed (tinfo t) w'"
    and "fetch_data E cr w = (r, w')"
  shows "indexed (tinfo t) w'"
proof (cases "ready cr")
  case None
  then show ?thesis using assms by (auto simp: fetch_data_def)
next
  case (Some a)
  then obtain db where ready: "ready cr = Some (t, client, db)" using cr c by (auto simp: ready_def split: option.splits)
  let ?p = "crparams cr" let ?lk = "generateListCacheKey E t ?p"
  have ne: "?lk \<noteq> []" "generateCountCacheKey E t ?p \<noteq> []" by (simp_all add: generateListCacheKey_def generateCountCacheKey_def query_key_ne)
  obtain q c1 where g: "cGetQueryIDs client (wcache w) ?lk = (q, c1)" by (cases "cGetQueryIDs client (wcache w) ?lk")
  have i1: "indexed (tinfo t) (w\<lparr>wcache := c1\<rparr>)" using indexed_reads(2)[OF assms(1), of ?lk] g by simp
  obtain q2 w2 where l: "fetch_data_loop maxIterations E t db cr 0 [] (w\<lparr>wcache := c1\<rparr>) = (q2, w2)"
    by (cases "fetch_data_loop maxIterations E t db cr 0 [] (w\<lparr>wcache := c1\<rparr>)")
  have i2: "indexed (tinfo t) w2" by (rule indexed_fetch_data_loop[OF c pre i1 l])
  have i3: "indexed (tinfo t) (w2\<lparr>wcache := snd (cSetQueryIDs client (wcache w2) ?lk ids (tttl t)),
      windex := RegisterQuery (tfmt t) (windex w2) (TableName (tinfo t)) ?lk ?p\<rparr>)" for ids
    by (rule indexed_register[OF i2 T ne(1)]) (blast dest: view_set_ids)
  show ?thesis
    using assms(6) i1 i2 i3 indexed_put_count[OF _ T ne(2)] g l ready
    by (cases q; cases q2) (auto simp: fetch_data_def Let_def split: if_splits)
qed

lemma indexed_invalidate:
  assumes "indexed (tinfo t) w" and "crthing cr = Some t" and "tcache t = Some client" and "invalidateCache E cr w = (r, cr', w')"
  shows "indexed (tinfo t) w' \<and> crthing cr' = Some t \<and> crparams cr' = crparams cr"
proof -
  let ?lk = "generateListCacheKey E t (crparams cr)" and ?ck = "generateCountCacheKey E t (crparams cr)"
  have "indexed (tinfo t) (w\<lparr>wcache := snd (cDelete client (wcache w) ?lk)\<rparr>)" using indexed_reads(3)[OF assms(1)] .
  from indexed_reads(3)[OF this, of ?ck] show ?thesis using assms(2-4) by (auto simp: invalidateCache_def Let_def)
qed

lemma indexed_fetch_loop:
  assumes c: "tcache t = Some client"
    and pre: "\<And>n ms w r ms' w'. qpreload E n ms w = (r, ms', w') \<Longrightarrow> indexed (tinfo t) w \<Longrightarrow> indexed (tinfo t) w'"
  shows "indexed (tinfo t) w \<Longrightarrow> crthing cr = Some t \<Longrightarrow> fetch_loop E t db n inval off lim needed results cr w = (r, cr', w') \<Longrightarrow>
    indexed (tinfo t) w'"
  using assms
proof (induction E t db n inval off lim needed results cr w rule: fetch_loop.induct)
  case (1 E t db n inval off lim needed results cr w)
  obtain src r1 w1 where chk: "ids_to_check cr n off lim w = (src, r1, w1)" using prod_cases3 by blast
  have i1: "indexed (tinfo t) w1" using chk "1.prems"(1)
    by (auto simp: ids_to_check_def Let_def indexed_ids_db[where info = "tinfo t"] split: if_splits prod.splits sum.splits)
  show ?case
  proof (cases "needed \<le> 0 \<or> (case r1 of Inl _ \<Rightarrow> True | Inr ids \<Rightarrow> ids = [])")
    case True
    then show ?thesis using "1.prems"(1,3) i1 chk by (subst (asm) fetch_loop.simps) (auto split: sum.splits if_splits)
  next
    case False
    then obtain ids where ids: "r1 = Inr ids" "ids \<noteq> []" and pos: "\<not> needed \<le> 0" by (auto split: sum.splits)
    obtain r2 w2 where b: "ByIDs E t db ids (Preloads (crparams cr)) w1 = (r2, w2)" by (cases "ByIDs E t db ids (Preloads (crparams cr)) w1")
    have i2: "indexed (tinfo t) w2" using indexed_byids[OF i1 "1.prems"(4) "1.prems"(5) b] .
    obtain r3 cr3 w3 where inv: "invalidateCache E cr w2 = (r3, cr3, w3)" using prod_cases3 by blast
    have i3: "indexed (tinfo t) w3" "crthing cr3 = Some t" using indexed_invalidate[OF i2 "1.prems"(2) "1.prems"(4) inv] by auto
    show ?thesis
    proof (cases r2)
      case (Inl e)
      note IH = "1.IH"(1,2)[OF pos chk[symmetric] refl ids(1) ids(2) b[symmetric] Inl]
      show ?thesis
      proof (cases "src = FromCache \<and> \<not> inval")
        case True
        have "fetch_loop E t db n True (off + int (length ids)) lim needed results cr3 w3 = (r, cr', w')"
          using "1.prems"(3) pos chk ids b Inl inv True by (subst (asm) fetch_loop.simps) simp
        then show ?thesis using IH(1) True inv i3 "1.prems"(4,5) by auto
      next
        case no: False
        then have "fetch_loop E t db n inval (off + int (length ids)) needed needed results cr w2 = (r, cr', w')"
          using "1.prems"(3) pos chk ids b Inl by (subst (asm) fetch_loop.simps) auto
        then show ?thesis using IH(2) no i2 "1.prems"(2,4,5) by auto
      qed
    next
      case (Inr models)
      obtain results' needed' processed issue where col: "collect_kept t (crparams cr) src models ids results needed 0 False = (results', needed', processed, issue)"
        using prod_cases4 by blast
      obtain inval' cr4 w4 where upd: "(if src = FromCache \<and> issue \<and> \<not> inval then (True, snd (invalidateCache E cr w2)) else (inval, cr, w2)) = (inval', cr4, w4)"
        using prod_cases3 by blast
      have i4: "indexed (tinfo t) w4" "crthing cr4 = Some t" using upd inv i3 i2 "1.prems"(2) by (auto split: if_splits)
      have step: "fetch_loop E t db n inval off lim needed results cr w =
          (if needed' = 0 then (Inr results', cr4, w4)
           else fetch_loop E t db n inval' (off + int processed) needed' needed' results' cr4 w4)"
        using pos chk ids b Inr col upd by (subst fetch_loop.simps) simp
      note IH = "1.IH"(3)[OF pos chk[symmetric] refl ids(1) ids(2) b[symmetric] Inr col[symmetric] refl refl upd[symmetric] refl]
      show ?thesis using step "1.prems"(3) i4 IH[OF _ i4] "1.prems"(4,5) by (cases "needed' = 0") auto
    qed
  qed
qed

lemma indexed_fetch:
  assumes "indexed (tinfo t) w" and T: "TableName (tinfo t) \<noteq> []" and cr: "crthing cr = Some t" and c: "tcache t = Some client"
    and pre: "\<And>n ms w r ms' w'. qpreload E n ms w = (r, ms', w') \<Longrightarrow> indexed (tinfo t) w \<Longrightarrow> indexed (tinfo t) w'"
    and "Fetch E cr off lim w = (r, cr', w')"
  shows "indexed (tinfo t) w'"
proof (cases "crErr cr \<noteq> None \<or> ready cr = None")
  case True
  then show ?thesis using assms(1,6) by (auto simp: Fetch_def split: option.splits)
next
  case False
  then obtain db where ready: "ready cr = Some (t, client, db)" and err: "crErr cr = None"
    using cr c by (auto simp: ready_def split: option.splits)
  obtain q cr1 w1 where f: "fetch_ids E cr w = (q, cr1, w1)" using prod_cases3 by blast
  have i1: "indexed (tinfo t) w1" "crthing cr1 = Some t"
    using f assms(1) cr indexed_fetch_ids[OF assms(1) T cr c pre]
    by (auto simp: fetch_ids_def split: if_splits prod.splits sum.splits)
  obtain q2 cr2 w2 where n: "Count E cr1 w1 = (q2, cr2, w2)" using prod_cases3 by blast
  have i2: "indexed (tinfo t) w2" "crthing cr2 = Some t" using indexed_count[OF i1(1) T i1(2) c n] i1(2) by auto
  note loop = indexed_fetch_loop[OF c pre i2]
  show ?thesis
    using assms(6) ready err f n i1(1) i2(1) loop
    by (cases q) (auto simp: Fetch_def Let_def split: if_splits)
qed

lemma indexed_all:
  assumes "indexed (tinfo t) w" and T: "TableName (tinfo t) \<noteq> []" and cr: "crthing cr = Some t" and c: "tcache t = Some client"
    and pre: "\<And>n ms w r ms' w'. qpreload E n ms w = (r, ms', w') \<Longrightarrow> indexed (tinfo t) w \<Longrightarrow> indexed (tinfo t) w'"
    and "All E cr w = (r, cr', w')"
  shows "indexed (tinfo t) w'"
proof -
  obtain q cr1 w1 where n: "Count E cr w = (q, cr1, w1)" using prod_cases3 by blast
  have i1: "indexed (tinfo t) w1" "crthing cr1 = Some t" using indexed_count[OF assms(1) T cr c n] cr by auto
  note f = indexed_fetch[OF i1(1) T i1(2) c pre]
  show ?thesis using assms(1,6) n i1(1) f
    by (cases q) (auto simp: All_def split: if_splits prod.splits sum.splits)
qed

end

section \<open>The local cache\<close>

interpretation lcq: query_cache localClient local_read local_marked local_restored lcview
proof
  fix s k j v d x ids and keys :: "string list" and dests :: "gomodel list" and m dest y :: gomodel and fs
  note [simp] = localClient_def local_read_def local_marked_def
  show "fst (cGet localClient s k) = Inr v \<Longrightarrow> lcview s k = Some (CString v)" by (rule lc.get_value)
  show "fst (cGetQueryIDs localClient s k) = Inr ids \<Longrightarrow> lcview s k = Some (CIDs ids)" by (rule lc.ids_value)
  show "lcview (snd (cSetModel localClient s k m fs d)) j = Some x \<Longrightarrow> lcview s j = Some x \<or> j = k"
    by (auto simp: lcview_lcSetModel split: option.splits if_splits)
  show "lcview (snd (cSet localClient s k v d)) j = Some x \<Longrightarrow> lcview s j = Some x \<or> j = k \<and> x = CString v"
    using lcSet_view[of s k v d] by (auto split: if_splits)
  show "local_read (snd (cSet localClient s k v d)) j dest = Some y \<Longrightarrow> local_read s j dest = Some y"
    using lcSet_view[of s k v d] by (auto split: option.splits if_splits cache_value.splits)
qed (auto simp: localClient_def local_read_def local_marked_def split: if_splits option.splits cache_value.splits)

lemma local_served:
  "query_setup t localClient db p tbl I d0 \<Longrightarrow> plain_rows (tinfo t) (zeroModel (ttype t)) (tbl d0) \<Longrightarrow> lcq.served t db p tbl I d0"
  using local_restores[of "tinfo t" "zeroModel (ttype t)" "tbl d0"]
  by (simp add: lcq.served_def)

text \<open>
  The local cache and the database of a world agree with the result \<open>I\<close> of a query: models, list and
  count, as far as they are cached.
\<close>

definition in_agreement ::
  "(localCache, 'd, 'h) query_env \<Rightarrow> (localCache, 'd, 'h) thing \<Rightarrow> QueryParams \<Rightarrow> (int \<Rightarrow> gomodel option) \<Rightarrow> int list \<Rightarrow> localCache \<Rightarrow> bool" where
  "in_agreement E t p T I c \<longleftrightarrow>
     lcq.agrees (tinfo t) (zeroModel (ttype t)) T (generateListCacheKey E t p) (generateCountCacheKey E t p) I c"

text \<open>
  C6: \<open>Fetch\<close> returns the page that was asked for. When the local cache agrees with the database and
  every row of the query is kept, \<open>Fetch(offset, limit)\<close> on a new query succeeds and returns, in the
  order of the query, the models of rows \<open>offset\<close> to \<open>offset + limit\<close>, whether the ids come from the
  cached list of at most 200 ids, from the database, or from both, and the models from either; cache
  and database still agree afterwards.
\<close>

theorem fetch_returns_page:
  assumes "query_setup t localClient db p tbl I (wdb w)" and "plain_rows (tinfo t) (zeroModel (ttype t)) (tbl (wdb w))"
    and "all_kept t p (tbl (wdb w)) I" and "in_agreement E t p (tbl (wdb w)) I (wcache w)"
    and "0 \<le> offset" and "0 \<le> lim" and "Fetch E (Query t p) offset lim w = (r, cr', w')"
  shows "\<exists>ms. r = Inr ms \<and> rows_of (tinfo t) (tbl (wdb w)) (take (nat lim) (drop (nat offset) I)) ms \<and>
    tbl (wdb w') = tbl (wdb w) \<and> in_agreement E t p (tbl (wdb w)) I (wcache w')"
proof -
  have "lcq.good E t p tbl I (wdb w) w" using assms(4) by (simp add: lcq.good_def in_agreement_def)
  from lcq.fetch_page[OF local_served[OF assms(1,2)] assms(3) this assms(5,6), of "Query t p"]
  show ?thesis using assms(7) by (auto simp: lcq.good_def in_agreement_def)
qed

text \<open>
  \<open>All\<close> returns every row of the query. Under the same agreement, \<open>All\<close> on a new query returns the
  models of all rows in the order of the query, however many there are.
\<close>

theorem all_returns_rows:
  assumes "query_setup t localClient db p tbl I (wdb w)" and "plain_rows (tinfo t) (zeroModel (ttype t)) (tbl (wdb w))"
    and "all_kept t p (tbl (wdb w)) I" and "in_agreement E t p (tbl (wdb w)) I (wcache w)"
    and "All E (Query t p) w = (r, cr', w')"
  shows "\<exists>ms. r = Inr ms \<and> rows_of (tinfo t) (tbl (wdb w)) I ms \<and> in_agreement E t p (tbl (wdb w)) I (wcache w')"
proof -
  have "lcq.good E t p tbl I (wdb w) w" using assms(4) by (simp add: lcq.good_def in_agreement_def)
  from lcq.all_rows[OF local_served[OF assms(1,2)] assms(3) this]
  show ?thesis using assms(5) by (auto simp: lcq.good_def in_agreement_def)
qed

text \<open>
  C19: the precise count ends and is exact. \<open>countByFullScan\<close> loops until the database has no more
  ids; it returns, and counts exactly the rows of the query that \<open>KeepItem\<close> keeps, for a model with
  any \<open>KeepItem\<close> that looks at the fields of the row.
\<close>

theorem precise_scan_counts:
  assumes "query_setup t localClient db p tbl I (wdb w)" and "plain_rows (tinfo t) (zeroModel (ttype t)) (tbl (wdb w))"
    and "in_agreement E t p (tbl (wdb w)) I (wcache w)"
  shows "\<exists>w'. countByFullScan E t db (Query t p) w =
    Some (Inr (int (length (filter (\<lambda>i. case tbl (wdb w) i of None \<Rightarrow> False | Some row \<Rightarrow> keeps t p row) I))), w')"
proof -
  have G: "lcq.good E t p tbl I (wdb w) w" using assms(3) by (simp add: lcq.good_def in_agreement_def)
  from lcq.count_scan_ends[OF local_served[OF assms(1,2)] _ _ G, of "Query t p" 0 0]
  show ?thesis by (auto simp: countByFullScan_def lcq.kept_ids_def Query_def)
qed

text \<open>Every entry of the local cache that is not a model of the table is known to the index.\<close>

definition all_registered :: "ModelInfo \<Rightarrow> (localCache, 'd, 'h) world \<Rightarrow> bool" where
  "all_registered info w \<longleftrightarrow>
     (\<forall>k. lcview (wcache w) k \<noteq> None \<and> (\<forall>i. k \<noteq> generateCacheKey (TableName info) i) \<longrightarrow> GetQueryParamsForKey (windex w) k \<noteq> None)"

lemma all_registered_indexed: "all_registered info w = lcq.indexed info w"
  by (auto simp: all_registered_def lcq.indexed_def)


section \<open>An example\<close>

text \<open>
  A table of users and one query on it, by name; the database cuts the pages as the statement says.
\<close>

definition by_name_order :: "gomodel list \<Rightarrow> int list" where
  "by_name_order d = filter (\<lambda>i. list_table d i \<noteq> None) [4, 2, 9]"

definition page_of :: "string \<Rightarrow> 'a list \<Rightarrow> 'a list" where
  "page_of s xs =
     (let rest = drop 7 s in
      take (digits_val (takeWhile is_digit rest)) (drop (digits_val (drop 8 (dropWhile is_digit rest))) xs))"

definition users_db :: "QueryParams \<Rightarrow> gomodel list db_adapter" where
  "users_db p = (list_db user_info)
     \<lparr>dbSelectIDs := (\<lambda>d q vals.
        if has_prefix q (fst (ids_query (list_db user_info) user_info p))
        then (Inr (page_of (drop (length (fst (ids_query (list_db user_info) user_info p))) q) (by_name_order d)), d)
        else (Inl (Errorf ''syntax''), d)),
      dbGetCount := (\<lambda>d tab cond vals. (Inr (int (length (by_name_order d))), d))\<rparr>"

definition users_thing :: "QueryParams \<Rightarrow> (localCache, gomodel list, unit) thing" where
  "users_thing p =
     \<lparr>tcache = Some localClient, tdb = Some (users_db p), tclass = base_class user_info,
      ttype = \<lparr>isPtr = True, zeroModel = user 0 [] False\<rparr>, tttl = 60, tcanceled = (\<lambda>_. False), tfmt = (\<lambda>_. []),
      tlisteners = [], tnow = (\<lambda>_. VTime 0 0)\<rparr>"

definition users_world :: "(localCache, gomodel list, unit) world" where
  "users_world = \<lparr>wcache = emptyLocalCache, wdb = [user 4 ''ann'' False, user 2 ''bob'' False, user 9 ''cyd'' False],
     windex = NewCacheIndex, whook = (), wtick = 0\<rparr>"

definition users_env :: "(localCache, gomodel list, unit) query_env" where
  "users_env = \<lparr>qversion = 1, qnum = (\<lambda>_. []), qpreload = (\<lambda>n ms w. (Inr (), ms, w))\<rparr>"

lemma page_of_text:
  assumes "0 \<le> offset" and "0 \<le> lim"
  shows "page_of ('' LIMIT '' @ format_int lim @ '' OFFSET '' @ format_int offset) xs = take (nat lim) (drop (nat offset) xs)"
proof -
  have tw: "takeWhile is_digit (nat_dec n @ CHR '' '' # s) = nat_dec n" "dropWhile is_digit (nat_dec n @ CHR '' '' # s) = CHR '' '' # s" for n s
    using nat_dec_digits(1)[of n]
    by (auto simp: takeWhile_append dropWhile_append list_all_iff is_digit_def takeWhile_eq_all_conv dropWhile_eq_Nil_conv)
  show ?thesis using assms by (simp add: page_of_def format_int_def tw digits_val_nat_dec)
qed

lemma users_table: "list_table (wdb users_world) i = Some r \<Longrightarrow> \<exists>n. r = user i n False \<and> i \<in> {4, 2, 9}"
  by (auto simp: users_world_def list_table_def user_def GetID_def split: if_splits)

lemma users_keep: "same_fields user_info m (user i n False) \<Longrightarrow> keeps (users_thing p) p m"
  by (simp add: keeps_def users_thing_def base_class_def base_KeepItem_def same_fields_def user_info_def user_def)

lemma users_order: "list_table d = list_table (wdb users_world) \<Longrightarrow> by_name_order d = [4, 2, 9]"
  by (simp add: by_name_order_def) (simp add: users_world_def list_table_def user_def GetID_def)

lemma users_rows: "i \<in> {4, 2, 9} \<Longrightarrow> \<exists>n. list_table (wdb users_world) i = Some (user i n False)"
  by (auto simp: users_world_def list_table_def user_def GetID_def)

lemma users_setup:
  assumes "Preloads p = []"
  shows "query_setup (users_thing p) localClient (users_db p) p list_table [4, 2, 9] (wdb users_world)"
proof -
  let ?d0 = "wdb users_world" and ?info = "tinfo (users_thing p)"
  have info: "?info = user_info" by (simp add: users_thing_def base_class_def)
  have "list_table ?d0 0 = None" by (simp add: users_world_def list_table_def user_def GetID_def)
  then have rows: "serves_rows (users_db p) user_info (user 0 [] False) list_table ?d0"
    using list_db_serves[of ?d0 user_info "user 0 [] False"] by (simp add: serves_rows_def users_db_def)
  have q: "ids_query (users_db p) user_info p = ids_query (list_db user_info) user_info p"
    by (simp add: ids_query_def users_db_def)
  have "serves_query (users_db p) user_info p list_table [4, 2, 9] ?d0"
    unfolding serves_query_def q by (simp add: users_db_def page_of_text[simplified] users_order has_prefix_def)
  moreover have "\<exists>row. list_table ?d0 i = Some row \<and> (\<forall>m. same_fields user_info m row \<longrightarrow> keeps (users_thing p) p m = keeps (users_thing p) p row)"
    if "i \<in> {4, 2, 9}" for i
    using users_rows[OF that] users_keep[of _ i _ p] by (auto simp: same_fields_def)
  ultimately show ?thesis
    using rows assms unfolding query_setup_def info
    by (auto simp: users_thing_def user_info_def max_int64_def)
qed

lemma users_plain: "plain_rows (tinfo (users_thing p)) (zeroModel (ttype (users_thing p))) (list_table (wdb users_world))"
  by (auto simp: plain_rows_def users_thing_def base_class_def user_info_def user_def gob_plain_def dest!: users_table)

lemma users_kept: "all_kept (users_thing p) p (list_table (wdb users_world)) I"
  using users_keep[of _ _ _ p] by (auto simp: all_kept_def same_fields_def dest!: users_table)

lemma users_agree: "in_agreement E t p T I (wcache users_world)"
  using empty_coherent[of "tinfo t" "zeroModel (ttype t)" T] by (simp add: in_agreement_def lcq.agrees_def users_world_def lcview_empty)

lemma users_info [simp]: "tinfo (users_thing p) = user_info"
  by (simp add: users_thing_def base_class_def)

theorem fetch_returns_page_witness:
  "\<exists>ms. fst (Fetch users_env (Query (users_thing emptyParams) emptyParams) 1 5 users_world) = Inr ms \<and>
     rows_of user_info (list_table (wdb users_world)) [2, 9] ms"
proof -
  obtain r cr' w' where f: "Fetch users_env (Query (users_thing emptyParams) emptyParams) 1 5 users_world = (r, cr', w')"
    using prod_cases3 by blast
  have "Preloads emptyParams = []" by (simp add: emptyParams_def)
  from fetch_returns_page[OF users_setup[OF this] users_plain users_kept users_agree _ _ f] f show ?thesis by auto
qed

theorem all_returns_rows_witness:
  "\<exists>ms. fst (All users_env (Query (users_thing emptyParams) emptyParams) users_world) = Inr ms \<and>
     rows_of user_info (list_table (wdb users_world)) [4, 2, 9] ms"
proof -
  obtain r cr' w' where f: "All users_env (Query (users_thing emptyParams) emptyParams) users_world = (r, cr', w')"
    using prod_cases3 by blast
  have "Preloads emptyParams = []" by (simp add: emptyParams_def)
  from all_returns_rows[OF users_setup[OF this] users_plain users_kept users_agree f] f show ?thesis by auto
qed

theorem precise_scan_counts_witness:
  "\<exists>w'. countByFullScan users_env (users_thing emptyParams) (users_db emptyParams) (Query (users_thing emptyParams) emptyParams) users_world =
     Some (Inr 3, w')"
proof -
  have "Preloads emptyParams = []" by (simp add: emptyParams_def)
  from precise_scan_counts[OF users_setup[OF this] users_plain users_agree]
  have "\<exists>w'. countByFullScan users_env (users_thing emptyParams) (users_db emptyParams) (Query (users_thing emptyParams) emptyParams) users_world =
      Some (Inr (int (length (filter (\<lambda>i. case list_table (wdb users_world) i of None \<Rightarrow> False
        | Some row \<Rightarrow> keeps (users_thing emptyParams) emptyParams row) [4, 2, 9]))), w')" .
  moreover have "filter (\<lambda>i. case list_table (wdb users_world) i of None \<Rightarrow> False
        | Some row \<Rightarrow> keeps (users_thing emptyParams) emptyParams row) [4, 2, 9] = [4, 2, 9]"
    by code_simp
  ultimately show ?thesis by simp
qed


end
