(* ===== verification/Relations.thy ===== *)
theory Relations
  imports Query_Pages Sha256
begin

text \<open>
  Loading of related models: \<^verbatim>\<open>relationships.go\<close>.

  A model whose relations are loaded is an \<open>owner\<close>: its own fields and, by the name of the Go field, what its
  relation fields hold. The type of the owner is known by its fields: for each, the tag \<open>thing\<close>, the shape
  of its type, whether it is exported, and the related type, which is what \<open>GetCachedModelInfo\<close> returns for
  it and its zero struct. The models of a result are not nil. The text \<open>%v\<close> of a value is the function
  \<open>tfmt\<close> of the \<open>Thing\<close>. Keys of maps are values that Go can hash; loops over maps run in the order in which
  the keys were first set.
\<close>

section \<open>Tags\<close>

record RelationshipOpts =
  RelationType :: string
  ForeignKey :: string
  LocalKey :: string
  RelatedModel :: string
  JoinTable :: string
  JoinLocalKey :: string
  JoinRelatedKey :: string

text \<open>\<open>SplitN\<close> in two at the first colon.\<close>

definition split_colon :: "string \<Rightarrow> (string \<times> string) option" where
  "split_colon s =
     (case dropWhile (\<lambda>c. c \<noteq> CHR '':'') s of
        [] \<Rightarrow> None
      | _ # r \<Rightarrow> Some (takeWhile (\<lambda>c. c \<noteq> CHR '':'') s, r))"

definition set_option :: "string \<Rightarrow> string \<Rightarrow> RelationshipOpts \<Rightarrow> RelationshipOpts go_result" where
  "set_option key v opts =
     (if key = ''fk'' \<or> key = ''foreignKey'' then Inr (opts\<lparr>ForeignKey := v\<rparr>)
      else if key = ''localKey'' then Inr (opts\<lparr>LocalKey := v\<rparr>)
      else if key = ''model'' \<or> key = ''relatedModel'' then Inr (opts\<lparr>RelatedModel := v\<rparr>)
      else if key = ''joinTable'' then Inr (opts\<lparr>JoinTable := v\<rparr>)
      else if key = ''joinLocalKey'' then Inr (opts\<lparr>JoinLocalKey := v\<rparr>)
      else if key = ''joinRelatedKey'' then Inr (opts\<lparr>JoinRelatedKey := v\<rparr>)
      else Inl (Errorf ''unknown key in thing tag''))"

fun tag_options :: "string list \<Rightarrow> RelationshipOpts \<Rightarrow> RelationshipOpts go_result" where
  "tag_options [] opts = Inr opts"
| "tag_options (part # parts) opts =
     (case split_colon part of
        None \<Rightarrow> Inl (Errorf ''invalid key-value pair in thing tag'')
      | Some (k, v) \<Rightarrow> bindE (set_option (trim_space k) (trim_space v) opts) (tag_options parts))"

definition check_options :: "RelationshipOpts \<Rightarrow> RelationshipOpts go_result" where
  "check_options opts =
     (if (RelationType opts = ''belongsTo'' \<or> RelationType opts = ''hasMany'') \<and> ForeignKey opts = []
      then Inl (Errorf ''missing fk (foreignKey) in thing tag'')
      else if RelationType opts = ''manyToMany'' \<and> (JoinTable opts = [] \<or> JoinLocalKey opts = [] \<or> JoinRelatedKey opts = [])
      then Inl (Errorf ''missing joinTable/joinLocalKey/joinRelatedKey in thing tag for manyToMany relation'')
      else Inr opts)"

definition no_options :: RelationshipOpts where
  "no_options = \<lparr>RelationType = [], ForeignKey = [], LocalKey = [], RelatedModel = [], JoinTable = [], JoinLocalKey = [], JoinRelatedKey = []\<rparr>"

definition parseThingTag :: "string \<Rightarrow> RelationshipOpts go_result" where
  "parseThingTag tag =
     (if tag = [] then Inl (Errorf ''empty thing tag'')
      else
        let parts = split_on CHR '';'' tag; relation = hd parts in
        if relation \<noteq> ''belongsTo'' \<and> relation \<noteq> ''hasMany'' \<and> relation \<noteq> ''manyToMany''
        then Inl (Errorf ''unsupported relation type in thing tag'')
        else bindE (tag_options (tl parts) (no_options\<lparr>RelationType := relation\<rparr>)) check_options)"

section \<open>Owners and relation fields\<close>

datatype related = One gomodel | Many "gomodel list"

record owner =
  omodel :: gomodel
  orelated :: "(string, related) gomap"

datatype field_shape = PtrToStruct | SliceOfPtr | SliceOfStruct | SliceOfOther | OtherShape

record related_type =
  rtInfo :: "ModelInfo go_result"
  rtZero :: gomodel

record relation_field =
  rfName :: string
  rfTag :: string
  rfShape :: field_shape
  rfExported :: bool
  rfRelated :: related_type

definition ptr_type :: "related_type \<Rightarrow> model_type" where
  "ptr_type rt = \<lparr>isPtr = True, zeroModel = rtZero rt\<rparr>"

text \<open>\<open>relationField.Set\<close>, when the field can be set.\<close>

definition set_related :: "relation_field \<Rightarrow> related \<Rightarrow> owner \<Rightarrow> owner" where
  "set_related field r ow = (if rfExported field then ow\<lparr>orelated := gm_set (rfName field) r (orelated ow)\<rparr> else ow)"

section \<open>Belongs to\<close>

definition fk_int :: "string \<Rightarrow> owner \<Rightarrow> int option" where
  "fk_int fkFieldName ow =
     (case FieldByName (omodel ow) fkFieldName of
        None \<Rightarrow> None
      | Some v \<Rightarrow>
          (case type_of v of
             None \<Rightarrow> None
           | Some ty \<Rightarrow>
               if convertible ty (TInt S64)
               then (case convert (TInt S64) v of Some (VInt _ i) \<Rightarrow> Some i | _ \<Rightarrow> None)
               else None))"

fun collect_fks :: "string \<Rightarrow> owner list \<Rightarrow> int list \<Rightarrow> int list" where
  "collect_fks fkFieldName [] keys = keys"
| "collect_fks fkFieldName (ow # ows) keys =
     collect_fks fkFieldName ows
       (case fk_int fkFieldName ow of
          Some key \<Rightarrow> if key \<noteq> 0 \<and> key \<notin> set keys then keys @ [key] else keys
        | None \<Rightarrow> keys)"

definition set_belongs_to :: "relation_field \<Rightarrow> string \<Rightarrow> (int, gomodel) gomap \<Rightarrow> owner \<Rightarrow> owner" where
  "set_belongs_to field fkFieldName relatedMap ow =
     (case fk_int fkFieldName ow of
        None \<Rightarrow> ow
      | Some key \<Rightarrow> (case gm_get relatedMap key of Some m \<Rightarrow> set_related field (One m) ow | None \<Rightarrow> ow))"

definition preloadBelongsTo ::
  "('c, 'd, 'h) thing \<Rightarrow> 'd db_adapter \<Rightarrow> owner list \<Rightarrow> relation_field \<Rightarrow> RelationshipOpts \<Rightarrow> ('c, 'd, 'h) world \<Rightarrow>
   unit go_result \<times> owner list \<times> ('c, 'd, 'h) world" where
  "preloadBelongsTo t db owners field opts w =
     (if rfShape field \<noteq> PtrToStruct then (Inl (Errorf ''belongsTo field must be a pointer to a struct''), owners, w)
      else
        let found = (case gm_get (ColumnToFieldMap (tinfo t)) (ForeignKey opts) of
              Some f \<Rightarrow> Some f
            | None \<Rightarrow> if FieldByName (omodel (hd owners)) (ForeignKey opts) \<noteq> None then Some (ForeignKey opts) else None)
        in case found of
             None \<Rightarrow> (Inl (Errorf ''foreign key field not found in owning model''), owners, w)
           | Some fkFieldName \<Rightarrow>
               (let keys = collect_fks fkFieldName owners [] in
                if keys = [] then (Inr (), owners, w)
                else case rtInfo (rfRelated field) of
                  Inl e \<Rightarrow> (Inl (Wrapped ''failed to get model info for related type'' e), owners, w)
                | Inr relatedInfo \<Rightarrow>
                    (case fetchModelsByIDsInternal (tcache t) db relatedInfo (ptr_type (rfRelated field)) (tttl t) keys (wcache w, wdb w) of
                       (Inl e, c, d) \<Rightarrow>
                         (Inl (Wrapped ''failed to fetch related models using internal helper'' e), owners, w\<lparr>wcache := c, wdb := d\<rparr>)
                     | (Inr relatedMap, c, d) \<Rightarrow>
                         (Inr (), map (set_belongs_to field fkFieldName relatedMap) owners, w\<lparr>wcache := c, wdb := d\<rparr>))))"

section \<open>Has many\<close>

fun collect_keys :: "string \<Rightarrow> owner list \<Rightarrow> goval list \<Rightarrow> goval list" where
  "collect_keys f [] keys = keys"
| "collect_keys f (ow # ows) keys =
     collect_keys f ows (case FieldByName (omodel ow) f of Some v \<Rightarrow> if v \<in> set keys then keys else keys @ [v] | None \<Rightarrow> keys)"

definition in_params :: "string \<Rightarrow> goval list \<Rightarrow> QueryParams" where
  "in_params col keys =
     \<lparr>Where = [CHR 0x22] @ col @ [CHR 0x22] @ '' IN ('' @ str_join (replicate (length keys) ''?'') '','' @ '')'',
      Args = keys, Order = [], Preloads = [], IncludeDeleted = False\<rparr>"

text \<open>The key under which the ids are cached: every argument as a string, all of it as JSON, hashed after the table.\<close>

definition listCacheKey_of :: "(goval \<Rightarrow> string) \<Rightarrow> string \<Rightarrow> QueryParams \<Rightarrow> string" where
  "listCacheKey_of fmt_v table p =
     ''list:'' @ table @ '':'' @ sha256_hex (table @ json_params fmt_v (p\<lparr>Args := map (\<lambda>v. VString (fmt_v v)) (Args p)\<rparr>))"

definition ErrNoRows :: goerror where
  "ErrNoRows = Errorf ''sql: no rows in result set''"

definition id_query :: "'d db_adapter \<Rightarrow> ModelInfo \<Rightarrow> QueryParams \<Rightarrow> string" where
  "id_query db info p =
     BuildSelectSQL (dbDialect db) (TableName info) [PkName info] @ (if Where p \<noteq> [] then '' WHERE '' @ Where p else [])"

definition cache_related_ids :: "('c, 'd, 'h) thing \<Rightarrow> string \<Rightarrow> int list \<Rightarrow> 'c \<Rightarrow> 'c" where
  "cache_related_ids t key ids c =
     (case tcache t of
        None \<Rightarrow> c
      | Some client \<Rightarrow>
          if ids \<noteq> [] then snd (cSetQueryIDs client c key ids (tttl t)) else snd (cSet client c key NoneResult (tttl t)))"

text \<open>The ids of the related rows, from the cache or the database.\<close>

definition related_ids ::
  "('c, 'd, 'h) thing \<Rightarrow> 'd db_adapter \<Rightarrow> ModelInfo \<Rightarrow> QueryParams \<Rightarrow> ('c, 'd, 'h) world \<Rightarrow> int list go_result \<times> ('c, 'd, 'h) world" where
  "related_ids t db info p w =
     (let key = listCacheKey_of (tfmt t) (TableName info) p;
          (hit, c1) = (case tcache t of
             None \<Rightarrow> (None, wcache w)
           | Some client \<Rightarrow>
               (case cGetQueryIDs client (wcache w) key of (Inr ids, c) \<Rightarrow> (Some ids, c) | (Inl _, c) \<Rightarrow> (None, c)))
      in case hit of
           Some ids \<Rightarrow> (Inr ids, w\<lparr>wcache := c1\<rparr>)
         | None \<Rightarrow>
             (case dbSelectIDs db (wdb w) (id_query db info p) (Args p) of
                (Inl e, d) \<Rightarrow>
                  if errors_is e ErrNoRows then (Inr [], w\<lparr>wcache := cache_related_ids t key [] c1, wdb := d\<rparr>)
                  else (Inl (Wrapped ''failed to fetch related IDs'' e), w\<lparr>wcache := c1, wdb := d\<rparr>)
              | (Inr ids, d) \<Rightarrow> (Inr ids, w\<lparr>wcache := cache_related_ids t key ids c1, wdb := d\<rparr>)))"

fun group_by_fk :: "string \<Rightarrow> (int, gomodel) gomap \<Rightarrow> (goval, gomodel list) gomap \<Rightarrow> (goval, gomodel list) gomap" where
  "group_by_fk f [] grouped = grouped"
| "group_by_fk f ((_, m) # rest) grouped =
     group_by_fk f rest
       (case FieldByName m f of
          None \<Rightarrow> grouped
        | Some fk \<Rightarrow> gm_set fk ((case gm_get grouped fk of Some ms \<Rightarrow> ms | None \<Rightarrow> []) @ [m]) grouped)"

definition set_has_many :: "relation_field \<Rightarrow> string \<Rightarrow> (goval, gomodel list) gomap \<Rightarrow> owner \<Rightarrow> owner" where
  "set_has_many field localKeyGoFieldName grouped ow =
     set_related field (Many (case FieldByName (omodel ow) localKeyGoFieldName of
         None \<Rightarrow> []
       | Some lk \<Rightarrow> (case gm_get grouped lk of Some ms \<Rightarrow> ms | None \<Rightarrow> []))) ow"

definition eq_params :: "string \<Rightarrow> goval \<Rightarrow> QueryParams" where
  "eq_params col v = \<lparr>Where = col @ '' = ?'', Args = [v], Order = [], Preloads = [], IncludeDeleted = False\<rparr>"

definition register_value :: "('c, 'd, 'h) thing \<Rightarrow> string \<Rightarrow> string \<Rightarrow> goval \<Rightarrow> CacheIndex \<Rightarrow> CacheIndex" where
  "register_value t table col v idx = RegisterQuery (tfmt t) idx table (table @ '':'' @ tfmt t v) (eq_params col v)"

definition load_many ::
  "('c, 'd, 'h) thing \<Rightarrow> 'd db_adapter \<Rightarrow> owner list \<Rightarrow> relation_field \<Rightarrow> string \<Rightarrow> string \<Rightarrow> string \<Rightarrow> ModelInfo \<Rightarrow> goval list \<Rightarrow>
   int list \<Rightarrow> ('c, 'd, 'h) world \<Rightarrow> owner list \<times> ('c, 'd, 'h) world" where
  "load_many t db owners field localField fkField fkCol relatedInfo keys ids w =
     (let (models, w1) =
            (if ids = [] then ([], w)
             else case fetchModelsByIDsInternal (tcache t) db relatedInfo (ptr_type (rfRelated field)) (tttl t) ids (wcache w, wdb w) of
               (Inl _, c, d) \<Rightarrow> ([], w\<lparr>wcache := c, wdb := d\<rparr>)
             | (Inr ms, c, d) \<Rightarrow> (ms, w\<lparr>wcache := c, wdb := d\<rparr>));
          grouped = group_by_fk fkField models [];
          idx = foldl (\<lambda>idx lk. register_value t (TableName relatedInfo) fkCol lk idx) (windex w1) keys
      in (map (set_has_many field localField grouped) owners, w1\<lparr>windex := idx\<rparr>))"

definition preloadHasMany ::
  "('c, 'd, 'h) thing \<Rightarrow> 'd db_adapter \<Rightarrow> owner list \<Rightarrow> relation_field \<Rightarrow> RelationshipOpts \<Rightarrow> ('c, 'd, 'h) world \<Rightarrow>
   unit go_result \<times> owner list \<times> ('c, 'd, 'h) world" where
  "preloadHasMany t db owners field opts w =
     (if rfShape field \<noteq> SliceOfPtr \<and> rfShape field \<noteq> SliceOfStruct
      then (Inl (Errorf ''hasMany field must be a slice of structs or pointers to structs''), owners, w)
      else case gm_get (ColumnToFieldMap (tinfo t)) (LocalKey opts) of
        None \<Rightarrow> (Inl (Errorf ''local key column not found in model info''), owners, w)
      | Some localField \<Rightarrow>
          (let keys = collect_keys localField owners [] in
           if keys = [] then (Inr (), map (set_related field (Many [])) owners, w)
           else case rtInfo (rfRelated field) of
             Inl e \<Rightarrow> (Inl (Wrapped ''failed to get model info for related type'' e), owners, w)
           | Inr relatedInfo \<Rightarrow>
               (let fkCol = ForeignKey opts;
                    found = (case gm_get (ColumnToFieldMap relatedInfo) fkCol of
                        Some f \<Rightarrow> Some f
                      | None \<Rightarrow> if FieldByName (rtZero (rfRelated field)) fkCol \<noteq> None then Some fkCol else None)
                in case found of
                     None \<Rightarrow> (Inl (Errorf ''foreign key column not found in related model info or as a direct field name''), owners, w)
                   | Some fkField \<Rightarrow>
                       (case related_ids t db relatedInfo (in_params fkCol keys) w of
                          (Inl e, w1) \<Rightarrow> (Inl e, owners, w1)
                        | (Inr ids, w1) \<Rightarrow>
                            (let (owners', w2) = load_many t db owners field localField fkField fkCol relatedInfo keys ids w1
                             in (Inr (), owners', w2))))))"

section \<open>Many to many\<close>

text \<open>
  The join table is read with \<open>QueryContext\<close>: an error, or for every row the outcome of its \<open>Scan\<close>, and the error of the
  iteration, if any.
\<close>

type_synonym 'd join_query = "'d \<Rightarrow> string \<Rightarrow> goval list \<Rightarrow> (int go_result list \<times> unit go_result) go_result \<times> 'd"

fun scan_ids :: "int go_result list \<Rightarrow> unit go_result \<Rightarrow> int list go_result" where
  "scan_ids [] (Inl e) = Inl (Wrapped ''manyToMany rows iteration error'' e)"
| "scan_ids [] (Inr _) = Inr []"
| "scan_ids (Inl e # rows) fin = Inl (Wrapped ''manyToMany scan error'' e)"
| "scan_ids (Inr i # rows) fin = bindE (scan_ids rows fin) (\<lambda>ids. Inr (i # ids))"

definition join_sql :: "RelationshipOpts \<Rightarrow> string" where
  "join_sql opts =
     (let q = (\<lambda>s. [CHR 0x22] @ s @ [CHR 0x22])
      in ''SELECT '' @ q (JoinRelatedKey opts) @ '' FROM '' @ q (JoinTable opts) @ '' WHERE '' @ q (JoinLocalKey opts) @ '' = ?'')"

text \<open>JSON of a list of \<open>int64\<close>; a nil list is \<open>null\<close>.\<close>

definition marshal_ids :: "int list \<Rightarrow> string" where
  "marshal_ids ids = (if ids = [] then ''null'' else json_array (map format_int ids))"

definition json_blank :: "char \<Rightarrow> bool" where
  "json_blank c \<longleftrightarrow> c \<in> {CHR '' '', CHR 0x09, CHR 0x0A, CHR 0x0D}"

definition unmarshal_int :: "string \<Rightarrow> int option" where
  "unmarshal_int s =
     (if s = ''null'' then Some 0
      else
        let digits = (if has_prefix s ''-'' then tl s else s) in
        if digits = [] \<or> \<not> list_all is_digit digits \<or> (1 < length digits \<and> hd digits = CHR ''0'') then None
        else parse_int s)"

definition unmarshal_ids :: "string \<Rightarrow> int list option" where
  "unmarshal_ids s =
     (let u = trim_by json_blank s in
      if u = ''null'' then Some []
      else if 2 \<le> length u \<and> hd u = CHR ''['' \<and> last u = CHR '']'' then
        let inner = trim_by json_blank (butlast (tl u)) in
        if inner = [] then Some []
        else those (map (\<lambda>x. unmarshal_int (trim_by json_blank x)) (split_on CHR '','' inner))
      else None)"

definition link_key :: "(goval \<Rightarrow> string) \<Rightarrow> RelationshipOpts \<Rightarrow> goval \<Rightarrow> string" where
  "link_key fmt_v opts localID = JoinTable opts @ '':'' @ JoinLocalKey opts @ '':'' @ fmt_v localID"

definition cached_links :: "('c, 'd, 'h) thing \<Rightarrow> string \<Rightarrow> 'c \<Rightarrow> int list option \<times> 'c" where
  "cached_links t key c =
     (case tcache t of
        None \<Rightarrow> (None, c)
      | Some client \<Rightarrow> (case cGet client c key of (Inl _, c') \<Rightarrow> (None, c') | (Inr val, c') \<Rightarrow> (unmarshal_ids val, c')))"

text \<open>
  The links of every local id: the lists by local id, and the set of ids to load, which only the ids read from the
  database enter.
\<close>

fun load_links ::
  "('c, 'd, 'h) thing \<Rightarrow> 'd join_query \<Rightarrow> RelationshipOpts \<Rightarrow> goval list \<Rightarrow> (goval, int list) gomap \<Rightarrow> int list \<Rightarrow> ('c, 'd, 'h) world \<Rightarrow>
   ((goval, int list) gomap \<times> int list) go_result \<times> ('c, 'd, 'h) world" where
  "load_links t query opts [] links all_ids w = (Inr (links, all_ids), w)"
| "load_links t query opts (localID # rest) links all_ids w =
     (let key = link_key (tfmt t) opts localID;
          (hit, c1) = cached_links t key (wcache w);
          (r, all', w1) = (case hit of
             Some ids \<Rightarrow> (Inr ids, all_ids, w\<lparr>wcache := c1\<rparr>)
           | None \<Rightarrow>
               (case query (wdb w) (join_sql opts) [localID] of
                  (Inl e, d) \<Rightarrow> (Inl e, all_ids, w\<lparr>wcache := c1, wdb := d\<rparr>)
                | (Inr (rows, fin), d) \<Rightarrow>
                    (case scan_ids rows fin of
                       Inl e \<Rightarrow> (Inl e, all_ids, w\<lparr>wcache := c1, wdb := d\<rparr>)
                     | Inr ids \<Rightarrow>
                         (Inr ids, foldl (\<lambda>xs i. if i \<in> set xs then xs else xs @ [i]) all_ids ids,
                          w\<lparr>wcache := (case tcache t of None \<Rightarrow> c1 | Some client \<Rightarrow> snd (cSet client c1 key (marshal_ids ids) 0)), wdb := d\<rparr>))))
      in case r of
           Inl e \<Rightarrow> (Inl e, w1)
         | Inr ids \<Rightarrow>
             load_links t query opts rest (gm_set localID ids links) all'
               (w1\<lparr>windex := register_value t (JoinTable opts) (JoinLocalKey opts) localID (windex w1)\<rparr>))"

definition set_many_to_many :: "relation_field \<Rightarrow> string \<Rightarrow> (goval, int list) gomap \<Rightarrow> (int, gomodel) gomap \<Rightarrow> owner \<Rightarrow> owner" where
  "set_many_to_many field localField links models ow =
     (case FieldByName (omodel ow) localField of
        None \<Rightarrow> ow
      | Some localID \<Rightarrow>
          set_related field (Many (List.map_filter (gm_get models) (case gm_get links localID of Some ids \<Rightarrow> ids | None \<Rightarrow> []))) ow)"

definition local_ids :: "string \<Rightarrow> owner list \<Rightarrow> goval list" where
  "local_ids f owners = List.map_filter (\<lambda>ow. FieldByName (omodel ow) f) owners"

definition preloadManyToMany ::
  "('c, 'd, 'h) thing \<Rightarrow> 'd db_adapter \<Rightarrow> 'd join_query \<Rightarrow> owner list \<Rightarrow> relation_field \<Rightarrow> RelationshipOpts \<Rightarrow> ('c, 'd, 'h) world \<Rightarrow>
   unit go_result \<times> owner list \<times> ('c, 'd, 'h) world" where
  "preloadManyToMany t db query owners field opts w =
     (if rfShape field \<noteq> SliceOfPtr \<and> rfShape field \<noteq> SliceOfStruct
      then (Inl (Errorf ''manyToMany field must be a slice of structs or pointers to structs''), owners, w)
      else case gm_get (ColumnToFieldMap (tinfo t)) (if LocalKey opts = [] then PkName (tinfo t) else LocalKey opts) of
        None \<Rightarrow> (Inl (Errorf ''local key column not found in model info''), owners, w)
      | Some localField \<Rightarrow>
          (let keys = local_ids localField owners in
           if keys = [] then (Inr (), owners, w)
           else if JoinTable opts = [] \<or> JoinLocalKey opts = [] \<or> JoinRelatedKey opts = []
           then (Inl (Errorf ''manyToMany preload: joinTable/joinLocalKey/joinRelatedKey must be set in tag''), owners, w)
           else case load_links t query opts keys [] [] w of
             (Inl e, w1) \<Rightarrow> (Inl e, owners, w1)
           | (Inr (links, all_ids), w1) \<Rightarrow>
               (case rtInfo (rfRelated field) of
                  Inl e \<Rightarrow> (Inl (Wrapped ''failed to get model info for related type'' e), owners, w1)
                | Inr relatedInfo \<Rightarrow>
                    (case fetchModelsByIDsInternal (tcache t) db relatedInfo (ptr_type (rfRelated field)) (tttl t) all_ids (wcache w1, wdb w1) of
                       (Inl e, c, d) \<Rightarrow> (Inl (Wrapped ''failed to fetch related models'' e), owners, w1\<lparr>wcache := c, wdb := d\<rparr>)
                     | (Inr models, c, d) \<Rightarrow>
                         (Inr (), map (set_many_to_many field localField links models) owners, w1\<lparr>wcache := c, wdb := d\<rparr>)))))"

section \<open>Loading by name\<close>

definition preloadRelations ::
  "('c, 'd, 'h) thing \<Rightarrow> 'd db_adapter \<Rightarrow> 'd join_query \<Rightarrow> relation_field list \<Rightarrow> owner list \<Rightarrow> string \<Rightarrow> ('c, 'd, 'h) world \<Rightarrow>
   unit go_result \<times> owner list \<times> ('c, 'd, 'h) world" where
  "preloadRelations t db query rfields owners preloadName w =
     (if owners = [] then (Inr (), owners, w)
      else case find (\<lambda>f. rfName f = preloadName) rfields of
        None \<Rightarrow> (Inl (Errorf ''field not found in model''), owners, w)
      | Some field \<Rightarrow>
          (case parseThingTag (rfTag field) of
             Inl e \<Rightarrow> (Inl (Wrapped ''failed to parse thing tag for field'' e), owners, w)
           | Inr opts0 \<Rightarrow>
               (let opts = (if LocalKey opts0 = [] then opts0\<lparr>LocalKey := PkName (tinfo t)\<rparr> else opts0) in
                if \<not> isPtr (ttype t)
                then (Inl (Errorf ''preloadRelations: elements in results must be pointers to struct''), owners, w)
                else if RelationType opts = ''belongsTo'' then preloadBelongsTo t db owners field opts w
                else if RelationType opts = ''hasMany'' then preloadHasMany t db owners field opts w
                else if RelationType opts = ''manyToMany'' then preloadManyToMany t db query owners field opts w
                else (Inl (Errorf ''internal error: unsupported relation type in preloadRelations''), owners, w))))"

fun load_relations ::
  "('c, 'd, 'h) thing \<Rightarrow> 'd db_adapter \<Rightarrow> 'd join_query \<Rightarrow> relation_field list \<Rightarrow> string list \<Rightarrow> owner list \<Rightarrow> ('c, 'd, 'h) world \<Rightarrow>
   unit go_result \<times> owner list \<times> ('c, 'd, 'h) world" where
  "load_relations t db query rfields [] owners w = (Inr (), owners, w)"
| "load_relations t db query rfields (name # names) owners w =
     (case preloadRelations t db query rfields owners name w of
        (Inl e, owners', w') \<Rightarrow> (Inl (Wrapped ''failed to load relation'' e), owners', w')
      | (Inr _, owners', w') \<Rightarrow> load_relations t db query rfields names owners' w')"

text \<open>\<open>None\<close> is a nil model.\<close>

definition loadInternal ::
  "('c, 'd, 'h) thing \<Rightarrow> 'd db_adapter \<Rightarrow> 'd join_query \<Rightarrow> relation_field list \<Rightarrow> owner option \<Rightarrow> string list \<Rightarrow> ('c, 'd, 'h) world \<Rightarrow>
   unit go_result \<times> owner option \<times> ('c, 'd, 'h) world" where
  "loadInternal t db query rfields model relations w =
     (case model of
        None \<Rightarrow> (Inl (Errorf ''model cannot be nil''), None, w)
      | Some ow \<Rightarrow>
          (case load_relations t db query rfields relations [ow] w of
             (r, owners, w') \<Rightarrow> (r, Some (hd owners), w')))"

end
