(* ===== verification/Relation_Loads.thy ===== *)
theory Relation_Loads
  imports Relations
begin

text \<open>
  What loading a relation puts into the owners, for a database that serves the related table and a cache
  that is coherent with it.
\<close>

section \<open>The models loaded\<close>

text \<open>The models are those of the rows with the ids \<open>I\<close>, each once.\<close>

definition rows_loaded :: "ModelInfo \<Rightarrow> (int \<Rightarrow> gomodel option) \<Rightarrow> int set \<Rightarrow> gomodel list \<Rightarrow> bool" where
  "rows_loaded info T I ms \<longleftrightarrow>
     (\<exists>ps. map snd ps = ms \<and> distinct (map fst ps) \<and> set (map fst ps) = I \<and>
        (\<forall>(i, m) \<in> set ps. \<exists>row. T i = Some row \<and> same_fields info m row))"

lemma cache_results_distinct:
  "distinct (map fst res) \<Longrightarrow> distinct (map fst (fst (cache_results ids rs res missing)))"
  by (induction ids rs res missing rule: cache_results.induct) (auto simp: distinct_gm_set split: sum.splits)

lemma store_rows_distinct:
  "distinct (map fst res) \<Longrightarrow> distinct (map fst (fst (store_rows client_opt info ttl ms res fetched c)))"
  by (induction ms arbitrary: res fetched c) (auto simp: distinct_gm_set Let_def)

lemma fetch_batches_distinct:
  "distinct (map fst res) \<Longrightarrow> distinct (map fst (fst (fetch_batches client_opt db info zero ttl bs res s)))"
proof (induction bs arbitrary: res s)
  case (Cons b bs)
  obtain c d where s: "s = (c, d)" by (cases s)
  show ?case
  proof (cases "dbSelectModels db d zero (batch_query (dbDialect db) info (length b)) (map (VInt S64) b)")
    case (Pair r d')
    show ?thesis
    proof (cases r)
      case (Inr rows)
      obtain res' f c' where st: "store_rows client_opt info ttl rows res [] c = (res', f, c')" using prod_cases3 by blast
      with store_rows_distinct[OF Cons.prems, of client_opt info ttl rows "[]" c] have "distinct (map fst res')" by simp
      then show ?thesis using Cons.IH s Pair Inr st by simp
    qed (use Cons s Pair in simp)
  qed
qed simp

lemma fetch_distinct:
  assumes "fetchModelsByIDsInternal client_opt db info ty ttl ids s = (Inr models, c, d)"
  shows "distinct (map fst models)"
proof -
  have *: "distinct (map fst res)" if "cache_results ids rs [] [] = (res, missing)" for rs res missing
    using cache_results_distinct[of "[]" ids rs "[]"] that by simp
  have **: "distinct (map fst models)" if "distinct (map fst res)" "fetch_batches co db info (zeroModel ty) ttl bs res s' = (models, c, d)" for co bs res s'
    using fetch_batches_distinct[OF that(1), of co db info "zeroModel ty" ttl bs s'] that(2) by simp
  show ?thesis using assms
    by (auto simp: fetchModelsByIDsInternal_def Let_def split: if_splits option.splits prod.splits dest: * intro: ** **[of "[]"])
qed

section \<open>Grouping\<close>

lemma group_get:
  "(case gm_get (group_by_fk f ms grouped) k of Some xs \<Rightarrow> xs | None \<Rightarrow> []) =
     (case gm_get grouped k of Some xs \<Rightarrow> xs | None \<Rightarrow> []) @ map snd (filter (\<lambda>(_, m). FieldByName m f = Some k) ms)"
proof (induction ms arbitrary: grouped)
  case (Cons e ms)
  obtain i m where e: "e = (i, m)" by (cases e)
  show ?case
  proof (cases "FieldByName m f")
    case None
    then show ?thesis using Cons.IH[of grouped] by (simp add: e)
  next
    case (Some fk)
    let ?g = "gm_set fk ((case gm_get grouped fk of Some xs \<Rightarrow> xs | None \<Rightarrow> []) @ [m]) grouped"
    show ?thesis using Cons.IH[of ?g] Some by (cases "fk = k") (simp_all add: e)
  qed
qed simp

lemma collect_fks_set: "set (collect_fks f ows keys) = set keys \<union> {i. i \<noteq> 0 \<and> (\<exists>ow \<in> set ows. fk_int f ow = Some i)}"
  by (induction ows arbitrary: keys) (auto split: option.splits)

lemma collect_keys_set: "set (collect_keys f ows keys) = set keys \<union> {v. \<exists>ow \<in> set ows. FieldByName (omodel ow) f = Some v}"
  by (induction ows arbitrary: keys) (auto split: option.splits)

section \<open>What the owners hold afterwards\<close>

text \<open>
  After loading, an owner whose foreign key has a row holds the model of that row; any other owner is
  unchanged.
\<close>

definition belongs_loaded :: "ModelInfo \<Rightarrow> (int \<Rightarrow> gomodel option) \<Rightarrow> relation_field \<Rightarrow> string \<Rightarrow> owner \<Rightarrow> owner \<Rightarrow> bool" where
  "belongs_loaded info T field f ow ow' \<longleftrightarrow>
     (case fk_int f ow of
        None \<Rightarrow> ow' = ow
      | Some i \<Rightarrow> (case T i of None \<Rightarrow> ow' = ow | Some row \<Rightarrow> \<exists>m. same_fields info m row \<and> ow' = set_related field (One m) ow))"

text \<open>An owner holds the models of the rows whose foreign key is its local key.\<close>

definition rows_with :: "(int \<Rightarrow> gomodel option) \<Rightarrow> string \<Rightarrow> goval \<Rightarrow> int set" where
  "rows_with T f v = {i. \<exists>row. T i = Some row \<and> FieldByName row f = Some v}"

definition many_loaded :: "ModelInfo \<Rightarrow> (int \<Rightarrow> gomodel option) \<Rightarrow> relation_field \<Rightarrow> string \<Rightarrow> string \<Rightarrow> owner \<Rightarrow> owner \<Rightarrow> bool" where
  "many_loaded info T field localField fkField ow ow' \<longleftrightarrow>
     (\<exists>ms. ow' = set_related field (Many ms) ow \<and>
        (case FieldByName (omodel ow) localField of
           None \<Rightarrow> ms = []
         | Some lk \<Rightarrow> rows_loaded info T (rows_with T fkField lk) ms))"

text \<open>The database answers the query for the ids of the related rows.\<close>

definition serves_fk :: "'d db_adapter \<Rightarrow> ModelInfo \<Rightarrow> string \<Rightarrow> string \<Rightarrow> goval list \<Rightarrow> ('d \<Rightarrow> int \<Rightarrow> gomodel option) \<Rightarrow> 'd \<Rightarrow> bool" where
  "serves_fk db info col f keys tbl d0 \<longleftrightarrow>
     (\<forall>d. tbl d = tbl d0 \<longrightarrow>
        (\<exists>ids d'. dbSelectIDs db d (id_query db info (in_params col keys)) keys = (Inr ids, d') \<and> tbl d' = tbl d0 \<and>
           set ids = (\<Union>k \<in> set keys. rows_with (tbl d0) f k)))"

text \<open>An owner holds the models of the rows its links name, in the order of the links.\<close>

definition linked_loaded :: "ModelInfo \<Rightarrow> (int \<Rightarrow> gomodel option) \<Rightarrow> relation_field \<Rightarrow> string \<Rightarrow> (goval \<Rightarrow> int list) \<Rightarrow> owner \<Rightarrow> owner \<Rightarrow> bool" where
  "linked_loaded info T field localField L ow ow' \<longleftrightarrow>
     (case FieldByName (omodel ow) localField of
        None \<Rightarrow> ow' = ow
      | Some lk \<Rightarrow> \<exists>ms. ow' = set_related field (Many ms) ow \<and> rows_of info T (filter (\<lambda>i. T i \<noteq> None) (L lk)) ms)"

text \<open>The join table has the links \<open>L\<close>.\<close>

definition serves_links :: "'d join_query \<Rightarrow> RelationshipOpts \<Rightarrow> (goval \<Rightarrow> int list) \<Rightarrow> ('d \<Rightarrow> int \<Rightarrow> gomodel option) \<Rightarrow> 'd \<Rightarrow> bool" where
  "serves_links query opts L tbl d0 \<longleftrightarrow>
     (\<forall>d v. tbl d = tbl d0 \<longrightarrow> (\<exists>d'. query d (join_sql opts) [v] = (Inr (map Inr (L v), Inr ()), d') \<and> tbl d' = tbl d0))"

lemma scan_ids_all: "scan_ids (map Inr ids) (Inr ()) = Inr ids"
  by (induction ids) auto

lemma add_new_ids: "set (foldl (\<lambda>xs i. if i \<in> set xs then xs else xs @ [i]) xs ids) = set xs \<union> set ids"
  by (induction ids arbitrary: xs) auto

lemma models_of_links:
  assumes "\<forall>i m. gm_get models i = Some m \<longrightarrow> (\<exists>row. T i = Some row \<and> same_fields info m row)"
    and "\<forall>i \<in> set ids. T i \<noteq> None \<longrightarrow> gm_get models i \<noteq> None"
  shows "rows_of info T (filter (\<lambda>i. T i \<noteq> None) ids) (List.map_filter (gm_get models) ids)"
  using assms(2)
proof (induction ids)
  case (Cons i ids)
  then have IH: "rows_of info T (filter (\<lambda>i. T i \<noteq> None) ids) (List.map_filter (gm_get models) ids)" by simp
  show ?case
  proof (cases "gm_get models i")
    case None
    then have "T i = None" using Cons.prems by auto
    then show ?thesis using IH None by (simp add: map_filter_simps)
  next
    case (Some m)
    then obtain row where "T i = Some row" "same_fields info m row" using assms(1) by blast
    then show ?thesis using IH Some by (auto simp: map_filter_simps rows_of_def)
  qed
qed (simp add: rows_of_def map_filter_simps)

context query_cache
begin

text \<open>What loading needs of the related table: the database serves it and the cache is coherent with it.\<close>

definition related_ready ::
  "('c, 'd, 'h) thing \<Rightarrow> 'd db_adapter \<Rightarrow> relation_field \<Rightarrow> ModelInfo \<Rightarrow> ('d \<Rightarrow> int \<Rightarrow> gomodel option) \<Rightarrow> ('c, 'd, 'h) world \<Rightarrow> bool" where
  "related_ready t db field info tbl w \<longleftrightarrow>
     tcache t = Some client \<and> rtInfo (rfRelated field) = Inr info \<and> ''isNewRecord'' \<notin> set (FieldNames info) \<and>
     serves_rows db info (rtZero (rfRelated field)) tbl (wdb w) \<and>
     restores info (rtZero (rfRelated field)) (tbl (wdb w)) \<and>
     coherent info (rtZero (rfRelated field)) (tbl (wdb w)) (wcache w)"

lemma fetch_related:
  assumes R: "related_ready t db field info tbl w"
  obtains models c d where "fetchModelsByIDsInternal (tcache t) db info (ptr_type (rfRelated field)) (tttl t) ids (wcache w, wdb w) = (Inr models, c, d)"
    and "tbl d = tbl (wdb w)" and "coherent info (rtZero (rfRelated field)) (tbl (wdb w)) c" and "found_ok info (tbl (wdb w)) models"
    and "\<forall>i \<in> set ids. tbl (wdb w) i \<noteq> None \<longrightarrow> gm_get models i \<noteq> None" and "distinct (map fst models)"
proof -
  obtain r c d where f: "fetchModelsByIDsInternal (tcache t) db info (ptr_type (rfRelated field)) (tttl t) ids (wcache w, wdb w) = (r, c, d)"
    using prod_cases3 by blast
  with R have "fetchModelsByIDsInternal (Some client) db info (ptr_type (rfRelated field)) (tttl t) ids (wcache w, wdb w) = (r, c, d)"
    by (simp add: related_ready_def)
  from fetch_ok[OF _ _ _ _ _ this, where tbl = tbl] R obtain models where r: "r = Inr models" and ok: "coherent info (rtZero (rfRelated field)) (tbl (wdb w)) c"
      "tbl d = tbl (wdb w)" "found_ok info (tbl (wdb w)) models" "\<forall>i \<in> set ids. tbl (wdb w) i \<noteq> None \<longrightarrow> gm_get models i \<noteq> None"
    by (auto simp: related_ready_def ptr_type_def)
  from f r have fetched: "fetchModelsByIDsInternal (tcache t) db info (ptr_type (rfRelated field)) (tttl t) ids (wcache w, wdb w) = (Inr models, c, d)" by simp
  from that[OF fetched ok(2,1,3,4) fetch_distinct[OF fetched]] show thesis .
qed

lemma belongs_to_ok:
  assumes R: "related_ready t db field info tbl w" and "rfShape field = PtrToStruct"
    and fk: "gm_get (ColumnToFieldMap (tinfo t)) (ForeignKey opts) = Some f"
  obtains owners' w' where "preloadBelongsTo t db owners field opts w = (Inr (), owners', w')"
    and "list_all2 (belongs_loaded info (tbl (wdb w)) field f) owners owners'"
    and "related_ready t db field info tbl w'" and "tbl (wdb w') = tbl (wdb w)"
proof -
  let ?T = "tbl (wdb w)" and ?keys = "collect_fks f owners []"
  have zero: "?T 0 = None" using R serves_id[of db info _ tbl "wdb w" 0] by (cases "?T 0") (auto simp: related_ready_def)
  obtain models c d where f: "fetchModelsByIDsInternal (tcache t) db info (ptr_type (rfRelated field)) (tttl t) ?keys (wcache w, wdb w) = (Inr models, c, d)"
    and d: "tbl d = ?T" and c: "coherent info (rtZero (rfRelated field)) ?T c" and found: "found_ok info ?T models"
    "\<forall>i \<in> set ?keys. ?T i \<noteq> None \<longrightarrow> gm_get models i \<noteq> None"
    using fetch_related[OF R] .
  have one: "belongs_loaded info ?T field f ow (set_belongs_to field f models ow)" if "ow \<in> set owners" for ow
  proof (cases "fk_int f ow")
    case (Some i)
    show ?thesis
    proof (cases "?T i")
      case None
      then have "gm_get models i = None" using found(1) unfolding found_ok_def by (metis option.collapse option.distinct(1))
      then show ?thesis using Some None by (simp add: belongs_loaded_def set_belongs_to_def)
    next
      case (Some row)
      then have "i \<in> set ?keys" using that \<open>fk_int f ow = Some i\<close> zero by (auto simp: collect_fks_set)
      then obtain m where m: "gm_get models i = Some m" using found(2) Some by auto
      then have "same_fields info m row" using found(1) Some unfolding found_ok_def by (metis option.inject)
      then show ?thesis using Some m \<open>fk_int f ow = Some i\<close> by (auto simp: belongs_loaded_def set_belongs_to_def)
    qed
  qed (simp add: belongs_loaded_def set_belongs_to_def)
  have same: "belongs_loaded info ?T field f ow ow" if "?keys = []" "ow \<in> set owners" for ow
  proof -
    have "fk_int f ow = None \<or> fk_int f ow = Some 0" using that collect_fks_set[of f owners "[]"] by (cases "fk_int f ow") auto
    then show ?thesis using zero by (auto simp: belongs_loaded_def)
  qed
  have info: "rtInfo (rfRelated field) = Inr info" using R by (simp add: related_ready_def)
  show thesis
  proof (cases "?keys = []")
    case True
    with assms same show thesis by (intro that[of owners w]) (auto simp: preloadBelongsTo_def list_all2_conv_all_nth)
  next
    case False
    have "related_ready t db field info tbl (w\<lparr>wcache := c, wdb := d\<rparr>)"
      using R c d by (simp add: related_ready_def serves_rows_def)
    with assms(2) fk False info f d one show thesis
      by (intro that[of "map (set_belongs_to field f models) owners" "w\<lparr>wcache := c, wdb := d\<rparr>"])
        (simp_all add: preloadBelongsTo_def list_all2_conv_all_nth)
  qed
qed

lemma coherent_get: "coherent info zero T c \<Longrightarrow> coherent info zero T (snd (cGet client c k))"
  unfolding coherent_def by (meson read_get marked_get)

lemma coherent_get_ids: "coherent info zero T c \<Longrightarrow> coherent info zero T (snd (cGetQueryIDs client c k))"
  unfolding coherent_def by (meson read_get_ids marked_get_ids)

lemma coherent_set_ids: "coherent info zero T c \<Longrightarrow> coherent info zero T (snd (cSetQueryIDs client c k ids d))"
  unfolding coherent_def by (meson read_set_ids marked_set_ids)

lemma coherent_set_other:
  assumes "coherent info zero T c" and "\<And>i. k \<noteq> generateCacheKey (TableName info) i"
  shows "coherent info zero T (snd (cSet client c k v d))"
  using assms unfolding coherent_def by (metis set_read set_marked)

lemma ready_world:
  "related_ready t db field info tbl w \<Longrightarrow> coherent info (rtZero (rfRelated field)) (tbl (wdb w)) (wcache w') \<Longrightarrow>
   tbl (wdb w') = tbl (wdb w) \<Longrightarrow> related_ready t db field info tbl w'"
  by (simp add: related_ready_def serves_rows_def)

lemma cached_ids_current:
  assumes R: "related_ready t db field info tbl w" and "serves_fk db info col f keys tbl (wdb w)"
    and "CHR '':'' \<notin> set (TableName info)"
    and "\<forall>ids. view (wcache w) (listCacheKey_of (tfmt t) (TableName info) (in_params col keys)) = Some (CIDs ids) \<longrightarrow>
      set ids = (\<Union>k \<in> set keys. rows_with (tbl (wdb w)) f k)"
  obtains ids w' where "related_ids t db info (in_params col keys) w = (Inr ids, w')"
    and "set ids = (\<Union>k \<in> set keys. rows_with (tbl (wdb w)) f k)" and "related_ready t db field info tbl w'"
    and "tbl (wdb w') = tbl (wdb w)" and "windex w' = windex w"
proof -
  let ?p = "in_params col keys" and ?T = "tbl (wdb w)" and ?zero = "rtZero (rfRelated field)"
  let ?key = "listCacheKey_of (tfmt t) (TableName info) ?p"
  have cl: "tcache t = Some client" using R by (simp add: related_ready_def)
  obtain r c1 where g: "cGetQueryIDs client (wcache w) ?key = (r, c1)" by (cases "cGetQueryIDs client (wcache w) ?key")
  have coh: "coherent info ?zero ?T c1"
    using coherent_get_ids[of info ?zero ?T "wcache w" ?key] R g by (simp add: related_ready_def)
  have key: "?key \<noteq> generateCacheKey (TableName info) i" for i
  proof -
    have "colons (TableName info) = 0" using assms(3) by (auto simp: colons_def filter_empty_conv)
    then have "colons (generateCacheKey (TableName info) i) = 1" by (simp add: generateCacheKey_def)
    moreover have "2 \<le> colons ?key" by (simp add: listCacheKey_of_def)
    ultimately show ?thesis by auto
  qed
  show thesis
  proof (cases r)
    case (Inr ids)
    then have "set ids = (\<Union>k \<in> set keys. rows_with ?T f k)" using get_ids_view[of "wcache w" ?key ids] g assms(4) by simp
    moreover have "related_ids t db info ?p w = (Inr ids, w\<lparr>wcache := c1\<rparr>)" using Inr g cl by (simp add: related_ids_def)
    ultimately show thesis using coh by (intro that[of ids "w\<lparr>wcache := c1\<rparr>"] ready_world[OF R]) simp_all
  next
    case (Inl e)
    obtain ids d where s: "dbSelectIDs db (wdb w) (id_query db info ?p) keys = (Inr ids, d)" "tbl d = ?T"
        "set ids = (\<Union>k \<in> set keys. rows_with ?T f k)"
      using assms(2)[unfolded serves_fk_def, THEN spec, THEN mp, OF refl] by (elim exE conjE)
    let ?c = "cache_related_ids t ?key ids c1"
    have "coherent info ?zero ?T ?c"
      using coherent_set_ids[OF coh] coherent_set_other[OF coh key] by (simp add: cache_related_ids_def cl)
    moreover have "Args ?p = keys" by (simp add: in_params_def)
    then have "related_ids t db info ?p w = (Inr ids, w\<lparr>wcache := ?c, wdb := d\<rparr>)" using Inl g cl s(1) by (simp add: related_ids_def)
    ultimately show thesis using s(2,3) by (intro that[of ids "w\<lparr>wcache := ?c, wdb := d\<rparr>"] ready_world[OF R]) simp_all
  qed
qed

lemma group_loaded:
  assumes found: "found_ok info T models" and "distinct (map fst models)" and "fkField \<in> set (FieldNames info)"
    and "\<forall>i \<in> rows_with T fkField lk. gm_get models i \<noteq> None"
  shows "rows_loaded info T (rows_with T fkField lk) (map snd (filter (\<lambda>(_, m). FieldByName m fkField = Some lk) models))"
proof -
  let ?ps = "filter (\<lambda>(_, m). FieldByName m fkField = Some lk) models"
  have mem: "(i, m) \<in> set models \<longleftrightarrow> gm_get models i = Some m" for i m using assms(2) by simp
  have fk: "FieldByName m fkField = FieldByName row fkField" if "same_fields info m row" for m row
    using that assms(3) by (simp add: same_fields_def)
  have row: "\<exists>row. T i = Some row \<and> same_fields info m row" if "(i, m) \<in> set models" for i m
    using that found mem by (simp add: found_ok_def)
  have "i \<in> set (map fst ?ps) \<longleftrightarrow> i \<in> rows_with T fkField lk" for i
  proof
    assume "i \<in> set (map fst ?ps)"
    then obtain m where "(i, m) \<in> set models" "FieldByName m fkField = Some lk" by auto
    with row[of i m] fk show "i \<in> rows_with T fkField lk" by (auto simp: rows_with_def)
  next
    assume i: "i \<in> rows_with T fkField lk"
    then obtain m where m: "gm_get models i = Some m" using assms(4) by auto
    with mem row[of i m] i fk have "FieldByName m fkField = Some lk" by (auto simp: rows_with_def)
    with m mem show "i \<in> set (map fst ?ps)" by force
  qed
  moreover have "distinct (map fst ?ps)" using assms(2) by (rule distinct_map_filter)
  ultimately show ?thesis unfolding rows_loaded_def using row by (intro exI[of _ ?ps]) auto
qed

lemma has_many_ok:
  assumes R: "related_ready t db field info tbl w" and shape: "rfShape field = SliceOfPtr \<or> rfShape field = SliceOfStruct"
    and lk: "gm_get (ColumnToFieldMap (tinfo t)) (LocalKey opts) = Some localField"
    and fk: "gm_get (ColumnToFieldMap info) (ForeignKey opts) = Some fkField" "fkField \<in> set (FieldNames info)"
    and colon: "CHR '':'' \<notin> set (TableName info)"
    and serves: "serves_fk db info (ForeignKey opts) fkField (collect_keys localField owners []) tbl (wdb w)"
    and cached: "\<forall>ids. view (wcache w) (listCacheKey_of (tfmt t) (TableName info) (in_params (ForeignKey opts) (collect_keys localField owners []))) = Some (CIDs ids) \<longrightarrow>
      set ids = (\<Union>k \<in> set (collect_keys localField owners []). rows_with (tbl (wdb w)) fkField k)"
  obtains owners' w' where "preloadHasMany t db owners field opts w = (Inr (), owners', w')"
    and "list_all2 (many_loaded info (tbl (wdb w)) field localField fkField) owners owners'"
    and "related_ready t db field info tbl w'" and "tbl (wdb w') = tbl (wdb w)"
proof -
  let ?T = "tbl (wdb w)" and ?keys = "collect_keys localField owners []"
  have key: "v \<in> set ?keys" if "ow \<in> set owners" "FieldByName (omodel ow) localField = Some v" for ow v
    using that by (auto simp: collect_keys_set)
  have info: "rtInfo (rfRelated field) = Inr info" using R by (simp add: related_ready_def)
  show thesis
  proof (cases "?keys = []")
    case True
    then have "FieldByName (omodel ow) localField = None" if "ow \<in> set owners" for ow
      using key[OF that] by (cases "FieldByName (omodel ow) localField") auto
    then have "list_all2 (many_loaded info ?T field localField fkField) owners (map (set_related field (Many [])) owners)"
      by (simp add: list_all2_conv_all_nth many_loaded_def)
    with True shape lk R show thesis
      by (intro that[of "map (set_related field (Many [])) owners" w]) (auto simp: preloadHasMany_def)
  next
    case False
    obtain ids w1 where ids: "related_ids t db info (in_params (ForeignKey opts) ?keys) w = (Inr ids, w1)"
      and set_ids: "set ids = (\<Union>k \<in> set ?keys. rows_with ?T fkField k)" and R1: "related_ready t db field info tbl w1"
      and T1: "tbl (wdb w1) = ?T"
      using cached_ids_current[OF R serves colon cached] .
    obtain models c d where f: "fetchModelsByIDsInternal (tcache t) db info (ptr_type (rfRelated field)) (tttl t) ids (wcache w1, wdb w1) = (Inr models, c, d)"
      and d: "tbl d = tbl (wdb w1)" and c: "coherent info (rtZero (rfRelated field)) (tbl (wdb w1)) c" and found: "found_ok info (tbl (wdb w1)) models"
      "\<forall>i \<in> set ids. tbl (wdb w1) i \<noteq> None \<longrightarrow> gm_get models i \<noteq> None" "distinct (map fst models)"
      using fetch_related[OF R1] .
    have empty: "models = []" if "ids = []" using f that by (simp add: fetchModelsByIDsInternal_def)
    have same: "c = wcache w1 \<and> d = wdb w1" if "ids = []" using f that by (simp add: fetchModelsByIDsInternal_def)
    let ?grouped = "group_by_fk fkField models []"
    let ?owners = "map (set_has_many field localField ?grouped) owners"
    let ?w = "w1\<lparr>wcache := c, wdb := d, windex := foldl (\<lambda>idx lk. register_value t (TableName info) (ForeignKey opts) lk idx) (windex w1) ?keys\<rparr>"
    have load: "load_many t db owners field localField fkField (ForeignKey opts) info ?keys ids w1 = (?owners, ?w)"
      using f empty same by (auto simp: load_many_def Let_def)
    have "many_loaded info ?T field localField fkField ow (set_has_many field localField ?grouped ow)" if ow: "ow \<in> set owners" for ow
    proof (cases "FieldByName (omodel ow) localField")
      case (Some v)
      have "\<forall>i \<in> rows_with ?T fkField v. gm_get models i \<noteq> None"
        using found(2) set_ids key[OF ow Some] T1 by (fastforce simp: rows_with_def)
      from group_loaded[OF found(1)[unfolded T1] found(3) fk(2) this] show ?thesis
        using Some group_get[of fkField models "[]" v] by (auto simp: many_loaded_def set_has_many_def)
    qed (simp add: many_loaded_def set_has_many_def)
    then have "list_all2 (many_loaded info ?T field localField fkField) owners ?owners"
      by (simp add: list_all2_conv_all_nth)
    moreover have "preloadHasMany t db owners field opts w = (Inr (), ?owners, ?w)"
      using shape lk False info fk(1) ids load by (auto simp: preloadHasMany_def Let_def)
    moreover have "related_ready t db field info tbl ?w" using c d by (intro ready_world[OF R1]) simp_all
    ultimately show thesis using d T1 by (intro that[of ?owners ?w]) simp_all
  qed
qed

lemma link_key_not_model_key:
  assumes "CHR '':'' \<notin> set (TableName info)"
  shows "link_key fmt_v opts v \<noteq> generateCacheKey (TableName info) i"
proof -
  have "colons (TableName info) = 0" using assms by (auto simp: colons_def filter_empty_conv)
  then have "colons (generateCacheKey (TableName info) i) = 1" by (simp add: generateCacheKey_def)
  moreover have "2 \<le> colons (link_key fmt_v opts v)" by (simp add: link_key_def)
  ultimately show ?thesis by auto
qed

lemma cold_links:
  assumes "tcache t = Some client" and "view c key = None"
  shows "fst (cached_links t key c) = None" and "snd (cached_links t key c) = snd (cGet client c key)"
proof -
  obtain r c' where g: "cGet client c key = (r, c')" by (cases "cGet client c key")
  then obtain e where "r = Inl e" using get_view[of c key] assms(2) by (cases r) auto
  then show "fst (cached_links t key c) = None" and "snd (cached_links t key c) = snd (cGet client c key)"
    using g assms(1) by (simp_all add: cached_links_def)
qed

lemma load_links_ok:
  assumes R: "related_ready t db field info tbl w" and links: "serves_links query opts L tbl (wdb w)"
    and colon: "CHR '':'' \<notin> set (TableName info)"
    and cold: "\<forall>k \<in> set ks. view (wcache w) (link_key (tfmt t) opts k) = None" "distinct (map (link_key (tfmt t) opts) ks)"
  shows "\<exists>m' ids' w'. load_links t query opts ks m ids w = (Inr (m', ids'), w') \<and>
     (\<forall>k. gm_get m' k = (if k \<in> set ks then Some (L k) else gm_get m k)) \<and> set ids' = set ids \<union> (\<Union>k \<in> set ks. set (L k)) \<and>
     related_ready t db field info tbl w' \<and> tbl (wdb w') = tbl (wdb w)"
  using assms
proof (induction ks arbitrary: m ids w)
  case (Cons k ks)
  let ?key = "link_key (tfmt t) opts k" and ?zero = "rtZero (rfRelated field)" and ?T = "tbl (wdb w)"
  have cl: "tcache t = Some client" and coh: "coherent info ?zero ?T (wcache w)" using Cons.prems(1) by (simp_all add: related_ready_def)
  obtain d where q: "query (wdb w) (join_sql opts) [k] = (Inr (map Inr (L k), Inr ()), d)" and d: "tbl d = ?T"
    using Cons.prems(2)[unfolded serves_links_def, THEN spec, THEN spec[of _ k], THEN mp, OF refl] by (elim exE conjE)
  let ?c1 = "snd (cGet client (wcache w) ?key)"
  let ?c2 = "snd (cSet client ?c1 ?key (marshal_ids (L k)) 0)"
  let ?w = "w\<lparr>wcache := ?c2, wdb := d, windex := register_value t (JoinTable opts) (JoinLocalKey opts) k (windex w)\<rparr>"
  let ?ids = "foldl (\<lambda>xs i. if i \<in> set xs then xs else xs @ [i]) ids (L k)"
  have "cached_links t ?key (wcache w) = (None, ?c1)"
    using cold_links[OF cl, of "wcache w" ?key] Cons.prems(4) by (cases "cached_links t ?key (wcache w)") simp
  then have step: "load_links t query opts (k # ks) m ids w = load_links t query opts ks (gm_set k (L k) m) ?ids ?w"
    using q cl by (simp add: scan_ids_all Let_def)
  have "coherent info ?zero ?T ?c2"
    using coherent_set_other[OF coherent_get[OF coh]] link_key_not_model_key[OF Cons.prems(3)] by blast
  then have R': "related_ready t db field info tbl ?w" using d by (intro ready_world[OF Cons.prems(1)]) simp_all
  have "view ?c2 (link_key (tfmt t) opts j) = None" if j: "j \<in> set ks" for j
  proof (rule ccontr)
    assume "view ?c2 (link_key (tfmt t) opts j) \<noteq> None"
    then obtain x where "view ?c2 (link_key (tfmt t) opts j) = Some x" by auto
    moreover have "link_key (tfmt t) opts j \<noteq> ?key" using Cons.prems(5) j by (metis distinct.simps(2) image_eqI list.set_map list.simps(9))
    ultimately have "view (wcache w) (link_key (tfmt t) opts j) = Some x" using view_set view_get by blast
    then show False using Cons.prems(4) j by simp
  qed
  moreover have "serves_links query opts L tbl (wdb ?w)" using Cons.prems(2) d by (simp add: serves_links_def)
  moreover have "distinct (map (link_key (tfmt t) opts) ks)" using Cons.prems(5) by simp
  ultimately obtain m' ids' w' where "load_links t query opts ks (gm_set k (L k) m) ?ids ?w = (Inr (m', ids'), w')"
      "\<forall>j. gm_get m' j = (if j \<in> set ks then Some (L j) else gm_get (gm_set k (L k) m) j)"
      "set ids' = set ?ids \<union> (\<Union>k \<in> set ks. set (L k))" "related_ready t db field info tbl w'" "tbl (wdb w') = tbl (wdb ?w)"
    using Cons.IH[of ?w "gm_set k (L k) m" ?ids, OF R' _ Cons.prems(3)] by auto
  then show ?case using step d by (auto simp: add_new_ids)
qed simp

lemma many_to_many_ok:
  assumes R: "related_ready t db field info tbl w" and shape: "rfShape field = SliceOfPtr \<or> rfShape field = SliceOfStruct"
    and opts: "LocalKey opts \<noteq> []" "JoinTable opts \<noteq> []" "JoinLocalKey opts \<noteq> []" "JoinRelatedKey opts \<noteq> []"
    and lk: "gm_get (ColumnToFieldMap (tinfo t)) (LocalKey opts) = Some localField"
    and links: "serves_links query opts L tbl (wdb w)" and colon: "CHR '':'' \<notin> set (TableName info)"
    and cold: "\<forall>k \<in> set (local_ids localField owners). view (wcache w) (link_key (tfmt t) opts k) = None"
      "distinct (map (link_key (tfmt t) opts) (local_ids localField owners))"
  obtains owners' w' where "preloadManyToMany t db query owners field opts w = (Inr (), owners', w')"
    and "list_all2 (linked_loaded info (tbl (wdb w)) field localField L) owners owners'"
    and "related_ready t db field info tbl w'" and "tbl (wdb w') = tbl (wdb w)"
proof -
  let ?T = "tbl (wdb w)" and ?keys = "local_ids localField owners"
  have key: "v \<in> set ?keys" if "ow \<in> set owners" "FieldByName (omodel ow) localField = Some v" for ow v
    using that by (force simp: local_ids_def List.map_filter_def)
  have info: "rtInfo (rfRelated field) = Inr info" using R by (simp add: related_ready_def)
  show thesis
  proof (cases "?keys = []")
    case True
    then have "FieldByName (omodel ow) localField = None" if "ow \<in> set owners" for ow
      using key[OF that] by (cases "FieldByName (omodel ow) localField") auto
    then have "list_all2 (linked_loaded info ?T field localField L) owners owners"
      by (simp add: list_all2_conv_all_nth linked_loaded_def)
    with True shape lk opts(1) R show thesis by (intro that[of owners w]) (auto simp: preloadManyToMany_def)
  next
    case False
    obtain m ids w1 where ll: "load_links t query opts ?keys [] [] w = (Inr (m, ids), w1)"
      and m: "\<forall>k. gm_get m k = (if k \<in> set ?keys then Some (L k) else None)" and ids: "set ids = (\<Union>k \<in> set ?keys. set (L k))"
      and R1: "related_ready t db field info tbl w1" and T1: "tbl (wdb w1) = ?T"
      using load_links_ok[OF R links colon cold, of "[]" "[]"] by auto
    obtain models c d where f: "fetchModelsByIDsInternal (tcache t) db info (ptr_type (rfRelated field)) (tttl t) ids (wcache w1, wdb w1) = (Inr models, c, d)"
      and d: "tbl d = tbl (wdb w1)" and c: "coherent info (rtZero (rfRelated field)) (tbl (wdb w1)) c" and found: "found_ok info (tbl (wdb w1)) models"
      "\<forall>i \<in> set ids. tbl (wdb w1) i \<noteq> None \<longrightarrow> gm_get models i \<noteq> None"
      using fetch_related[OF R1] .
    let ?owners = "map (set_many_to_many field localField m models) owners" and ?w = "w1\<lparr>wcache := c, wdb := d\<rparr>"
    have "linked_loaded info ?T field localField L ow (set_many_to_many field localField m models ow)" if ow: "ow \<in> set owners" for ow
    proof (cases "FieldByName (omodel ow) localField")
      case (Some v)
      then have v: "v \<in> set ?keys" using key ow by blast
      then have "\<forall>i \<in> set (L v). ?T i \<noteq> None \<longrightarrow> gm_get models i \<noteq> None" using found(2) ids T1 by auto
      with models_of_links[of models ?T info "L v"] found(1) T1
      have "rows_of info ?T (filter (\<lambda>i. ?T i \<noteq> None) (L v)) (List.map_filter (gm_get models) (L v))" by (simp add: found_ok_def)
      then show ?thesis using Some m v by (auto simp: linked_loaded_def set_many_to_many_def)
    qed (simp add: linked_loaded_def set_many_to_many_def)
    then have "list_all2 (linked_loaded info ?T field localField L) owners ?owners" by (simp add: list_all2_conv_all_nth)
    moreover have "preloadManyToMany t db query owners field opts w = (Inr (), ?owners, ?w)"
      using shape lk opts False info ll f by (auto simp: preloadManyToMany_def Let_def)
    moreover have "related_ready t db field info tbl ?w" using c d by (intro ready_world[OF R1]) simp_all
    ultimately show thesis using d T1 by (intro that[of ?owners ?w]) simp_all
  qed
qed

end

section \<open>Loading through the local cache\<close>

text \<open>
  The setting: a \<open>Thing\<close> with the local cache, metadata for the related type, a database that serves the related table,
  rows of plain values, and a cache that is coherent with the table.
\<close>

definition relation_setup ::
  "(localCache, 'd, 'h) thing \<Rightarrow> 'd db_adapter \<Rightarrow> relation_field \<Rightarrow> ModelInfo \<Rightarrow> ('d \<Rightarrow> int \<Rightarrow> gomodel option) \<Rightarrow>
   (localCache, 'd, 'h) world \<Rightarrow> bool" where
  "relation_setup t db field info tbl w \<longleftrightarrow>
     tcache t = Some localClient \<and> rtInfo (rfRelated field) = Inr info \<and>
     serves_rows db info (rtZero (rfRelated field)) tbl (wdb w) \<and>
     plain_rows info (rtZero (rfRelated field)) (tbl (wdb w)) \<and>
     lcm.coherent info (rtZero (rfRelated field)) (tbl (wdb w)) (wcache w)"

lemma relation_setup_ready: "relation_setup t db field info tbl w \<Longrightarrow> lcq.related_ready t db field info tbl w"
  by (simp add: relation_setup_def lcq.related_ready_def local_restores) (simp add: plain_rows_def)

lemma ready_relation_setup:
  "relation_setup t db field info tbl w \<Longrightarrow> lcq.related_ready t db field info tbl w' \<Longrightarrow> tbl (wdb w') = tbl (wdb w) \<Longrightarrow>
   relation_setup t db field info tbl w'"
  by (simp add: relation_setup_def lcq.related_ready_def)

text \<open>
  C11: Loading a \<open>belongsTo\<close> relation succeeds and sets the field of every owner whose foreign key has a row to the
  model of that row, changes no other owner, and keeps the cache coherent.
\<close>

theorem belongs_to_loaded:
  assumes "relation_setup t db field info tbl w" and "rfShape field = PtrToStruct"
    and "gm_get (ColumnToFieldMap (tinfo t)) (ForeignKey opts) = Some f"
  shows "\<exists>owners' w'. preloadBelongsTo t db owners field opts w = (Inr (), owners', w') \<and>
     list_all2 (belongs_loaded info (tbl (wdb w)) field f) owners owners' \<and> relation_setup t db field info tbl w'"
  using lcq.belongs_to_ok[OF relation_setup_ready[OF assms(1)] assms(2,3), of owners] ready_relation_setup[OF assms(1)] by metis


text \<open>
  C12: Loading a \<open>manyToMany\<close> relation whose links are not cached yet succeeds and sets the field of every owner to the
  models of the rows its links name, in the order of the links, and keeps the cache coherent.
\<close>

theorem many_to_many_loaded:
  assumes "relation_setup t db field info tbl w" and "rfShape field = SliceOfPtr \<or> rfShape field = SliceOfStruct"
    and "LocalKey opts \<noteq> []" and "JoinTable opts \<noteq> []" and "JoinLocalKey opts \<noteq> []" and "JoinRelatedKey opts \<noteq> []"
    and "gm_get (ColumnToFieldMap (tinfo t)) (LocalKey opts) = Some localField"
    and "serves_links query opts L tbl (wdb w)" and "CHR '':'' \<notin> set (TableName info)"
    and "\<forall>k \<in> set (local_ids localField owners). lcview (wcache w) (link_key (tfmt t) opts k) = None"
    and "distinct (map (link_key (tfmt t) opts) (local_ids localField owners))"
  shows "\<exists>owners' w'. preloadManyToMany t db query owners field opts w = (Inr (), owners', w') \<and>
     list_all2 (linked_loaded info (tbl (wdb w)) field localField L) owners owners' \<and> relation_setup t db field info tbl w'"
  using lcq.many_to_many_ok[OF relation_setup_ready[OF assms(1)] assms(2-11)] ready_relation_setup[OF assms(1)] by metis

section \<open>A tree of nodes\<close>

definition node_info :: ModelInfo where
  "node_info = \<lparr>TableName = ''nodes'', PkName = ''id'', Columns = [''id'', ''parent_id''], FieldNames = [''ID'', ''ParentID''],
     FieldToColumnMap = [(''ID'', ''id''), (''ParentID'', ''parent_id'')], ColumnToFieldMap = [(''id'', ''ID''), (''parent_id'', ''ParentID'')],
     CompareFields = [\<lparr>GoName = ''ID'', DBColumn = ''id'', IgnoreInDiff = False\<rparr>, \<lparr>GoName = ''ParentID'', DBColumn = ''parent_id'', IgnoreInDiff = False\<rparr>],
     HasCustomKeepItem = False\<rparr>"

definition node :: "int \<Rightarrow> int \<Rightarrow> gomodel" where
  "node i p = [(''ID'', VInt S64 i), (''ParentID'', VInt S64 p)]"

definition nodes_db :: "gomodel list db_adapter" where
  "nodes_db = (list_db node_info)\<lparr>dbSelectIDs := (\<lambda>d q args.
     if q = id_query (list_db node_info) node_info (in_params ''parent_id'' args)
     then (Inr (filter (\<lambda>i. case list_table d i of Some row \<Rightarrow> list_ex (\<lambda>v. FieldByName row ''ParentID'' = Some v) args | None \<Rightarrow> False) (map GetID d)), d)
     else (Inl (Errorf ''syntax''), d))\<rparr>"

definition nodes_thing :: "(localCache, gomodel list, unit) thing" where
  "nodes_thing =
     \<lparr>tcache = Some localClient, tdb = Some nodes_db, tclass = base_class node_info,
      ttype = \<lparr>isPtr = True, zeroModel = node 0 0\<rparr>, tttl = 60, tcanceled = (\<lambda>_. False),
      tfmt = (\<lambda>v. case v of VInt _ i \<Rightarrow> format_int i | _ \<Rightarrow> []), tlisteners = [], tnow = (\<lambda>_. VTime 0 0)\<rparr>"

definition nodes_world :: "(localCache, gomodel list, unit) world" where
  "nodes_world = \<lparr>wcache = emptyLocalCache, wdb = [node 1 0, node 2 1, node 3 1], windex = NewCacheIndex, whook = (), wtick = 0\<rparr>"

definition node_field :: "string \<Rightarrow> string \<Rightarrow> field_shape \<Rightarrow> relation_field" where
  "node_field name tag shape =
     \<lparr>rfName = name, rfTag = tag, rfShape = shape, rfExported = True, rfRelated = \<lparr>rtInfo = Inr node_info, rtZero = node 0 0\<rparr>\<rparr>"

definition node_links :: "gomodel list join_query" where
  "node_links d q vs = (Inr (map Inr (case vs of [VInt _ i] \<Rightarrow> [i + 2, i + 7, i] | _ \<Rightarrow> []), Inr ()), d)"

abbreviation owner_of :: "gomodel \<Rightarrow> owner" where
  "owner_of m \<equiv> \<lparr>omodel = m, orelated = []\<rparr>"

lemma nodes_table: "list_table (wdb nodes_world) i = (if i = 1 then Some (node 1 0) else if i = 2 then Some (node 2 1) else if i = 3 then Some (node 3 1) else None)"
  by (simp add: nodes_world_def list_table_def node_def GetID_def)

lemma nodes_setup: "relation_setup nodes_thing nodes_db (node_field name tag shape) node_info list_table nodes_world"
proof -
  have "serves_rows nodes_db node_info (node 0 0) list_table (wdb nodes_world)"
    using list_db_serves[of "wdb nodes_world" node_info "node 0 0"] nodes_table[of 0] by (simp add: serves_rows_def nodes_db_def)
  moreover have "plain_rows node_info (node 0 0) (list_table (wdb nodes_world))"
    by (auto simp: plain_rows_def nodes_table node_info_def node_def gob_plain_def split: if_splits)
  moreover have "lcm.coherent node_info (node 0 0) (list_table (wdb nodes_world)) (wcache nodes_world)"
    using empty_coherent by (simp add: nodes_world_def)
  ultimately show ?thesis by (simp add: relation_setup_def nodes_thing_def node_field_def)
qed

theorem belongs_to_loaded_witness:
  "\<exists>o1 o2 w' m. preloadBelongsTo nodes_thing nodes_db [owner_of (node 3 1), owner_of (node 1 0)] (node_field ''Parent'' [] PtrToStruct)
       (no_options\<lparr>ForeignKey := ''parent_id''\<rparr>) nodes_world = (Inr (), [o1, o2], w') \<and>
     gm_get (orelated o1) ''Parent'' = Some (One m) \<and> FieldByName m ''ID'' = Some (VInt S64 1) \<and> o2 = owner_of (node 1 0)"
proof -
  let ?field = "node_field ''Parent'' [] PtrToStruct" and ?opts = "no_options\<lparr>ForeignKey := ''parent_id''\<rparr>"
  have fk: "gm_get (ColumnToFieldMap (tinfo nodes_thing)) (ForeignKey ?opts) = Some ''ParentID''"
    by (simp add: nodes_thing_def base_class_def node_info_def)
  have shape: "rfShape ?field = PtrToStruct" by (simp add: node_field_def)
  from belongs_to_loaded[OF nodes_setup shape fk, of "[owner_of (node 3 1), owner_of (node 1 0)]"]
  obtain o1 o2 w' where run: "preloadBelongsTo nodes_thing nodes_db [owner_of (node 3 1), owner_of (node 1 0)] ?field ?opts nodes_world = (Inr (), [o1, o2], w')"
    and 1: "belongs_loaded node_info (list_table (wdb nodes_world)) ?field ''ParentID'' (owner_of (node 3 1)) o1"
    and 2: "belongs_loaded node_info (list_table (wdb nodes_world)) ?field ''ParentID'' (owner_of (node 1 0)) o2"
    by (auto simp: list_all2_Cons1)
  have "fk_int ''ParentID'' (owner_of (node 3 1)) = Some 1" "fk_int ''ParentID'' (owner_of (node 1 0)) = Some 0" by code_simp+
  with 1 2 run show ?thesis
    by (auto simp: belongs_loaded_def nodes_table set_related_def node_field_def same_fields_def node_info_def node_def)
qed

lemma nodes_fk: "serves_fk nodes_db node_info ''parent_id'' ''ParentID'' keys list_table d0"
proof -
  have "id_query nodes_db node_info p = id_query (list_db node_info) node_info p" for p
    by (simp add: id_query_def nodes_db_def)
  moreover have "\<exists>r \<in> set d. i = GetID r" if "list_table d = list_table d0" "list_table d0 i = Some row" for d i row
    using list_table_Some[of d i row] that by auto
  ultimately show ?thesis
    by (auto simp: serves_fk_def nodes_db_def rows_with_def list_ex_iff image_iff split: option.splits)
qed


theorem many_to_many_loaded_witness:
  "\<exists>o1 w' ms. preloadManyToMany nodes_thing nodes_db node_links [owner_of (node 1 0)] (node_field ''Links'' [] SliceOfStruct)
       (no_options\<lparr>LocalKey := ''id'', JoinTable := ''links'', JoinLocalKey := ''source'', JoinRelatedKey := ''target''\<rparr>) nodes_world = (Inr (), [o1], w') \<and>
     gm_get (orelated o1) ''Links'' = Some (Many ms) \<and> rows_of node_info (list_table (wdb nodes_world)) [3, 1] ms"
proof -
  let ?field = "node_field ''Links'' [] SliceOfStruct"
  let ?opts = "no_options\<lparr>LocalKey := ''id'', JoinTable := ''links'', JoinLocalKey := ''source'', JoinRelatedKey := ''target''\<rparr>"
  let ?T = "list_table (wdb nodes_world)" and ?L = "\<lambda>v. case v of VInt _ i \<Rightarrow> [i + 2, i + 7, i] | _ \<Rightarrow> []"
  have keys: "local_ids ''ID'' [owner_of (node 1 0)] = [VInt S64 1]" by code_simp
  have 2: "rfShape ?field = SliceOfPtr \<or> rfShape ?field = SliceOfStruct" by (simp add: node_field_def)
  have 3: "LocalKey ?opts \<noteq> []" "JoinTable ?opts \<noteq> []" "JoinLocalKey ?opts \<noteq> []" "JoinRelatedKey ?opts \<noteq> []" by simp_all
  have 4: "gm_get (ColumnToFieldMap (tinfo nodes_thing)) (LocalKey ?opts) = Some ''ID''"
    by (simp add: nodes_thing_def base_class_def node_info_def)
  have 5: "serves_links node_links ?opts ?L list_table (wdb nodes_world)"
    by (auto simp: serves_links_def node_links_def split: goval.splits)
  have 6: "CHR '':'' \<notin> set (TableName node_info)" by (simp add: node_info_def)
  have 7: "\<forall>k \<in> set (local_ids ''ID'' [owner_of (node 1 0)]). lcview (wcache nodes_world) (link_key (tfmt nodes_thing) ?opts k) = None"
    by (simp add: nodes_world_def lcview_empty)
  have 8: "distinct (map (link_key (tfmt nodes_thing) ?opts) (local_ids ''ID'' [owner_of (node 1 0)]))" unfolding keys by simp
  from many_to_many_loaded[OF nodes_setup 2 3 4 5 6 7 8]
  obtain o1 w' where "preloadManyToMany nodes_thing nodes_db node_links [owner_of (node 1 0)] ?field ?opts nodes_world = (Inr (), [o1], w')"
    and "linked_loaded node_info ?T ?field ''ID'' ?L (owner_of (node 1 0)) o1"
    by (auto simp: list_all2_Cons1)
  then show ?thesis by (auto simp: linked_loaded_def node_def nodes_table set_related_def node_field_def)
qed

text \<open>With the links in the cache, the same relation is filled with nothing: only ids read from the database are loaded.\<close>

lemma second_load_empty:
  "case preloadManyToMany nodes_thing nodes_db node_links [owner_of (node 1 0)] (node_field ''Links'' [] SliceOfStruct)
       (no_options\<lparr>LocalKey := ''id'', JoinTable := ''links'', JoinLocalKey := ''source'', JoinRelatedKey := ''target''\<rparr>) nodes_world of
     (_, owners, w) \<Rightarrow>
       (case preloadManyToMany nodes_thing nodes_db node_links owners (node_field ''Links'' [] SliceOfStruct)
          (no_options\<lparr>LocalKey := ''id'', JoinTable := ''links'', JoinLocalKey := ''source'', JoinRelatedKey := ''target''\<rparr>) w of
        (r, owners', _) \<Rightarrow> r = Inr () \<and> map (\<lambda>ow. gm_get (orelated ow) ''Links'') owners' = [Some (Many [])])"
  by code_simp

end
