(* ===== verification/Json_Dsl.thy ===== *)
theory Json_Dsl
  imports Query_Keys
begin

text \<open>
  The field selection of JSON output: the options and their small language in \<^verbatim>\<open>json.go\<close>, with the
  helpers \<open>ToSnakeCase\<close> (\<^verbatim>\<open>internal/utils/utils.go\<close>) and \<open>OrderedMap\<close> (\<^verbatim>\<open>internal/utils/orderedmap.go\<close>).

  The index into the input is the input that remains. The loop of the parser need not end, so it is
  a partial function, with \<open>None\<close> for an input on which it runs forever. Letters are folded as in
  ASCII. An option is a function on the options it is applied to.
\<close>

section \<open>Names\<close>

definition contains_fold :: "string list \<Rightarrow> string \<Rightarrow> bool" where
  "contains_fold xs item = list_ex (\<lambda>s. equal_fold s item) xs"

definition exportedName :: "string \<Rightarrow> string" where
  "exportedName s =
     concat (map (\<lambda>p. case p of [] \<Rightarrow> [] | c # r \<Rightarrow> to_upper_char c # r) (split_on CHR ''_'' s))"

definition is_upper :: "char \<Rightarrow> bool" where
  "is_upper c \<longleftrightarrow> 65 \<le> (of_char c :: nat) \<and> (of_char c :: nat) \<le> 90"

definition is_lower :: "char \<Rightarrow> bool" where
  "is_lower c \<longleftrightarrow> 97 \<le> (of_char c :: nat) \<and> (of_char c :: nat) \<le> 122"

text \<open>
  \<open>matchFirstCap\<close> matches a byte other than a newline, a capital and the small letters after it, one at
  least; \<open>matchAllCap\<close> a small letter or digit and a capital. A match is replaced and the search goes on
  behind it.
\<close>

function matchFirstCap :: "string \<Rightarrow> string" where
  "matchFirstCap (a # b # c # s) =
     (if a \<noteq> CHR 0x0A \<and> is_upper b \<and> is_lower c
      then [a, CHR ''_'', b] @ takeWhile is_lower (c # s) @ matchFirstCap (dropWhile is_lower (c # s))
      else a # matchFirstCap (b # c # s))"
| "matchFirstCap [a, b] = [a, b]"
| "matchFirstCap [a] = [a]"
| "matchFirstCap [] = []"
  by pat_completeness auto
termination
  by (relation "measure length") (auto simp: less_Suc_eq_le le_SucI length_dropWhile_le)

fun matchAllCap :: "string \<Rightarrow> string" where
  "matchAllCap (a # b # s) =
     (if (is_lower a \<or> is_digit a) \<and> is_upper b then [a, CHR ''_'', b] @ matchAllCap s else a # matchAllCap (b # s))"
| "matchAllCap [a] = [a]"
| "matchAllCap [] = []"

definition ToSnakeCase :: "string \<Rightarrow> string" where
  "ToSnakeCase str = to_lower (matchAllCap (matchFirstCap str))"

section \<open>Ordered maps\<close>

record 'v OrderedMap =
  omkeys :: "string list"
  omvalues :: "(string, 'v) gomap"

definition NewOrderedMap :: "'v OrderedMap" where
  "NewOrderedMap = \<lparr>omkeys = [], omvalues = []\<rparr>"

definition omSet :: "string \<Rightarrow> 'v \<Rightarrow> 'v OrderedMap \<Rightarrow> 'v OrderedMap" where
  "omSet key v om =
     om\<lparr>omkeys := (if gm_get (omvalues om) key = None then omkeys om @ [key] else omkeys om),
        omvalues := gm_set key v (omvalues om)\<rparr>"

definition omGet :: "'v OrderedMap \<Rightarrow> string \<Rightarrow> 'v option" where
  "omGet om key = gm_get (omvalues om) key"

definition omKeys :: "'v OrderedMap \<Rightarrow> string list" where
  "omKeys om = omkeys om"

text \<open>\<open>marshal\<close> is \<open>json.Marshal\<close> of a value; the value of a key that is not there is nil.\<close>

definition MarshalJSON :: "('v option \<Rightarrow> string go_result) \<Rightarrow> 'v OrderedMap \<Rightarrow> string go_result" where
  "MarshalJSON marshal om =
     bindE (foldr (\<lambda>k acc. bindE (case marshal (omGet om k) of Inl e \<Rightarrow> Inl (Wrapped ''marshal value for key'' e) | Inr v \<Rightarrow> Inr v)
              (\<lambda>v. bindE acc (\<lambda>r. Inr (json_field k v # r)))) (omkeys om) (Inr []))
       (\<lambda>parts. Inr (''{'' @ str_join parts '','' @ ''}''))"

section \<open>Options\<close>

datatype FieldRule = FieldRule (ruleName: string) (Nested: "JSONOptions option")
and JSONOptions = JSONOptions (OrderedInclude: "FieldRule list") (OrderedExclude: "string list")
  (NestedRules: "(string, JSONOptions) gomap")

definition newJSONOptions :: JSONOptions where
  "newJSONOptions = JSONOptions [] [] []"

definition exclude_name :: "string \<Rightarrow> JSONOptions \<Rightarrow> JSONOptions" where
  "exclude_name name opts =
     (case opts of JSONOptions incl excl nested \<Rightarrow>
        if name \<noteq> [] \<and> \<not> contains_fold excl name then JSONOptions incl (excl @ [name]) nested else opts)"

definition include_rule :: "FieldRule \<Rightarrow> JSONOptions \<Rightarrow> JSONOptions" where
  "include_rule rule opts =
     (case opts of JSONOptions incl excl nested \<Rightarrow>
        if list_ex (\<lambda>r. ruleName r = ruleName rule) incl then opts else JSONOptions (incl @ [rule]) excl nested)"

definition nest_rules :: "string \<Rightarrow> JSONOptions \<Rightarrow> JSONOptions \<Rightarrow> JSONOptions" where
  "nest_rules name nestedOpts opts =
     (case opts of JSONOptions incl excl nested \<Rightarrow>
        if name \<noteq> [] \<and> gm_get nested name = None then JSONOptions incl excl (gm_set name nestedOpts nested) else opts)"

text \<open>A field, with or without a nested block; a leading minus excludes it.\<close>

definition add_field :: "string \<Rightarrow> JSONOptions option \<Rightarrow> JSONOptions \<Rightarrow> JSONOptions" where
  "add_field field nested opts =
     (let name = trim_prefix field ''-'';
          opts' = (case nested of None \<Rightarrow> opts | Some n \<Rightarrow> nest_rules name n opts)
      in if has_prefix field ''-'' then exclude_name name opts' else include_rule (FieldRule field nested) opts')"

section \<open>The parser\<close>

definition dsl_blank :: "char \<Rightarrow> bool" where
  "dsl_blank c \<longleftrightarrow> c = CHR '' '' \<or> c = CHR '',''"

definition name_char :: "char \<Rightarrow> bool" where
  "name_char c \<longleftrightarrow> c \<noteq> CHR '','' \<and> c \<noteq> CHR 0x7B \<and> c \<noteq> CHR 0x7D"

text \<open>The block up to the brace that closes it, and what follows; \<open>depth\<close> braces are open.\<close>

fun close_brace :: "nat \<Rightarrow> string \<Rightarrow> (string \<times> string) option" where
  "close_brace depth [] = None"
| "close_brace depth (c # s) =
     (if c = CHR 0x7D \<and> depth = 1 then Some ([], s)
      else map_option (apfst ((#) c))
        (close_brace (if c = CHR 0x7B then depth + 1 else if c = CHR 0x7D then depth - 1 else depth) s))"

partial_function (option) parse_fields :: "string \<Rightarrow> JSONOptions \<Rightarrow> JSONOptions go_result option" where
  "parse_fields input opts =
     (let s = dropWhile dsl_blank input in
      if s = [] then Some (Inr opts)
      else
        let field = trim_space (takeWhile name_char s); rest = dropWhile name_char s
        in if field = [] then parse_fields rest opts
           else case rest of
             c # r \<Rightarrow>
               if c = CHR 0x7B then
                 case close_brace 1 r of
                   None \<Rightarrow> Some (Inl (Errorf ''unmatched { in DSL''))
                 | Some (block, after) \<Rightarrow>
                     Option.bind (parse_fields block newJSONOptions)
                       (\<lambda>res. case res of
                          Inl e \<Rightarrow> Some (Inl e)
                        | Inr nested \<Rightarrow> parse_fields (dropWhile dsl_blank after) (add_field field (Some nested) opts))
               else parse_fields (dropWhile dsl_blank rest) (add_field field None opts)
           | [] \<Rightarrow> parse_fields [] (add_field field None opts))"

declare parse_fields.simps [code]

definition ParseFieldsDSL :: "string \<Rightarrow> JSONOptions go_result option" where
  "ParseFieldsDSL dsl = parse_fields dsl newJSONOptions"

section \<open>Merging\<close>

text \<open>The rules of \<open>src\<close> whose name is not there yet.\<close>

fun merge_includes :: "FieldRule list \<Rightarrow> FieldRule list \<Rightarrow> FieldRule list" where
  "merge_includes dst [] = dst"
| "merge_includes dst (r # rs) =
     (if ruleName r \<in> set (map ruleName dst) then merge_includes dst rs else merge_includes (dst @ [r]) rs)"

text \<open>One rule per name, whatever the case of its letters; \<open>idSeen\<close> for the id, \<open>seen\<close> for the others.\<close>

fun dedup_rules :: "bool \<Rightarrow> string list \<Rightarrow> FieldRule list \<Rightarrow> FieldRule list" where
  "dedup_rules idSeen seen [] = []"
| "dedup_rules idSeen seen (r # rs) =
     (if equal_fold (ruleName r) ''id'' then
        if \<not> idSeen then r # dedup_rules True (to_lower (ruleName r) # seen) rs else dedup_rules idSeen seen rs
      else if to_lower (ruleName r) \<notin> set seen then r # dedup_rules idSeen (to_lower (ruleName r) # seen) rs
      else dedup_rules idSeen seen rs)"

fun merge_excludes :: "string list \<Rightarrow> string list \<Rightarrow> string list" where
  "merge_excludes dst [] = dst"
| "merge_excludes dst (n # ns) = merge_excludes (if n \<in> set dst then dst else dst @ [n]) ns"

definition mergeJSONOptions :: "JSONOptions \<Rightarrow> JSONOptions \<Rightarrow> JSONOptions" where
  "mergeJSONOptions dst src =
     JSONOptions (dedup_rules False [] (merge_includes (OrderedInclude dst) (OrderedInclude src)))
       (merge_excludes (OrderedExclude dst) (OrderedExclude src)) (NestedRules dst)"

definition withFieldsDSL :: "string \<Rightarrow> JSONOptions \<Rightarrow> JSONOptions option" where
  "withFieldsDSL dsl opts =
     (case ParseFieldsDSL dsl of None \<Rightarrow> None | Some (Inl _) \<Rightarrow> Some opts | Some (Inr parsed) \<Rightarrow> Some (mergeJSONOptions opts parsed))"

definition WithFields :: "string \<Rightarrow> JSONOptions \<Rightarrow> JSONOptions option" where
  "WithFields dsl = withFieldsDSL dsl"

definition Include :: "string list \<Rightarrow> JSONOptions \<Rightarrow> JSONOptions option" where
  "Include fs opts = (if fs = [] then Some opts else withFieldsDSL (str_join fs '','') opts)"

definition Exclude :: "string list \<Rightarrow> JSONOptions \<Rightarrow> JSONOptions option" where
  "Exclude fs opts =
     (if fs = [] then Some opts
      else withFieldsDSL (str_join (map (\<lambda>f. if has_prefix f ''-'' then f else CHR ''-'' # f) fs) '','') opts)"

section \<open>The language\<close>

text \<open>A selection is a list of items: a name to include or exclude, with or without a block of items.\<close>

datatype dsl_item = Item bool string "dsl_item list option"

definition item_text :: "bool \<Rightarrow> string \<Rightarrow> string" where
  "item_text e n = (if e then CHR ''-'' # n else n)"

fun show_item :: "dsl_item \<Rightarrow> string" where
  "show_item (Item e n None) = item_text e n"
| "show_item (Item e n (Some its)) = item_text e n @ CHR 0x7B # str_join (map show_item its) '','' @ [CHR 0x7D]"

definition show_items :: "dsl_item list \<Rightarrow> string" where
  "show_items its = str_join (map show_item its) '',''"

text \<open>The options a selection stands for.\<close>

fun add_item :: "dsl_item \<Rightarrow> JSONOptions \<Rightarrow> JSONOptions" where
  "add_item (Item e n None) opts = add_field (item_text e n) None opts"
| "add_item (Item e n (Some its)) opts = add_field (item_text e n) (Some (fold add_item its newJSONOptions)) opts"

definition valid_name :: "string \<Rightarrow> bool" where
  "valid_name n \<longleftrightarrow> n \<noteq> [] \<and> list_all name_char n \<and> \<not> is_space (hd n) \<and> \<not> is_space (last n) \<and> hd n \<noteq> CHR ''-''"

fun valid_item :: "dsl_item \<Rightarrow> bool" where
  "valid_item (Item e n None) = valid_name n"
| "valid_item (Item e n (Some its)) = (valid_name n \<and> list_all valid_item its)"

lemma trim_by_ends: "n \<noteq> [] \<Longrightarrow> \<not> P (hd n) \<Longrightarrow> \<not> P (last n) \<Longrightarrow> trim_by P n = n"
proof -
  assume n: "n \<noteq> []" "\<not> P (hd n)" "\<not> P (last n)"
  then have "dropWhile P n = n" by (cases n) auto
  moreover have "dropWhile P (rev n) = rev n" using n by (cases n rule: rev_cases) auto
  ultimately show ?thesis by (simp add: trim_by_def)
qed

lemma item_text_props:
  assumes "valid_name n"
  shows "trim_space (item_text e n) = item_text e n" and "list_all name_char (item_text e n)"
    and "item_text e n \<noteq> []" and "\<not> dsl_blank (hd (item_text e n))"
proof -
  have "is_space CHR ''-'' = False" "name_char CHR ''-''" "dsl_blank CHR ''-'' = False"
    by (simp_all add: is_space_def name_char_def dsl_blank_def)
  moreover have "\<not> dsl_blank (hd n)" using assms by (cases n) (auto simp: valid_name_def dsl_blank_def is_space_def name_char_def)
  ultimately show "trim_space (item_text e n) = item_text e n" "list_all name_char (item_text e n)"
    "item_text e n \<noteq> []" "\<not> dsl_blank (hd (item_text e n))"
    using assms by (auto simp: item_text_def valid_name_def trim_space_def intro!: trim_by_ends)
qed

lemma parse_fields_blank: "parse_fields (dropWhile dsl_blank s) opts = parse_fields s opts"
proof -
  have "dropWhile dsl_blank (dropWhile dsl_blank s) = dropWhile dsl_blank s" by (induction s) auto
  then show ?thesis by (subst (1 2) parse_fields.simps) simp
qed

lemma parse_fields_Nil: "parse_fields [] opts = Some (Inr opts)"
  by (subst parse_fields.simps) simp

lemma parse_fields_comma: "parse_fields (CHR '','' # r) opts = parse_fields r opts"
  using parse_fields_blank[of "CHR '','' # r" opts] parse_fields_blank[of r opts] by (simp add: dsl_blank_def)

lemma field_step:
  assumes "valid_name n" and rest: "case rest of [] \<Rightarrow> True | c # _ \<Rightarrow> \<not> name_char c"
  shows "takeWhile name_char (dropWhile dsl_blank (item_text e n @ rest)) = item_text e n"
    and "dropWhile name_char (dropWhile dsl_blank (item_text e n @ rest)) = rest"
    and "dropWhile dsl_blank (item_text e n @ rest) = item_text e n @ rest"
proof -
  note p = item_text_props[OF assms(1), of e]
  show d: "dropWhile dsl_blank (item_text e n @ rest) = item_text e n @ rest"
    using p(3,4) by (cases "item_text e n") auto
  show "takeWhile name_char (dropWhile dsl_blank (item_text e n @ rest)) = item_text e n"
    "dropWhile name_char (dropWhile dsl_blank (item_text e n @ rest)) = rest"
    unfolding d using p(2) rest by (cases rest; auto simp: takeWhile_append dropWhile_append list_all_iff)+
qed

lemma parse_plain:
  assumes "valid_name n" and "rest = [] \<or> (\<exists>r. rest = CHR '','' # r)"
  shows "parse_fields (item_text e n @ rest) opts = parse_fields rest (add_field (item_text e n) None opts)"
proof -
  have r: "case rest of [] \<Rightarrow> True | c # _ \<Rightarrow> \<not> name_char c" using assms(2) by (auto simp: name_char_def)
  show ?thesis
    using field_step[OF assms(1) r, of e] item_text_props[OF assms(1), of e] assms(2)
    by (subst parse_fields.simps) (auto simp: Let_def parse_fields_blank parse_fields_comma)
qed

text \<open>A printed selection has matching braces.\<close>

definition balanced :: "string \<Rightarrow> bool" where
  "balanced s \<longleftrightarrow> (\<forall>d t. 0 < d \<longrightarrow> close_brace d (s @ t) = (case close_brace d t of None \<Rightarrow> None | Some (b, a) \<Rightarrow> Some (s @ b, a)))"

lemma balanced_append: "balanced s \<Longrightarrow> balanced t \<Longrightarrow> balanced (s @ t)"
  by (auto simp: balanced_def split: option.splits)

lemma balanced_chars: "list_all (\<lambda>c. c \<noteq> CHR 0x7B \<and> c \<noteq> CHR 0x7D) s \<Longrightarrow> balanced s"
  by (induction s) (auto simp: balanced_def split: option.splits)

lemma balanced_block: "balanced s \<Longrightarrow> balanced (CHR 0x7B # s @ [CHR 0x7D])"
  by (auto simp: balanced_def split: option.splits)

lemma balanced_join: "(\<And>x. x \<in> set xs \<Longrightarrow> balanced x) \<Longrightarrow> balanced (str_join xs '','')"
proof (induction xs rule: induct_list012)
  case (3 x y zs)
  have "balanced '',''" by (rule balanced_chars) simp
  from balanced_append[OF _ balanced_append[OF this]] 3 show ?case by simp
qed (auto intro: balanced_chars)

lemma balanced_item: "valid_item it \<Longrightarrow> balanced (show_item it)"
proof (induction it)
  case (Item e n blk)
  have t: "valid_name n" using Item.prems by (cases blk) auto
  then have "balanced (item_text e n)"
    using item_text_props(2)[OF t, of e] by (intro balanced_chars) (auto simp: list_all_iff name_char_def)
  then show ?case using Item
    by (cases blk) (auto intro!: balanced_append balanced_block[simplified] balanced_join simp: list_all_iff)
qed

lemma close_block: "balanced s \<Longrightarrow> close_brace 1 (s @ CHR 0x7D # t) = Some (s, t)"
  by (simp add: balanced_def)

lemma parse_block:
  assumes "valid_name n" and "balanced s" and "parse_fields s newJSONOptions = Some (Inr nested)"
  shows "parse_fields (item_text e n @ CHR 0x7B # s @ CHR 0x7D # rest) opts = parse_fields rest (add_field (item_text e n) (Some nested) opts)"
proof -
  have r: "case CHR 0x7B # s @ CHR 0x7D # rest of [] \<Rightarrow> True | c # _ \<Rightarrow> \<not> name_char c" by (simp add: name_char_def)
  show ?thesis
    using field_step[OF assms(1) r, of e] item_text_props[OF assms(1), of e] close_block[OF assms(2), of rest] assms(3)
    by (subst parse_fields.simps) (auto simp: Let_def parse_fields_blank)
qed

definition ends_item :: "string \<Rightarrow> bool" where
  "ends_item rest \<longleftrightarrow> rest = [] \<or> (\<exists>r. rest = CHR '','' # r)"

lemma parse_list:
  assumes "\<And>it rest opts. it \<in> set its \<Longrightarrow> ends_item rest \<Longrightarrow> parse_fields (show_item it @ rest) opts = parse_fields rest (add_item it opts)"
  shows "parse_fields (show_items its) opts = Some (Inr (fold add_item its opts))"
  using assms
proof (induction its arbitrary: opts rule: induct_list012)
  case (2 x)
  have "parse_fields (show_item x @ []) opts = parse_fields [] (add_item x opts)" by (rule 2) (simp_all add: ends_item_def)
  then show ?case by (simp add: show_items_def parse_fields_Nil)
next
  case (3 x y zs)
  have "parse_fields (show_item x @ CHR '','' # show_items (y # zs)) opts = parse_fields (CHR '','' # show_items (y # zs)) (add_item x opts)"
    by (rule 3(3)) (simp_all add: ends_item_def)
  also have "\<dots> = Some (Inr (fold add_item (y # zs) (add_item x opts)))"
    unfolding parse_fields_comma by (rule 3(2)) (simp add: 3(3))
  finally show ?case by (simp add: show_items_def)
qed (simp add: show_items_def parse_fields_Nil)

lemma parse_item:
  "valid_item it \<Longrightarrow> ends_item rest \<Longrightarrow> parse_fields (show_item it @ rest) opts = parse_fields rest (add_item it opts)"
proof (induction it arbitrary: rest opts)
  case (Item e n blk)
  show ?case
  proof (cases blk)
    case None
    then show ?thesis using Item.prems parse_plain[of n rest e opts] by (simp add: ends_item_def)
  next
    case (Some its)
    have valid: "valid_name n" "\<And>it. it \<in> set its \<Longrightarrow> valid_item it" using Item.prems Some by (auto simp: list_all_iff)
    have "balanced (show_items its)" unfolding show_items_def by (rule balanced_join) (auto simp: valid(2) intro: balanced_item)
    moreover have "parse_fields (show_items its) newJSONOptions = Some (Inr (fold add_item its newJSONOptions))"
      by (rule parse_list) (use Item.IH Some valid(2) in auto)
    ultimately show ?thesis using parse_block[OF valid(1), of "show_items its" _ e rest opts] Some by (simp add: show_items_def)
  qed
qed

lemma parse_selection:
  "list_all valid_item its \<Longrightarrow> ParseFieldsDSL (show_items its) = Some (Inr (fold add_item its newJSONOptions))"
  unfolding ParseFieldsDSL_def by (intro parse_list parse_item) (auto simp: list_all_iff)


definition book_selection :: "dsl_item list" where
  "book_selection = [Item False ''name'' None, Item False ''books'' (Some [Item False ''title'' None, Item True ''id'' None]), Item True ''email'' None]"


section \<open>A brace that closes nothing\<close>

lemma parse_brace_diverges:
  assumes "parse_fields s opts = Some y"
  shows "\<not> (\<exists>r. s = CHR 0x7D # r \<or> s = CHR 0x7B # r)"
proof (rule parse_fields.raw_induct[OF _ assms, of "\<lambda>s opts y. \<not> (\<exists>r. s = CHR 0x7D # r \<or> s = CHR 0x7B # r)"])
  fix f input opts y
  assume IH: "\<And>s opts y. f s opts = Some y \<Longrightarrow> \<not> (\<exists>r. s = CHR 0x7D # r \<or> s = CHR 0x7B # r)"
    and body: "(let s = dropWhile dsl_blank input in
      if s = [] then Some (Inr opts)
      else
        let field = trim_space (takeWhile name_char s); rest = dropWhile name_char s
        in if field = [] then f rest opts
           else case rest of
             [] \<Rightarrow> f [] (add_field field None opts)
           | c # r \<Rightarrow>
               if c = CHR 0x7B then
                 case close_brace 1 r of
                   None \<Rightarrow> Some (Inl (Errorf ''unmatched { in DSL''))
                 | Some (block, after) \<Rightarrow>
                     Option.bind (f block newJSONOptions)
                       (\<lambda>res. case res of
                          Inl e \<Rightarrow> Some (Inl e)
                        | Inr nested \<Rightarrow> f (dropWhile dsl_blank after) (add_field field (Some nested) opts))
               else f (dropWhile dsl_blank rest) (add_field field None opts)) = Some y"
  have trim: "trim_space [] = []" by (simp add: trim_space_def trim_by_def)
  show "\<not> (\<exists>r. input = CHR 0x7D # r \<or> input = CHR 0x7B # r)"
  proof
    assume "\<exists>r. input = CHR 0x7D # r \<or> input = CHR 0x7B # r"
    then obtain c r where i: "input = c # r" and c: "c = CHR 0x7D \<or> c = CHR 0x7B" by blast
    then have "\<not> dsl_blank c" "\<not> name_char c" by (auto simp: dsl_blank_def name_char_def)
    with i body trim have "f input opts = Some y" by simp
    from IH[OF this] i c show False by blast
  qed
qed

text \<open>
  A closing brace without its opening brace is not an error but an endless loop. After a field
  name and a stray brace, the parser neither returns options nor an error: the empty field name at
  the brace is skipped without moving past the brace.
\<close>

theorem stray_brace_loops: "valid_name n \<Longrightarrow> ParseFieldsDSL (item_text e n @ CHR 0x7D # r) = None"
proof -
  assume n: "valid_name n"
  have rest: "case CHR 0x7D # r of [] \<Rightarrow> True | c # _ \<Rightarrow> \<not> name_char c" by (simp add: name_char_def)
  have none: "parse_fields (CHR 0x7D # r) opts = None" for opts
    using parse_brace_diverges by (metis not_Some_eq)
  show ?thesis
    unfolding ParseFieldsDSL_def
    using field_step[OF n rest, of e] item_text_props[OF n, of e] none
    by (subst parse_fields.simps) (auto simp: Let_def dsl_blank_def)
qed

theorem stray_brace_loops_witness: "ParseFieldsDSL (''name'' @ [CHR 0x7D]) = None"
proof -
  have "valid_name ''name''" by code_simp
  from stray_brace_loops[OF this, of False "[]"] show ?thesis by (simp add: item_text_def)
qed

section \<open>Merged options\<close>

abbreviation rule_key :: "FieldRule \<Rightarrow> string" where
  "rule_key r \<equiv> to_lower (ruleName r)"

text \<open>The first rule for each key.\<close>

fun first_rules :: "string list \<Rightarrow> FieldRule list \<Rightarrow> FieldRule list" where
  "first_rules seen [] = []"
| "first_rules seen (r # rs) =
     (if rule_key r \<in> set seen then first_rules seen rs else r # first_rules (rule_key r # seen) rs)"

lemma dedup_rules_first: "idSeen = (''id'' \<in> set seen) \<Longrightarrow> dedup_rules idSeen seen rs = first_rules seen rs"
proof (induction rs arbitrary: idSeen seen)
  case (Cons r rs)
  have "to_lower ''id'' = ''id''" by code_simp
  then have "equal_fold (ruleName r) ''id'' \<longleftrightarrow> rule_key r = ''id''" by (simp add: equal_fold_def)
  with Cons.prems Cons.IH[of idSeen seen] Cons.IH[of True "rule_key r # seen"] Cons.IH[of idSeen "rule_key r # seen"]
  show ?case by auto
qed simp

lemma first_rules_keys: "rule_key ` set (first_rules seen rs) = rule_key ` set rs - set seen"
  by (induction rs arbitrary: seen) auto

lemma first_rules_distinct: "distinct (map rule_key (first_rules seen rs))"
proof (induction rs arbitrary: seen)
  case (Cons r rs)
  have "rule_key r \<notin> rule_key ` set (first_rules (rule_key r # seen) rs)" by (simp only: first_rules_keys) simp
  with Cons show ?case by simp
qed simp

lemma first_rules_same:
  "distinct (map rule_key xs) \<Longrightarrow> rule_key ` set xs \<inter> set seen = {} \<Longrightarrow> rule_key ` set ys \<subseteq> rule_key ` set xs \<union> set seen \<Longrightarrow>
   first_rules seen (xs @ ys) = xs"
proof (induction xs arbitrary: seen)
  case Nil
  then show ?case by (induction ys arbitrary: seen) auto
next
  case (Cons x xs)
  then show ?case using Cons.IH[of "rule_key x # seen"] by auto
qed

lemma merge_includes_append: "\<exists>extra. merge_includes dst rs = dst @ extra \<and> set extra \<subseteq> set rs"
proof (induction rs arbitrary: dst)
  case (Cons r rs)
  from Cons[of dst] Cons[of "dst @ [r]"] show ?case by (auto simp: subset_insertI2)
qed simp

lemma merge_includes_keys: "rule_key ` set (merge_includes dst rs) = rule_key ` set dst \<union> rule_key ` set rs"
proof (induction rs arbitrary: dst)
  case (Cons r rs)
  have "ruleName r \<in> ruleName ` set dst \<Longrightarrow> rule_key r \<in> rule_key ` set dst" by force
  with Cons show ?case by auto
qed simp

lemma merge_excludes_same: "set ns \<subseteq> set dst \<Longrightarrow> merge_excludes dst ns = dst"
  by (induction ns) auto

lemma merge_excludes_set: "set (merge_excludes dst ns) = set dst \<union> set ns"
  by (induction ns arbitrary: dst) auto

text \<open>
  Merging field selections keeps one rule per field and is stable. In merged options no two
  included fields have the same name up to case, the included names are those of both sides, and
  merging the same selection again changes nothing.
\<close>

theorem merge_stable:
  "distinct (map (\<lambda>r. to_lower (ruleName r)) (OrderedInclude (mergeJSONOptions d s))) \<and>
   to_lower ` ruleName ` set (OrderedInclude (mergeJSONOptions d s)) =
     to_lower ` ruleName ` (set (OrderedInclude d) \<union> set (OrderedInclude s)) \<and>
   mergeJSONOptions (mergeJSONOptions d s) s = mergeJSONOptions d s"
proof -
  let ?m = "merge_includes (OrderedInclude d) (OrderedInclude s)"
  let ?x = "first_rules [] ?m"
  have x: "OrderedInclude (mergeJSONOptions d s) = ?x" by (simp add: mergeJSONOptions_def dedup_rules_first)
  have keys: "rule_key ` set ?x = rule_key ` set (OrderedInclude d) \<union> rule_key ` set (OrderedInclude s)"
    by (simp add: first_rules_keys merge_includes_keys)
  obtain extra where e: "merge_includes ?x (OrderedInclude s) = ?x @ extra" "set extra \<subseteq> set (OrderedInclude s)"
    using merge_includes_append by blast
  have "first_rules [] (?x @ extra) = ?x"
    using e(2) keys by (intro first_rules_same first_rules_distinct) auto
  then have "mergeJSONOptions (mergeJSONOptions d s) s = mergeJSONOptions d s"
    using e(1) by (simp add: mergeJSONOptions_def dedup_rules_first merge_excludes_same merge_excludes_set)
  with keys first_rules_distinct[of "[]" ?m] show ?thesis by (simp add: x image_image image_Un)
qed

text \<open>
  A block under an excluded field gets lost: the parser stores it among the nested rules, and merging
  does not take those over.
\<close>

lemma nested_rules_dropped:
  "withFieldsDSL (''-books'' @ CHR 0x7B # ''-id'' @ [CHR 0x7D]) newJSONOptions = Some (JSONOptions [] [''books''] [])"
proof -
  have "ParseFieldsDSL (show_items [Item True ''books'' (Some [Item True ''id'' None])]) =
      Some (Inr (fold add_item [Item True ''books'' (Some [Item True ''id'' None])] newJSONOptions))"
    by (rule parse_selection) code_simp
  moreover have "show_items [Item True ''books'' (Some [Item True ''id'' None])] = ''-books'' @ CHR 0x7B # ''-id'' @ [CHR 0x7D]" by code_simp
  moreover have "mergeJSONOptions newJSONOptions (fold add_item [Item True ''books'' (Some [Item True ''id'' None])] newJSONOptions) =
      JSONOptions [] [''books''] []" by code_simp
  ultimately show ?thesis by (simp add: withFieldsDSL_def)
qed

section \<open>Snake case and ordered maps\<close>

lemma to_lower_char_no_upper: "\<not> is_upper (to_lower_char c)"
  by (auto simp: to_lower_char_def is_upper_def Let_def)

lemma no_upper_first: "list_all (\<lambda>c. \<not> is_upper c) s \<Longrightarrow> matchFirstCap s = s"
  by (induction s rule: matchFirstCap.induct) auto

lemma no_upper_all: "list_all (\<lambda>c. \<not> is_upper c) s \<Longrightarrow> matchAllCap s = s"
  by (induction s rule: matchAllCap.induct) auto

lemma to_lower_idem: "list_all (\<lambda>c. \<not> is_upper c) s \<Longrightarrow> to_lower s = s"
  by (induction s) (auto simp: to_lower_def to_lower_char_def is_upper_def Let_def)

lemma ToSnakeCase_idem: "ToSnakeCase (ToSnakeCase s) = ToSnakeCase s"
proof -
  have "list_all (\<lambda>c. \<not> is_upper c) (to_lower t)" for t by (simp add: to_lower_def list_all_iff to_lower_char_no_upper)
  then show ?thesis by (simp add: ToSnakeCase_def no_upper_first no_upper_all to_lower_idem)
qed

text \<open>The keys of an ordered map are its entries, each once.\<close>

definition om_ok :: "'v OrderedMap \<Rightarrow> bool" where
  "om_ok om \<longleftrightarrow> distinct (omkeys om) \<and> (\<forall>k. k \<in> set (omkeys om) \<longleftrightarrow> omGet om k \<noteq> None)"

lemma om_ok_new: "om_ok NewOrderedMap"
  by (simp add: om_ok_def NewOrderedMap_def omGet_def)

lemma om_ok_set: "om_ok om \<Longrightarrow> om_ok (omSet k v om)"
  by (auto simp: om_ok_def omSet_def omGet_def)

lemma omGet_set: "omGet (omSet k v om) j = (if j = k then Some v else omGet om j)"
  by (simp add: omGet_def omSet_def)

end
