(* ===== verification/Schema_Meta.thy ===== *)
theory Schema_Meta
  imports Json_Dsl Model_Info "HOL-Library.Char_ord" "HOL-Library.List_Lexorder"
begin

text \<open>
  Metadata from struct types: \<^verbatim>\<open>internal/schema/metadata.go\<close> and \<^verbatim>\<open>internal/schema/keepitem.go\<close>.

  A struct type is described by what reflection tells of it: its name, its fields with their types and
  tags, and, of its methods, the results of \<open>TableName\<close> and \<open>Indexes\<close> on a zero value and whether
  \<open>KeepItem\<close> and \<open>KeepItemFields\<close> are declared by the type. The index slices are sorted by name;
  indexes of equal name keep their order.
\<close>

section \<open>Struct types\<close>

datatype go_type = Plain (type_string: string) (type_kind: string) | Struct (type_string: string) (struct_name: string) (struct_fields: "go_field list")
and go_field = GoField (fieldName: string) (fieldType: go_type) (dbTag: string) (diffTag: string) (fieldAnonymous: bool) (fieldExported: bool)

definition kind_string :: "go_type \<Rightarrow> string" where
  "kind_string t = (case t of Plain _ k \<Rightarrow> k | Struct _ _ _ \<Rightarrow> ''struct'')"

definition type_name :: "go_type \<Rightarrow> string" where
  "type_name t = (case t of Plain _ _ \<Rightarrow> [] | Struct _ n _ \<Rightarrow> n)"

record IndexInfo =
  ixName :: string
  ixColumns :: "string list"
  ixUnique :: bool
  ixWhere :: string

text \<open>An element of what \<open>Indexes\<close> returns: a nil pointer, no struct, a struct without the four fields, an index.\<close>

datatype index_value = NilIndex | NotStruct | BadFields | IndexValue IndexInfo

text \<open>Methods as the method sets of value and pointer show them: \<open>Some True\<close> for one the type declares.\<close>

record struct_type =
  stName :: string
  stFields :: "go_field list"
  stTableName :: "string option"
  stIndexes :: "index_value list go_result option"
  stKeepItem :: "bool option \<times> bool option"
  stKeepItemFields :: "bool option \<times> bool option"

record column_field =
  cfGoName :: string
  cfColumn :: string
  cfIndex :: "nat list"
  cfKind :: string
  cfType :: string
  cfEmbedded :: bool
  cfIgnore :: bool
  cfDefault :: "string option"

record schema_info =
  siTable :: string
  siPk :: string
  siFields :: "column_field list"
  siIndexes :: "IndexInfo list"
  siUnique :: "IndexInfo list"
  siCustomKeepItem :: bool
  siCustomKeepItemFields :: bool

section \<open>Tags\<close>

definition unquote :: "string \<Rightarrow> string" where
  "unquote s = (if 2 \<le> length s \<and> hd s = CHR 0x27 \<and> last s = CHR 0x27 then butlast (tl s) else s)"

definition parse_db_tag :: "string \<Rightarrow> string list \<times> string option" where
  "parse_db_tag tag =
     (if tag = [] then ([], None)
      else foldl (\<lambda>(parts, dflt) part.
        if has_prefix (to_lower (trim_space part)) ''default:''
        then (parts, Some (unquote (trim_prefix (trim_space part) ''default:'')))
        else (parts @ [part], dflt)) ([], None) (split_on CHR '','' tag))"

section \<open>Index tags\<close>

text \<open>The indexes found so far: plain, unique, and the named ones, which collect their columns.\<close>

record index_state =
  isIndexes :: "IndexInfo list"
  isUnique :: "IndexInfo list"
  isComposite :: "(string, IndexInfo) gomap"

definition named_index :: "bool \<Rightarrow> string \<Rightarrow> string \<Rightarrow> index_state \<Rightarrow> index_state" where
  "named_index unique indexName columnName st =
     (if indexName = [] then st
      else case gm_get (isComposite st) indexName of
        Some existing \<Rightarrow>
          if ixUnique existing \<noteq> unique then st
          else st\<lparr>isComposite := gm_set indexName (existing\<lparr>ixColumns := ixColumns existing @ [columnName]\<rparr>) (isComposite st)\<rparr>
      | None \<Rightarrow>
          st\<lparr>isComposite := gm_set indexName \<lparr>ixName = indexName, ixColumns = [columnName], ixUnique = unique, ixWhere = []\<rparr> (isComposite st)\<rparr>)"

definition parseIndexTagFromDb :: "string \<Rightarrow> string \<Rightarrow> index_state \<Rightarrow> index_state" where
  "parseIndexTagFromDb part0 columnName st =
     (let part = trim_space part0 in
      if part = ''index''
      then st\<lparr>isIndexes := isIndexes st @ [\<lparr>ixName = [], ixColumns = [columnName], ixUnique = False, ixWhere = []\<rparr>]\<rparr>
      else if part = ''unique''
      then st\<lparr>isUnique := isUnique st @ [\<lparr>ixName = [], ixColumns = [columnName], ixUnique = True, ixWhere = []\<rparr>]\<rparr>
      else if has_prefix part ''index:'' then named_index False (trim_prefix part ''index:'') columnName st
      else if has_prefix part ''unique:'' then named_index True (trim_prefix part ''unique:'') columnName st
      else st)"

section \<open>Fields\<close>

record meta_state = index_state +
  msFields :: "column_field list"
  msPk :: string

text \<open>One field that is stored: its column, its metadata, whether it is the key, its indexes.\<close>

definition aggregate_field :: "nat list \<Rightarrow> bool \<Rightarrow> go_field \<Rightarrow> meta_state \<Rightarrow> meta_state" where
  "aggregate_field index embedded f st =
     (let (parts, dflt) = parse_db_tag (dbTag f) in
      if (parts \<noteq> [] \<and> hd parts = ''-'') \<or> \<not> fieldExported f then st
      else
        let named = (if parts = [] then [] else hd parts);
            columnName = (if named = [] then ToSnakeCase (fieldName f) else named);
            isPk = list_ex (\<lambda>part. part = ''pk'' \<or> part = ''primarykey'') (tl parts);
            field = \<lparr>cfGoName = fieldName f, cfColumn = columnName, cfIndex = index, cfKind = kind_string (fieldType f),
              cfType = type_string (fieldType f), cfEmbedded = embedded, cfIgnore = (diffTag f = ''-''), cfDefault = dflt\<rparr>;
            st1 = st\<lparr>msFields := msFields st @ [field], msPk := (if isPk \<and> msPk st = [] then columnName else msPk st)\<rparr>;
            ist = foldl (\<lambda>s part. parseIndexTagFromDb part columnName s)
              \<lparr>isIndexes = isIndexes st1, isUnique = isUnique st1, isComposite = isComposite st1\<rparr> (tl parts)
        in st1\<lparr>isIndexes := isIndexes ist, isUnique := isUnique ist, isComposite := isComposite ist\<rparr>)"

text \<open>The index path of a field is its position, and below \<open>BaseModel\<close> the two positions.\<close>

fun processFields :: "go_field list \<Rightarrow> nat \<Rightarrow> bool \<Rightarrow> meta_state \<Rightarrow> meta_state"
  and processField :: "go_field \<Rightarrow> nat \<Rightarrow> bool \<Rightarrow> meta_state \<Rightarrow> meta_state" where
  "processFields [] i embedded st = st"
| "processFields (f # fs) i embedded st = processFields fs (Suc i) embedded (processField f i embedded st)"
| "processField (GoField n t db diff anon exported) i embedded st =
     (if anon \<and> kind_string t = ''struct'' \<and> type_name t = ''BaseModel'' then
        if n \<noteq> ''BaseModel'' then st
        else case t of
          Plain _ _ \<Rightarrow> st
        | Struct _ _ fs \<Rightarrow> foldl (\<lambda>s (j, f). aggregate_field [i, j] True f s) st (enumerate 0 fs)
      else if anon \<and> kind_string t = ''struct'' then
        case t of Plain _ _ \<Rightarrow> st | Struct _ _ fs \<Rightarrow> processFields fs 0 True st
      else aggregate_field [i] embedded (GoField n t db diff anon exported) st)"

section \<open>Indexes\<close>

definition effectiveIndexName :: "string \<Rightarrow> IndexInfo \<Rightarrow> string" where
  "effectiveIndexName tableName idx =
     (if ixName idx \<noteq> [] \<or> length (ixColumns idx) \<noteq> 1 then ixName idx
      else if ixUnique idx then ''uniq_'' @ tableName @ ''_'' @ hd (ixColumns idx)
      else ''idx_'' @ tableName @ ''_'' @ hd (ixColumns idx))"

definition equalStringSlice :: "string list \<Rightarrow> string list \<Rightarrow> bool" where
  "equalStringSlice a b \<longleftrightarrow> length a = length b \<and> sort a = sort b"

definition validateProgrammaticIndex :: "schema_info \<Rightarrow> IndexInfo \<Rightarrow> unit go_result" where
  "validateProgrammaticIndex info idx =
     (if ixColumns idx = [] then Inl (Errorf ''columns must be non-empty'')
      else if ixName idx = [] \<and> 1 < length (ixColumns idx) then Inl (Errorf ''name is required for composite indexes'')
      else if list_ex (\<lambda>c. c \<notin> set (map cfColumn (siFields info))) (ixColumns idx) then Inl (Errorf ''column does not exist on table'')
      else Inr ())"

definition appendIndex :: "schema_info \<Rightarrow> IndexInfo \<Rightarrow> schema_info go_result" where
  "appendIndex info idx =
     (case find (\<lambda>existing. effectiveIndexName (siTable info) existing = effectiveIndexName (siTable info) idx)
             (siIndexes info @ siUnique info) of
        Some existing \<Rightarrow>
          if ixUnique existing = ixUnique idx \<and> ixWhere existing = ixWhere idx \<and> equalStringSlice (ixColumns existing) (ixColumns idx)
          then Inr info else Inl (Errorf ''index conflicts with an existing index definition'')
      | None \<Rightarrow>
          Inr (if ixUnique idx then info\<lparr>siUnique := siUnique info @ [idx]\<rparr> else info\<lparr>siIndexes := siIndexes info @ [idx]\<rparr>))"

fun indexInfoFromValue :: "index_value \<Rightarrow> IndexInfo go_result" where
  "indexInfoFromValue NilIndex = Inl (Errorf ''index must not be nil'')"
| "indexInfoFromValue NotStruct = Inl (Errorf ''index must be a struct'')"
| "indexInfoFromValue BadFields = Inl (Errorf ''index must have Name string, Columns []string, Unique bool, and Where string fields'')"
| "indexInfoFromValue (IndexValue idx) = Inr idx"

fun append_indexes :: "index_value list \<Rightarrow> schema_info \<Rightarrow> schema_info go_result" where
  "append_indexes [] info = Inr info"
| "append_indexes (v # vs) info =
     bindE (indexInfoFromValue v) (\<lambda>idx.
       bindE (validateProgrammaticIndex info idx) (\<lambda>_. bindE (appendIndex info idx) (append_indexes vs)))"

text \<open>A method \<open>Indexes\<close> of another signature is an error.\<close>

definition appendProgrammaticIndexes :: "struct_type \<Rightarrow> schema_info \<Rightarrow> schema_info go_result" where
  "appendProgrammaticIndexes ty info =
     (case stIndexes ty of None \<Rightarrow> Inr info | Some (Inl e) \<Rightarrow> Inl e | Some (Inr vs) \<Rightarrow> append_indexes vs info)"

section \<open>The metadata of a type\<close>

definition getTableNameFromType :: "struct_type \<Rightarrow> string" where
  "getTableNameFromType ty =
     (case stTableName ty of
        Some n \<Rightarrow> if n \<noteq> [] then n else ToSnakeCase (stName ty) @ ''s''
      | None \<Rightarrow> ToSnakeCase (stName ty) @ ''s'')"

definition hasCustomMethod :: "bool option \<times> bool option \<Rightarrow> bool" where
  "hasCustomMethod ms =
     (case ms of (valueSet, ptrSet) \<Rightarrow>
        (case valueSet of
           Some isCustom \<Rightarrow> if isCustom then True else (case ptrSet of Some c \<Rightarrow> c | None \<Rightarrow> False)
         | None \<Rightarrow> (case ptrSet of Some c \<Rightarrow> c | None \<Rightarrow> False)))"

definition HasCustomKeepItem_of :: "struct_type \<Rightarrow> bool" where
  "HasCustomKeepItem_of ty = hasCustomMethod (stKeepItem ty)"

definition HasCustomKeepItemFields_of :: "struct_type \<Rightarrow> bool" where
  "HasCustomKeepItemFields_of ty = hasCustomMethod (stKeepItemFields ty)"

definition sort_columns :: "IndexInfo \<Rightarrow> IndexInfo" where
  "sort_columns idx = idx\<lparr>ixColumns := sort (ixColumns idx)\<rparr>"

definition compute_info :: "struct_type \<Rightarrow> schema_info go_result" where
  "compute_info ty =
     (let st = processFields (stFields ty) 0 False
                 \<lparr>isIndexes = [], isUnique = [], isComposite = [], msFields = [], msPk = []\<rparr>;
          composite = map (\<lambda>e. sort_columns (snd e)) (isComposite st);
          info0 = \<lparr>siTable = getTableNameFromType ty, siPk = (if msPk st = [] then ''id'' else msPk st), siFields = msFields st,
            siIndexes = isIndexes st @ filter (\<lambda>idx. \<not> ixUnique idx) composite,
            siUnique = isUnique st @ filter ixUnique composite,
            siCustomKeepItem = HasCustomKeepItem_of ty, siCustomKeepItemFields = HasCustomKeepItemFields_of ty\<rparr>
      in bindE (appendProgrammaticIndexes ty info0) (\<lambda>info.
           Inr (info\<lparr>siIndexes := sort_key ixName (siIndexes info), siUnique := sort_key ixName (siUnique info)\<rparr>)))"

text \<open>The cache of metadata, by the name of the type.\<close>

definition GetCachedModelInfo :: "(string, schema_info) gomap \<Rightarrow> struct_type \<Rightarrow> schema_info go_result \<times> (string, schema_info) gomap" where
  "GetCachedModelInfo cache ty =
     (case gm_get cache (stName ty) of
        Some info \<Rightarrow> (Inr info, cache)
      | None \<Rightarrow> (case compute_info ty of Inl e \<Rightarrow> (Inl e, cache) | Inr info \<Rightarrow> (Inr info, gm_set (stName ty) info cache)))"

text \<open>The part of the metadata the other components use.\<close>

definition model_info :: "schema_info \<Rightarrow> ModelInfo" where
  "model_info info =
     \<lparr>TableName = siTable info, PkName = siPk info, Columns = map cfColumn (siFields info),
      FieldNames = map cfGoName (siFields info),
      FieldToColumnMap = foldl (\<lambda>m f. gm_set (cfGoName f) (cfColumn f) m) [] (siFields info),
      ColumnToFieldMap = foldl (\<lambda>m f. gm_set (cfColumn f) (cfGoName f) m) [] (siFields info),
      CompareFields = map (\<lambda>f. \<lparr>GoName = cfGoName f, DBColumn = cfColumn f, IgnoreInDiff = cfIgnore f\<rparr>) (siFields info),
      HasCustomKeepItem = siCustomKeepItem info\<rparr>"

section \<open>The metadata fits the type\<close>

text \<open>\<open>FieldByIndex\<close>: the field an index path leads to.\<close>

fun field_at :: "go_field list \<Rightarrow> nat list \<Rightarrow> go_field option" where
  "field_at fs [] = None"
| "field_at fs [i] = (if i < length fs then Some (fs ! i) else None)"
| "field_at fs (i # j # path) =
     (if i < length fs then case fieldType (fs ! i) of Struct _ _ gs \<Rightarrow> field_at gs (j # path) | Plain _ _ \<Rightarrow> None else None)"

definition resolves :: "go_field list \<Rightarrow> column_field \<Rightarrow> bool" where
  "resolves fs c \<longleftrightarrow> (\<exists>f. field_at fs (cfIndex c) = Some f \<and> fieldName f = cfGoName c \<and> type_string (fieldType f) = cfType c)"

text \<open>No struct is embedded but \<open>BaseModel\<close>.\<close>

definition only_base :: "go_field list \<Rightarrow> bool" where
  "only_base fs \<longleftrightarrow> (\<forall>f \<in> set fs. fieldAnonymous f \<longrightarrow> kind_string (fieldType f) = ''struct'' \<longrightarrow> type_name (fieldType f) = ''BaseModel'')"

lemma aggregate_field_new:
  "msFields (aggregate_field ix e f st) = msFields st \<or>
   (\<exists>c. msFields (aggregate_field ix e f st) = msFields st @ [c] \<and> cfGoName c = fieldName f \<and> cfIndex c = ix \<and> cfType c = type_string (fieldType f))"
  by (auto simp: aggregate_field_def Let_def split: prod.splits)

lemma base_fields_new:
  assumes "c \<in> set (msFields (foldl (\<lambda>s (j, f). aggregate_field [i, j] True f s) st (enumerate k gs)))"
  shows "c \<in> set (msFields st) \<or> (\<exists>j f. k \<le> j \<and> j < k + length gs \<and> f = gs ! (j - k) \<and> cfIndex c = [i, j] \<and> cfGoName c = fieldName f \<and>
    cfType c = type_string (fieldType f))"
  using assms
proof (induction gs arbitrary: k st)
  case (Cons g gs)
  let ?st = "aggregate_field [i, k] True g st"
  have "c \<in> set (msFields (foldl (\<lambda>s (j, f). aggregate_field [i, j] True f s) ?st (enumerate (Suc k) gs)))"
    using Cons.prems by simp
  from Cons.IH[OF this] show ?case
  proof
    assume "c \<in> set (msFields ?st)"
    then show ?thesis using aggregate_field_new[of "[i, k]" True g st] by auto
  next
    assume "\<exists>j f. Suc k \<le> j \<and> j < Suc k + length gs \<and> f = gs ! (j - Suc k) \<and> cfIndex c = [i, j] \<and> cfGoName c = fieldName f \<and>
      cfType c = type_string (fieldType f)"
    then obtain j where j: "Suc k \<le> j" "j < Suc k + length gs" "cfIndex c = [i, j]" "cfGoName c = fieldName (gs ! (j - Suc k))"
      "cfType c = type_string (fieldType (gs ! (j - Suc k)))" by blast
    moreover have "(g # gs) ! (j - k) = gs ! (j - Suc k)" using j(1) by (simp add: nth_Cons' Suc_diff_le)
    ultimately show ?thesis by auto
  qed
qed simp

lemma processField_resolves:
  assumes "only_base (pre @ f # fs)" and "c \<in> set (msFields (processField f (length pre) e st))"
  shows "c \<in> set (msFields st) \<or> resolves (pre @ f # fs) c"
proof -
  obtain n t db diff anon ex where f: "f = GoField n t db diff anon ex" by (cases f)
  show ?thesis
  proof (cases "anon \<and> kind_string t = ''struct''")
    case True
    then have base: "type_name t = ''BaseModel''" using assms(1) f by (auto simp: only_base_def)
    show ?thesis
    proof (cases t)
      case (Struct s m gs)
      show ?thesis
      proof (cases "n = ''BaseModel''")
        case nb: True
        then have "c \<in> set (msFields (foldl (\<lambda>s (j, f). aggregate_field [length pre, j] True f s) st (enumerate 0 gs)))"
          using assms(2) f True base Struct by simp
        from base_fields_new[OF this] show ?thesis using f Struct by (auto simp: resolves_def)
      qed (use assms(2) f True base in simp)
    qed (use assms(2) f True base in \<open>simp split: if_splits\<close>)
  next
    case False
    then have "msFields (processField f (length pre) e st) = msFields (aggregate_field [length pre] e f st)" using f by auto
    with assms(2) aggregate_field_new[of "[length pre]" e f st] show ?thesis by (auto simp: resolves_def)
  qed
qed

lemma processFields_resolves:
  "only_base (pre @ fs) \<Longrightarrow> c \<in> set (msFields (processFields fs (length pre) e st)) \<Longrightarrow> c \<in> set (msFields st) \<or> resolves (pre @ fs) c"
proof (induction fs arbitrary: pre st)
  case (Cons f fs)
  from Cons.IH[of "pre @ [f]" "processField f (length pre) e st"] Cons.prems
  have "c \<in> set (msFields (processField f (length pre) e st)) \<or> resolves (pre @ f # fs) c" by simp
  then show ?case using processField_resolves[OF Cons.prems(1)] by blast
qed simp

lemma append_indexes_keeps: "append_indexes vs info = Inr info' \<Longrightarrow> siFields info' = siFields info \<and> siTable info' = siTable info"
proof (induction vs arbitrary: info)
  case (Cons v vs)
  then obtain idx info1 where "appendIndex info idx = Inr info1" "append_indexes vs info1 = Inr info'" by auto
  then show ?case using Cons.IH[of info1] by (auto simp: appendIndex_def split: option.splits if_splits)
qed simp

lemma compute_info_fields:
  assumes "compute_info ty = Inr info"
  shows "siFields info = msFields (processFields (stFields ty) 0 False
      \<lparr>isIndexes = [], isUnique = [], isComposite = [], msFields = [], msPk = []\<rparr>)"
    and "siTable info = getTableNameFromType ty"
  using assms by (auto simp: compute_info_def Let_def bindE_Inr_iff appendProgrammaticIndexes_def
      split: option.splits sum.splits dest!: append_indexes_keeps)

lemma column_map:
  "distinct (map cfColumn fs) \<Longrightarrow> gm_get (foldl (\<lambda>m f. gm_set (cfColumn f) (cfGoName f) m) m fs) c =
     (case find (\<lambda>f. cfColumn f = c) fs of Some f \<Rightarrow> Some (cfGoName f) | None \<Rightarrow> gm_get m c)"
proof (induction fs arbitrary: m)
  case (Cons f fs)
  have "cfColumn f = c \<Longrightarrow> find (\<lambda>f. cfColumn f = c) fs = None" using Cons.prems by (auto simp: find_None_iff image_iff dest: sym)
  then show ?case using Cons by (auto split: option.splits)
qed simp

text \<open>
  C35: the metadata computed from a struct type is what the cache relies on. For a type that embeds no
  struct but \<open>BaseModel\<close>, with one field per column and no column left out of comparisons, the column
  map and the compared fields agree and name each column once, the table has a name, and every index
  path leads to the field it was made for.
\<close>

theorem metadata_fits:
  assumes "compute_info ty = Inr info" and "only_base (stFields ty)"
    and "distinct (Columns (model_info info))" and "list_all (\<lambda>f. \<not> cfIgnore f) (siFields info)"
  shows "info_ok (model_info info) \<and> list_all (resolves (stFields ty)) (siFields info)"
proof
  have cols: "distinct (map cfColumn (siFields info))" using assms(3) by (simp add: model_info_def)
  have cmp: "compared (model_info info) = map (\<lambda>f. \<lparr>GoName = cfGoName f, DBColumn = cfColumn f, IgnoreInDiff = cfIgnore f\<rparr>) (siFields info)"
    using assms(4) by (auto simp: compared_def model_info_def filter_id_conv list_all_iff)
  have "(gm_get (ColumnToFieldMap (model_info info)) c = Some g) \<longleftrightarrow> (\<exists>f \<in> set (compared (model_info info)). DBColumn f = c \<and> GoName f = g)" for c g
  proof -
    have "(find (\<lambda>f. cfColumn f = c) (siFields info) = Some f) \<longleftrightarrow> f \<in> set (siFields info) \<and> cfColumn f = c" for f
      using cols by (auto simp: find_Some_iff in_set_conv_nth distinct_conv_nth)
    moreover have "gm_get (ColumnToFieldMap (model_info info)) c =
        (case find (\<lambda>f. cfColumn f = c) (siFields info) of Some f \<Rightarrow> Some (cfGoName f) | None \<Rightarrow> None)"
      using column_map[OF cols, of "[]" c] by (simp add: model_info_def split: option.splits)
    ultimately show ?thesis unfolding cmp by (cases "find (\<lambda>f. cfColumn f = c) (siFields info)") (auto, metis)
  qed
  moreover have "getTableNameFromType ty \<noteq> []" by (auto simp: getTableNameFromType_def split: option.splits)
  ultimately show "info_ok (model_info info)"
    using cols compute_info_fields(2)[OF assms(1)] unfolding info_ok_def cmp by (simp add: model_info_def o_def)
  show "list_all (resolves (stFields ty)) (siFields info)"
    using processFields_resolves[of "[]" "stFields ty" _ False] assms(2) compute_info_fields(1)[OF assms(1)]
    by (fastforce simp: list_all_iff)
qed

definition base_model_type :: go_type where
  "base_model_type = Struct ''thing.BaseModel'' ''BaseModel''
     [GoField ''ID'' (Plain ''int64'' ''int64'') ''id,pk'' [] False True,
      GoField ''CreatedAt'' (Plain ''time.Time'' ''struct'') ''created_at'' [] False True,
      GoField ''UpdatedAt'' (Plain ''time.Time'' ''struct'') ''updated_at'' [] False True,
      GoField ''Deleted'' (Plain ''bool'' ''bool'') ''deleted'' [] False True,
      GoField ''isNewRecord'' (Plain ''bool'' ''bool'') ''-'' [] False False]"

definition account_type :: struct_type where
  "account_type = \<lparr>stName = ''UserAccount'', stFields =
     [GoField ''BaseModel'' base_model_type [] [] True True,
      GoField ''FullName'' (Plain ''string'' ''string'') ''full_name,index,default:none'' [] False True,
      GoField ''ZipCode'' (Plain ''string'' ''string'') [] [] False True,
      GoField ''Secret'' (Plain ''string'' ''string'') ''-'' [] False True],
     stTableName = Some [], stIndexes = None, stKeepItem = (Some False, Some False), stKeepItemFields = (Some False, Some False)\<rparr>"

theorem metadata_fits_witness:
  "\<exists>info. compute_info account_type = Inr info \<and> siTable info = ''user_accounts'' \<and> siPk info = ''id'' \<and>
     map cfColumn (siFields info) = [''id'', ''created_at'', ''updated_at'', ''deleted'', ''full_name'', ''zip_code''] \<and>
     map cfIndex (siFields info) = [[0, 0], [0, 1], [0, 2], [0, 3], [1], [2]] \<and>
     info_ok (model_info info) \<and> list_all (resolves (stFields account_type)) (siFields info)"
proof -
  have run: "case compute_info account_type of Inl _ \<Rightarrow> False | Inr info \<Rightarrow>
      siTable info = ''user_accounts'' \<and> siPk info = ''id'' \<and>
      map cfColumn (siFields info) = [''id'', ''created_at'', ''updated_at'', ''deleted'', ''full_name'', ''zip_code''] \<and>
      map cfIndex (siFields info) = [[0, 0], [0, 1], [0, 2], [0, 3], [1], [2]] \<and>
      distinct (Columns (model_info info)) \<and> list_all (\<lambda>f. \<not> cfIgnore f) (siFields info)" by code_simp
  have base: "only_base (stFields account_type)" by code_simp
  obtain info where i: "compute_info account_type = Inr info" using run by (cases "compute_info account_type") auto
  from metadata_fits[OF i base] run i show ?thesis by auto
qed

text \<open>
  The index path of a field of another embedded struct is its position in that struct and leads to a
  different field of the model.
\<close>

lemma embedded_path_wrong:
  "\<exists>info. compute_info (account_type\<lparr>stFields :=
       [GoField ''Age'' (Plain ''int64'' ''int64'') ''age'' [] False True,
        GoField ''Address'' (Struct ''app.Address'' ''Address'' [GoField ''City'' (Plain ''string'' ''string'') ''city'' [] False True]) [] [] True True]\<rparr>) =
      Inr info \<and> map (\<lambda>f. (cfGoName f, cfIndex f)) (siFields info) = [(''Age'', [0]), (''City'', [0])]"
proof -
  have "case compute_info (account_type\<lparr>stFields :=
       [GoField ''Age'' (Plain ''int64'' ''int64'') ''age'' [] False True,
        GoField ''Address'' (Struct ''app.Address'' ''Address'' [GoField ''City'' (Plain ''string'' ''string'') ''city'' [] False True]) [] [] True True]\<rparr>) of
      Inl _ \<Rightarrow> False | Inr info \<Rightarrow> map (\<lambda>f. (cfGoName f, cfIndex f)) (siFields info) = [(''Age'', [0]), (''City'', [0])]" by code_simp
  then show ?thesis by (auto split: sum.splits)
qed

text \<open>The tag of a default value is recognised in any case and removed in lower case only.\<close>

lemma default_tag_case: "parse_db_tag ''age,Default:5'' = ([''age''], Some ''Default:5'')"
  by code_simp

end
