(* ===== verification/Schema_Sql.thy ===== *)
theory Schema_Sql
  imports Schema_Meta
begin

text \<open>
  DDL from metadata: \<^verbatim>\<open>internal/schema/generate.go\<close>, \<^verbatim>\<open>internal/schema/auto.go\<close> and \<^verbatim>\<open>migrate.go\<close>. A dialect
  is its name. The loops over maps run in the order in which the keys were first set.
\<close>

section \<open>Types and defaults\<close>

definition TypeMapping :: "(string, (string, string) gomap) gomap" where
  "TypeMapping =
     [(''mysql'',
       [(''int'', ''INT''), (''int8'', ''TINYINT''), (''int16'', ''SMALLINT''), (''int32'', ''INT''), (''int64'', ''BIGINT''),
        (''uint'', ''INT UNSIGNED''), (''uint8'', ''TINYINT UNSIGNED''), (''uint16'', ''SMALLINT UNSIGNED''),
        (''uint32'', ''INT UNSIGNED''), (''uint64'', ''BIGINT UNSIGNED''), (''float32'', ''FLOAT''), (''float64'', ''DOUBLE''),
        (''string'', ''VARCHAR(255)''), (''bool'', ''BOOLEAN''), (''time.Time'', ''DATETIME''), (''[]byte'', ''BLOB'')]),
      (''postgres'',
       [(''int'', ''INTEGER''), (''int8'', ''SMALLINT''), (''int16'', ''SMALLINT''), (''int32'', ''INTEGER''), (''int64'', ''BIGINT''),
        (''uint'', ''BIGINT''), (''uint8'', ''SMALLINT''), (''uint16'', ''INTEGER''), (''uint32'', ''BIGINT''), (''uint64'', ''NUMERIC''),
        (''float32'', ''REAL''), (''float64'', ''DOUBLE PRECISION''), (''string'', ''VARCHAR(255)''), (''bool'', ''BOOLEAN''),
        (''time.Time'', ''TIMESTAMP''), (''[]byte'', ''BYTEA'')]),
      (''sqlite'',
       [(''int'', ''INTEGER''), (''int8'', ''INTEGER''), (''int16'', ''INTEGER''), (''int32'', ''INTEGER''), (''int64'', ''INTEGER''),
        (''uint'', ''INTEGER''), (''uint8'', ''INTEGER''), (''uint16'', ''INTEGER''), (''uint32'', ''INTEGER''), (''uint64'', ''INTEGER''),
        (''float32'', ''REAL''), (''float64'', ''REAL''), (''string'', ''TEXT''), (''bool'', ''BOOLEAN''),
        (''time.Time'', ''DATETIME''), (''[]byte'', ''BLOB'')])]"

definition sql_type :: "(string, string) gomap \<Rightarrow> column_field \<Rightarrow> string" where
  "sql_type typeMap f =
     (case gm_get typeMap (cfType f) of
        Some t \<Rightarrow> t
      | None \<Rightarrow> (case gm_get typeMap (cfKind f) of Some t \<Rightarrow> t | None \<Rightarrow> ''TEXT''))"

text \<open>A string literal: quotes inside are doubled.\<close>

definition sql_literal :: "string \<Rightarrow> string" where
  "sql_literal s = [CHR 0x27] @ concat (map (\<lambda>c. if c = CHR 0x27 then [CHR 0x27, CHR 0x27] else [c]) s) @ [CHR 0x27]"

definition number_kinds :: "string list" where
  "number_kinds = [''int'', ''int8'', ''int16'', ''int32'', ''int64'', ''uint'', ''uint8'', ''uint16'', ''uint32'', ''uint64'', ''float32'', ''float64'']"

definition formatDefaultValueForSQL :: "string \<Rightarrow> string \<Rightarrow> string \<Rightarrow> string go_result" where
  "formatDefaultValueForSQL defaultValue goKind dialect =
     (if goKind = ''string'' then Inr (sql_literal defaultValue)
      else if goKind = ''bool'' then
        let lowerVal = to_lower defaultValue in
        if lowerVal = ''true'' \<or> lowerVal = ''1'' then Inr (if dialect = ''postgres'' then ''TRUE'' else ''1'')
        else if lowerVal = ''false'' \<or> lowerVal = ''0'' then Inr (if dialect = ''postgres'' then ''FALSE'' else ''0'')
        else Inl (Errorf ''invalid boolean default value'')
      else if goKind \<in> set number_kinds then Inr defaultValue
      else Inl (Errorf ''unsupported Go kind for default value''))"

definition default_constraint :: "column_field \<Rightarrow> string \<Rightarrow> string list" where
  "default_constraint f dialect =
     (case cfDefault f of
        None \<Rightarrow> []
      | Some v \<Rightarrow> (case formatDefaultValueForSQL v (cfKind f) dialect of Inl _ \<Rightarrow> [] | Inr d \<Rightarrow> [''DEFAULT '' @ d]))"

section \<open>Index statements\<close>

definition ddl_quote :: "string \<Rightarrow> string \<Rightarrow> string" where
  "ddl_quote dialect s = (if dialect = ''postgres'' then [CHR 0x22] @ s @ [CHR 0x22] else [CHR 0x60] @ s @ [CHR 0x60])"

definition generateCreateIndexSQL :: "string \<Rightarrow> string \<Rightarrow> string list \<Rightarrow> bool \<Rightarrow> string \<Rightarrow> string \<Rightarrow> string" where
  "generateCreateIndexSQL tableName indexName columns unique where_text dialect =
     (if columns = [] then []
      else ''CREATE'' @ (if unique then '' UNIQUE'' else []) @ '' INDEX''
        @ (if dialect = ''sqlite'' \<or> dialect = ''postgres'' then '' IF NOT EXISTS'' else [])
        @ '' '' @ ddl_quote dialect indexName @ '' ON '' @ ddl_quote dialect tableName
        @ '' ('' @ str_join (map (ddl_quote dialect) columns) '', '' @ '')''
        @ (if where_text = [] then [] else '' WHERE '' @ where_text) @ '';'')"

definition generateDropIndexSQL :: "string \<Rightarrow> string \<Rightarrow> string \<Rightarrow> string" where
  "generateDropIndexSQL tableName indexName dialect =
     (if dialect = ''mysql'' then ''DROP INDEX '' @ ddl_quote dialect indexName @ '' ON '' @ ddl_quote dialect tableName @ '';''
      else if dialect = ''postgres'' \<or> dialect = ''sqlite'' then ''DROP INDEX IF EXISTS '' @ ddl_quote dialect indexName @ '';''
      else ''-- Unsupported dialect for DROP INDEX: '' @ dialect)"

definition indexWherePresenceMatches :: "string \<Rightarrow> string \<Rightarrow> bool" where
  "indexWherePresenceMatches modelWhere dbWhere = ((trim_space modelWhere \<noteq> []) = (trim_space dbWhere \<noteq> []))"

text \<open>The name of an index in a statement: its own, or a default for a single column; none for others.\<close>

definition index_name :: "string \<Rightarrow> bool \<Rightarrow> IndexInfo \<Rightarrow> string option" where
  "index_name tableName unique idx =
     (if ixName idx \<noteq> [] then Some (ixName idx)
      else if length (ixColumns idx) = 1
      then Some ((if unique then ''uniq_'' else ''idx_'') @ tableName @ ''_'' @ hd (ixColumns idx))
      else None)"

section \<open>CREATE TABLE\<close>

definition column_constraints :: "schema_info \<Rightarrow> string \<Rightarrow> column_field \<Rightarrow> string \<Rightarrow> string \<times> string list" where
  "column_constraints info dialect f sqlType =
     (let pk = (cfColumn f = siPk info);
          key = (if pk then [''PRIMARY KEY'']
                   @ (if dialect = ''mysql'' \<and> (has_prefix sqlType ''INT'' \<or> has_prefix sqlType ''BIGINT'') then [''AUTO_INCREMENT''] else [])
                   @ (if dialect = ''sqlite'' \<and> sqlType = ''INTEGER'' then [''AUTOINCREMENT''] else [])
                 else []);
          notnull = (if \<not> cfEmbedded f \<and> \<not> has_suffix (cfColumn f) ''_at'' \<and> \<not> pk then [''NOT NULL''] else [])
      in (if pk \<and> dialect = ''postgres'' \<and> sqlType = ''BIGINT'' then ''BIGSERIAL'' else sqlType,
          key @ notnull @ default_constraint f dialect))"

definition column_definition :: "schema_info \<Rightarrow> string \<Rightarrow> (string, string) gomap \<Rightarrow> column_field \<Rightarrow> string" where
  "column_definition info dialect typeMap f =
     (let (sqlType, constraints) = column_constraints info dialect f (sql_type typeMap f)
      in trim_space (cfColumn f @ '' '' @ sqlType @ '' '' @ str_join constraints '' ''))"

fun append_new :: "string list \<Rightarrow> string list \<Rightarrow> string list" where
  "append_new xs [] = xs"
| "append_new xs (y # ys) = append_new (if y \<in> set xs then xs else xs @ [y]) ys"

fun populateMergedMap ::
  "string \<Rightarrow> string \<Rightarrow> bool \<Rightarrow> IndexInfo list \<Rightarrow> (string, IndexInfo) gomap \<Rightarrow> (string, IndexInfo) gomap go_result" where
  "populateMergedMap tableName dialect unique [] merged = Inr merged"
| "populateMergedMap tableName dialect unique (idx # ids) merged =
     (if ixColumns idx = [] then populateMergedMap tableName dialect unique ids merged
      else if ixWhere idx \<noteq> [] \<and> dialect = ''mysql'' then Inl (Errorf ''partial indexes are not supported for MySQL'')
      else case index_name tableName unique idx of
        None \<Rightarrow> populateMergedMap tableName dialect unique ids merged
      | Some idxName \<Rightarrow>
          (case gm_get merged idxName of
             Some existing \<Rightarrow>
               if ixUnique existing \<noteq> unique then populateMergedMap tableName dialect unique ids merged
               else if ixWhere existing \<noteq> ixWhere idx then Inl (Errorf ''index has conflicting WHERE predicates'')
               else populateMergedMap tableName dialect unique ids
                 (gm_set idxName (existing\<lparr>ixColumns := sort (append_new (ixColumns existing) (ixColumns idx))\<rparr>) merged)
           | None \<Rightarrow>
               populateMergedMap tableName dialect unique ids
                 (gm_set idxName \<lparr>ixName = idxName, ixColumns = ixColumns idx, ixUnique = unique, ixWhere = ixWhere idx\<rparr> merged)))"

definition GenerateCreateTableSQL :: "schema_info \<Rightarrow> string \<Rightarrow> string go_result" where
  "GenerateCreateTableSQL info dialect =
     (case gm_get TypeMapping dialect of
        None \<Rightarrow> Inl (Errorf ''unsupported dialect'')
      | Some typeMap \<Rightarrow>
          (let tableName = siTable info;
               cols = map (column_definition info dialect typeMap) (siFields info);
               nl = [CHR 0x0A];
               create = ''CREATE TABLE IF NOT EXISTS '' @ tableName @ '' ('' @ nl @ ''  '' @ str_join cols ('','' @ nl @ ''  '') @ nl @ '');''
           in bindE (populateMergedMap tableName dialect False (siIndexes info) []) (\<lambda>m1.
              bindE (populateMergedMap tableName dialect True (siUnique info) m1) (\<lambda>merged.
                let stmts = filter (\<lambda>s. s \<noteq> [])
                      (map (\<lambda>name. case gm_get merged name of
                          None \<Rightarrow> []
                        | Some idx \<Rightarrow> generateCreateIndexSQL tableName (ixName idx) (ixColumns idx) (ixUnique idx) (ixWhere idx) dialect)
                        (sort (gm_keys merged)))
                in Inr (create @ (if stmts = [] then [] else nl @ nl @ ''-- Indexes --'' @ nl @ str_join stmts nl))))))"

section \<open>ALTER TABLE\<close>

record ColumnInfo =
  ciName :: string
  ciDataType :: string
  ciNullable :: bool
  ciPrimary :: bool
  ciUniqueCol :: bool
  ciDefault :: "string option"

record TableInfo =
  tiName :: string
  tiColumns :: "ColumnInfo list"
  tiIndexes :: "IndexInfo list"
  tiPrimaryKey :: string

definition target_columns :: "schema_info \<Rightarrow> (string, column_field) gomap" where
  "target_columns info = foldl (\<lambda>m f. gm_set (cfColumn f) f m) [] (siFields info)"

definition db_columns :: "TableInfo \<Rightarrow> (string, ColumnInfo) gomap" where
  "db_columns ti = foldl (\<lambda>m c. gm_set (ciName c) c m) [] (tiColumns ti)"

definition add_columns :: "schema_info \<Rightarrow> string \<Rightarrow> (string, string) gomap \<Rightarrow> (string, ColumnInfo) gomap \<Rightarrow> string list" where
  "add_columns info dialect typeMap dbCols =
     concat (map (\<lambda>(col, f).
        if gm_get dbCols col \<noteq> None then []
        else
          let constraints = (if col = siPk info then [''PRIMARY KEY''] else []) @ default_constraint f dialect
          in [''ALTER TABLE '' @ siTable info @ '' ADD COLUMN '' @ col @ '' '' @ sql_type typeMap f
                @ (if constraints = [] then [] else '' '' @ str_join constraints '' '')]) (target_columns info))"

definition drop_columns :: "schema_info \<Rightarrow> string \<Rightarrow> (string, ColumnInfo) gomap \<Rightarrow> string list" where
  "drop_columns info dialect dbCols =
     concat (map (\<lambda>(col, c).
        if gm_get (target_columns info) col \<noteq> None then []
        else [''ALTER TABLE '' @ siTable info @ '' DROP COLUMN '' @ col @ '';'']) dbCols)"

definition change_columns :: "schema_info \<Rightarrow> string \<Rightarrow> (string, string) gomap \<Rightarrow> (string, ColumnInfo) gomap \<Rightarrow> string list" where
  "change_columns info dialect typeMap dbCols =
     concat (map (\<lambda>(col, f).
        case gm_get dbCols col of
          None \<Rightarrow> []
        | Some dbCol \<Rightarrow>
            (if ciDataType dbCol = sql_type typeMap f then []
             else [if dialect = ''mysql'' then ''ALTER TABLE '' @ siTable info @ '' MODIFY COLUMN '' @ col @ '' '' @ sql_type typeMap f
                   else ''ALTER TABLE '' @ siTable info @ '' ALTER COLUMN '' @ col @ '' TYPE '' @ sql_type typeMap f])
            @ (if ciPrimary dbCol = (col = siPk info) then []
               else [''-- [manual] PRIMARY KEY change for '' @ col @ '' (may require table rebuild)''])) (target_columns info))"

fun populateIndexMap ::
  "string \<Rightarrow> string \<Rightarrow> bool \<Rightarrow> IndexInfo list \<Rightarrow> (string, IndexInfo) gomap \<Rightarrow> (string, IndexInfo) gomap go_result" where
  "populateIndexMap tableName dialect unique [] modelIndexes = Inr modelIndexes"
| "populateIndexMap tableName dialect unique (idx # ids) modelIndexes =
     (if ixColumns idx = [] then populateIndexMap tableName dialect unique ids modelIndexes
      else if ixWhere idx \<noteq> [] \<and> dialect = ''mysql'' then Inl (Errorf ''partial indexes are not supported for MySQL'')
      else case index_name tableName unique idx of
        None \<Rightarrow> populateIndexMap tableName dialect unique ids modelIndexes
      | Some idxName \<Rightarrow>
          (case gm_get modelIndexes idxName of
             Some existing \<Rightarrow>
               if ixUnique existing \<noteq> unique \<or> \<not> equalStringSlice (ixColumns existing) (ixColumns idx)
               then populateIndexMap tableName dialect unique ids modelIndexes
               else if ixWhere existing \<noteq> ixWhere idx then Inl (Errorf ''index has conflicting WHERE predicates'')
               else populateIndexMap tableName dialect unique ids modelIndexes
           | None \<Rightarrow>
               populateIndexMap tableName dialect unique ids
                 (gm_set idxName \<lparr>ixName = idxName, ixColumns = ixColumns idx, ixUnique = unique, ixWhere = ixWhere idx\<rparr> modelIndexes)))"

definition db_indexes :: "TableInfo \<Rightarrow> (string, IndexInfo) gomap" where
  "db_indexes ti =
     foldl (\<lambda>m idx. gm_set (ixName idx) (sort_columns idx) m) []
       (filter (\<lambda>idx. \<not> has_prefix (ixName idx) ''sqlite_autoindex_'') (tiIndexes ti))"

definition same_index :: "IndexInfo \<Rightarrow> IndexInfo \<Rightarrow> bool" where
  "same_index m d \<longleftrightarrow> ixUnique m = ixUnique d \<and> equalStringSlice (ixColumns m) (ixColumns d) \<and> indexWherePresenceMatches (ixWhere m) (ixWhere d)"

definition add_sql :: "string \<Rightarrow> string list \<Rightarrow> string list" where
  "add_sql sql sqls = (if sql \<in> set sqls then sqls else sqls @ [sql])"

definition add_index :: "string \<Rightarrow> string \<Rightarrow> (string, IndexInfo) gomap \<Rightarrow> string list \<Rightarrow> string \<times> IndexInfo \<Rightarrow> string list" where
  "add_index tableName dialect dbIndexes sqls e =
     (case e of (name, m) \<Rightarrow>
        (let create = generateCreateIndexSQL tableName (ixName m) (ixColumns m) (ixUnique m) (ixWhere m) dialect
         in case gm_get dbIndexes name of
              None \<Rightarrow> sqls @ [create]
            | Some d \<Rightarrow>
                if same_index m d then sqls
                else add_sql create (add_sql (generateDropIndexSQL tableName name dialect) sqls)))"

text \<open>An index of the table goes when the model has none of its name and none like it under another.\<close>

definition drop_index :: "string \<Rightarrow> string \<Rightarrow> (string, IndexInfo) gomap \<Rightarrow> string list \<Rightarrow> string \<times> IndexInfo \<Rightarrow> string list" where
  "drop_index tableName dialect modelIndexes sqls e =
     (case e of (name, d) \<Rightarrow>
        if gm_get modelIndexes name \<noteq> None then sqls
        else
          let matchName = (case find (\<lambda>(_, m). same_index m d) modelIndexes of Some (n, _) \<Rightarrow> n | None \<Rightarrow> [])
          in if matchName \<noteq> [] \<and> matchName \<noteq> name then sqls
             else add_sql (generateDropIndexSQL tableName name dialect) sqls)"

definition GenerateAlterTableSQL :: "schema_info \<Rightarrow> TableInfo \<Rightarrow> string \<Rightarrow> string list go_result" where
  "GenerateAlterTableSQL info ti dialect =
     (case gm_get TypeMapping dialect of
        None \<Rightarrow> Inl (Errorf ''unsupported dialect'')
      | Some typeMap \<Rightarrow>
          (let tableName = siTable info; dbCols = db_columns ti;
               sqls = add_columns info dialect typeMap dbCols @ drop_columns info dialect dbCols
                 @ change_columns info dialect typeMap dbCols
           in bindE (populateIndexMap tableName dialect False (siIndexes info) []) (\<lambda>m1.
              bindE (populateIndexMap tableName dialect True (siUnique info) m1) (\<lambda>modelIndexes.
                let sqls1 = foldl (add_index tableName dialect (db_indexes ti)) sqls modelIndexes
                in Inr (foldl (drop_index tableName dialect modelIndexes) sqls1 (db_indexes ti))))))"

section \<open>Migration\<close>

definition GenerateMigrationsTableSQL :: "string \<Rightarrow> string go_result" where
  "GenerateMigrationsTableSQL dialect =
     (let nl = [CHR 0x0A];
          table = (\<lambda>key version applied description.
            ''CREATE TABLE IF NOT EXISTS schema_migrations ('' @ nl @ ''  id '' @ key @ '','' @ nl @
            ''  version '' @ version @ '' NOT NULL UNIQUE,'' @ nl @ ''  applied_at '' @ applied @ '' DEFAULT CURRENT_TIMESTAMP,'' @ nl @
            ''  description '' @ description @ nl @ '');'')
      in if dialect = ''mysql'' then Inr (table ''INT AUTO_INCREMENT PRIMARY KEY'' ''VARCHAR(255)'' ''TIMESTAMP'' ''VARCHAR(255)'')
         else if dialect = ''postgres'' then Inr (table ''SERIAL PRIMARY KEY'' ''VARCHAR(255)'' ''TIMESTAMP'' ''VARCHAR(255)'')
         else if dialect = ''sqlite'' then Inr (table ''INTEGER PRIMARY KEY AUTOINCREMENT'' ''TEXT'' ''DATETIME'' ''TEXT'')
         else Inl (Errorf ''unsupported dialect''))"

fun AutoMigrateWithDialect ::
  "string \<Rightarrow> struct_type list \<Rightarrow> (string, schema_info) gomap \<Rightarrow> string list go_result \<times> (string, schema_info) gomap" where
  "AutoMigrateWithDialect dialect [] cache = (Inr [], cache)"
| "AutoMigrateWithDialect dialect (ty # tys) cache =
     (case GetCachedModelInfo cache ty of
        (Inl e, c) \<Rightarrow> (Inl (Wrapped ''AutoMigrate: failed to get model info'' e), c)
      | (Inr info, c) \<Rightarrow>
          (case GenerateCreateTableSQL info dialect of
             Inl e \<Rightarrow> (Inl (Wrapped ''AutoMigrateWithDialect: failed to generate SQL'' e), c)
           | Inr sql \<Rightarrow> (let (r, c') = AutoMigrateWithDialect dialect tys c in (bindE r (\<lambda>sqls. Inr (sql # sqls)), c'))))"

text \<open>
  The database as \<open>AutoMigrate\<close> uses it: the dialect, the registered introspectors by dialect, each of which
  finds what there is of a table, \<open>None\<close> when there is no such table, and the execution of a statement.
\<close>

type_synonym 'd introspector = "'d \<Rightarrow> string \<Rightarrow> TableInfo option go_result"

record 'd migrator =
  mgDialect :: string
  mgFactories :: "(string, 'd introspector) gomap"
  mgExec :: "'d \<Rightarrow> string \<Rightarrow> unit go_result \<times> 'd"

definition GenerateMigrationSQL ::
  "'d migrator option \<Rightarrow> struct_type list \<Rightarrow> (string, schema_info) gomap \<Rightarrow> string list go_result \<times> (string, schema_info) gomap" where
  "GenerateMigrationSQL db tys cache =
     (case db of
        None \<Rightarrow> (Inl (Errorf ''GenerateMigrationSQL: globalDB is nil''), cache)
      | Some mg \<Rightarrow> AutoMigrateWithDialect (mgDialect mg) tys cache)"

definition RegisterIntrospectorFactory :: "string \<Rightarrow> 'd introspector \<Rightarrow> 'd migrator \<Rightarrow> 'd migrator" where
  "RegisterIntrospectorFactory dialect factory mg = mg\<lparr>mgFactories := gm_set dialect factory (mgFactories mg)\<rparr>"

definition introspectTable :: "'d migrator \<Rightarrow> 'd \<Rightarrow> string \<Rightarrow> string \<Rightarrow> TableInfo option go_result" where
  "introspectTable mg d tableName dialect =
     (case gm_get (mgFactories mg) dialect of
        None \<Rightarrow> Inl (Errorf ''no introspector registered for dialect'')
      | Some introspect \<Rightarrow> introspect d tableName)"

fun exec_alters :: "'d migrator \<Rightarrow> bool \<Rightarrow> string list \<Rightarrow> 'd \<Rightarrow> unit go_result \<times> 'd" where
  "exec_alters mg allowDrop [] d = (Inr (), d)"
| "exec_alters mg allowDrop (sql # sqls) d =
     (if str_contains (to_upper sql) ''DROP COLUMN'' \<and> \<not> allowDrop then exec_alters mg allowDrop sqls d
      else case mgExec mg d sql of
        (Inl e, d') \<Rightarrow> (Inl (Wrapped ''AutoMigrate: failed to execute ALTER TABLE SQL'' e), d')
      | (Inr _, d') \<Rightarrow> exec_alters mg allowDrop sqls d')"

definition migrate_table :: "'d migrator \<Rightarrow> bool \<Rightarrow> schema_info \<Rightarrow> 'd \<Rightarrow> unit go_result \<times> 'd" where
  "migrate_table mg allowDrop info d =
     (case introspectTable mg d (siTable info) (mgDialect mg) of
        Inl e \<Rightarrow> (Inl (Wrapped ''AutoMigrate: failed to introspect table'' e), d)
      | Inr None \<Rightarrow>
          (case GenerateCreateTableSQL info (mgDialect mg) of
             Inl e \<Rightarrow> (Inl (Wrapped ''AutoMigrate: failed to generate CREATE TABLE SQL'' e), d)
           | Inr sql \<Rightarrow>
               (case mgExec mg d sql of
                  (Inl e, d') \<Rightarrow> (Inl (Wrapped ''AutoMigrate: failed to execute CREATE TABLE SQL'' e), d')
                | (Inr _, d') \<Rightarrow> (Inr (), d')))
      | Inr (Some ti) \<Rightarrow>
          (case GenerateAlterTableSQL info ti (mgDialect mg) of
             Inl e \<Rightarrow> (Inl (Wrapped ''AutoMigrate: failed to generate ALTER TABLE SQL'' e), d)
           | Inr sqls \<Rightarrow> exec_alters mg allowDrop sqls d))"

fun AutoMigrate ::
  "'d migrator option \<Rightarrow> bool \<Rightarrow> struct_type list \<Rightarrow> (string, schema_info) gomap \<Rightarrow> 'd \<Rightarrow> unit go_result \<times> (string, schema_info) gomap \<times> 'd" where
  "AutoMigrate None allowDrop tys cache d = (Inl (Errorf ''AutoMigrate: globalDB is nil''), cache, d)"
| "AutoMigrate (Some mg) allowDrop [] cache d = (Inr (), cache, d)"
| "AutoMigrate (Some mg) allowDrop (ty # tys) cache d =
     (case GetCachedModelInfo cache ty of
        (Inl e, c) \<Rightarrow> (Inl (Wrapped ''AutoMigrate: failed to get model info'' e), c, d)
      | (Inr info, c) \<Rightarrow>
          (case migrate_table mg allowDrop info d of
             (Inl e, d') \<Rightarrow> (Inl e, c, d')
           | (Inr _, d') \<Rightarrow> AutoMigrate (Some mg) allowDrop tys c d'))"

section \<open>When there is nothing to alter\<close>

text \<open>The indexes of the model by name, as \<open>GenerateAlterTableSQL\<close> collects them.\<close>

definition model_indexes :: "schema_info \<Rightarrow> string \<Rightarrow> (string, IndexInfo) gomap go_result" where
  "model_indexes info dialect =
     bindE (populateIndexMap (siTable info) dialect False (siIndexes info) []) (populateIndexMap (siTable info) dialect True (siUnique info))"

text \<open>
  The table is what the model asks for: the columns of the model and no others, with its types and key,
  an index like each of the model under its name, and no index unlike all of them.
\<close>

definition columns_current :: "schema_info \<Rightarrow> (string, string) gomap \<Rightarrow> TableInfo \<Rightarrow> bool" where
  "columns_current info typeMap ti \<longleftrightarrow>
     (\<forall>col. (gm_get (target_columns info) col = None) = (gm_get (db_columns ti) col = None)) \<and>
     (\<forall>col f c. gm_get (target_columns info) col = Some f \<longrightarrow> gm_get (db_columns ti) col = Some c \<longrightarrow>
        ciDataType c = sql_type typeMap f \<and> ciPrimary c = (col = siPk info))"

definition indexes_current :: "(string, IndexInfo) gomap \<Rightarrow> TableInfo \<Rightarrow> bool" where
  "indexes_current modelIndexes ti \<longleftrightarrow>
     (\<forall>name m. gm_get modelIndexes name = Some m \<longrightarrow> (\<exists>d. gm_get (db_indexes ti) name = Some d \<and> same_index m d)) \<and>
     (\<forall>name d. gm_get (db_indexes ti) name = Some d \<longrightarrow>
        gm_get modelIndexes name \<noteq> None \<or> (\<exists>n m. gm_get modelIndexes n = Some m \<and> same_index m d))"

lemma distinct_fold_set: "distinct (map fst m) \<Longrightarrow> distinct (map fst (foldl (\<lambda>m x. gm_set (k x) (v x) m) m xs))"
  by (induction xs arbitrary: m) (auto simp: distinct_gm_set)

lemma in_target: "(col, f) \<in> set (target_columns info) \<longleftrightarrow> gm_get (target_columns info) col = Some f"
  using distinct_fold_set[of "[]" cfColumn "\<lambda>f. f" "siFields info"] by (simp add: target_columns_def)

lemma in_db_columns: "(col, c) \<in> set (db_columns ti) \<longleftrightarrow> gm_get (db_columns ti) col = Some c"
  using distinct_fold_set[of "[]" ciName "\<lambda>c. c" "tiColumns ti"] by (simp add: db_columns_def)

lemma in_db_indexes: "(n, d) \<in> set (db_indexes ti) \<longleftrightarrow> gm_get (db_indexes ti) n = Some d"
  using distinct_fold_set[of "[]" ixName sort_columns] by (simp add: db_indexes_def)

lemma index_name_nonempty: "index_name tab unique idx = Some n \<Longrightarrow> n \<noteq> []"
  by (auto simp: index_name_def split: if_splits)

lemma populateIndexMap_step:
  assumes "populateIndexMap tab dialect unique (idx # ids) m = Inr m'"
  shows "populateIndexMap tab dialect unique ids m = Inr m' \<or>
     (\<exists>n v. n \<noteq> [] \<and> ixName v = n \<and> populateIndexMap tab dialect unique ids (gm_set n v m) = Inr m')"
  using assms by (fastforce split: if_splits option.splits dest: index_name_nonempty)

lemma populateIndexMap_inv:
  assumes step: "\<And>n v m. n \<noteq> [] \<Longrightarrow> ixName v = n \<Longrightarrow> P m \<Longrightarrow> P (gm_set n v m)"
  shows "P m \<Longrightarrow> populateIndexMap tab dialect unique ids m = Inr m' \<Longrightarrow> P m'"
proof (induction ids arbitrary: m)
  case (Cons idx ids)
  from populateIndexMap_step[OF Cons.prems(2)] show ?case
    using Cons.IH[OF Cons.prems(1)] Cons.IH[OF step[OF _ _ Cons.prems(1)]] by blast
qed simp

definition named_map :: "(string, IndexInfo) gomap \<Rightarrow> bool" where
  "named_map m \<longleftrightarrow> distinct (map fst m) \<and> gm_get m [] = None \<and> (\<forall>(n, idx) \<in> set m. ixName idx = n)"

lemma gm_set_members: "(a, b) \<in> set (gm_set k v m) \<Longrightarrow> (a, b) = (k, v) \<or> (a, b) \<in> set m"
  by (induction m) (auto split: if_splits)

lemma model_indexes_named: "model_indexes info dialect = Inr m \<Longrightarrow> named_map m"
proof -
  assume "model_indexes info dialect = Inr m"
  then obtain m1 where "populateIndexMap (siTable info) dialect False (siIndexes info) [] = Inr m1"
      "populateIndexMap (siTable info) dialect True (siUnique info) m1 = Inr m"
    by (auto simp: model_indexes_def)
  moreover have "named_map (gm_set n v m)" if "n \<noteq> []" "ixName v = n" "named_map m" for n v m
    using that by (auto simp: named_map_def distinct_gm_set dest: gm_set_members)
  moreover have "named_map []" by (simp add: named_map_def)
  ultimately show ?thesis by (metis populateIndexMap_inv[where P = named_map])
qed

lemma concat_pairs_Nil: "concat (map g xs) = [] \<longleftrightarrow> (\<forall>a b. (a, b) \<in> set xs \<longrightarrow> g (a, b) = [])"
  by auto

lemma add_columns_Nil:
  "add_columns info dialect typeMap dbCols = [] \<longleftrightarrow> (\<forall>col. gm_get (target_columns info) col \<noteq> None \<longrightarrow> gm_get dbCols col \<noteq> None)"
  unfolding add_columns_def concat_pairs_Nil in_target by (auto simp: Let_def)

lemma drop_columns_Nil:
  "drop_columns info dialect (db_columns ti) = [] \<longleftrightarrow>
     (\<forall>col. gm_get (db_columns ti) col \<noteq> None \<longrightarrow> gm_get (target_columns info) col \<noteq> None)"
  unfolding drop_columns_def concat_pairs_Nil in_db_columns by auto

lemma change_columns_Nil:
  "change_columns info dialect typeMap dbCols = [] \<longleftrightarrow>
     (\<forall>col f c. gm_get (target_columns info) col = Some f \<longrightarrow> gm_get dbCols col = Some c \<longrightarrow>
        ciDataType c = sql_type typeMap f \<and> ciPrimary c = (col = siPk info))"
  unfolding change_columns_def concat_pairs_Nil in_target by (auto split: option.split)

lemma both_ways: "((\<forall>c. \<not> P c \<longrightarrow> \<not> Q c) \<and> (\<forall>c. \<not> Q c \<longrightarrow> \<not> P c) \<and> R) = ((\<forall>c. P c = Q c) \<and> R)"
  by blast

lemma add_sql_nonempty [simp]: "add_sql sql sqls \<noteq> []"
  by (auto simp: add_sql_def)

text \<open>A loop that only appends ends with nothing exactly when it starts with nothing and no round appends.\<close>

lemma foldl_Nil_iff:
  assumes "\<And>sqls x. F sqls x = [] \<longleftrightarrow> sqls = [] \<and> ok x"
  shows "foldl F sqls xs = [] \<longleftrightarrow> sqls = [] \<and> (\<forall>x \<in> set xs. ok x)"
  by (induction xs arbitrary: sqls) (auto simp: assms)

lemma add_index_Nil:
  "add_index tab dialect dbIdx sqls e = [] \<longleftrightarrow>
     sqls = [] \<and> (\<exists>d. gm_get dbIdx (fst e) = Some d \<and> same_index (snd e) d)"
  by (auto simp: add_index_def Let_def split: prod.splits option.splits)

lemma find_SomeD: "find P xs = Some x \<Longrightarrow> x \<in> set xs \<and> P x"
  by (induction xs) (auto split: if_splits)

lemma drop_index_Nil:
  assumes "named_map modelIdx"
  shows "drop_index tab dialect modelIdx sqls e = [] \<longleftrightarrow>
     sqls = [] \<and> (gm_get modelIdx (fst e) \<noteq> None \<or> (\<exists>n m. gm_get modelIdx n = Some m \<and> same_index m (snd e)))"
proof (cases "gm_get modelIdx (fst e)")
  case None
  have mem: "(n, m) \<in> set modelIdx \<longleftrightarrow> gm_get modelIdx n = Some m" for n m
    using assms by (simp add: named_map_def)
  show ?thesis
  proof (cases "find (\<lambda>(_, m). same_index m (snd e)) modelIdx")
    case (Some nm)
    then have nm: "gm_get modelIdx (fst nm) = Some (snd nm)" "same_index (snd nm) (snd e)"
      using find_SomeD[OF Some] mem[of "fst nm" "snd nm"] by (simp_all add: case_prod_unfold)
    then have "fst nm \<noteq> []" "fst nm \<noteq> fst e" using nm None assms unfolding named_map_def by (metis option.distinct(1))+
    then show ?thesis using None Some nm by (cases nm; cases e) (auto simp: drop_index_def)
  next
    case no: None
    then have "\<not> same_index m (snd e)" if "gm_get modelIdx n = Some m" for n m
      using that mem by (fastforce simp: find_None_iff)
    then show ?thesis using None no by (cases e) (auto simp: drop_index_def)
  qed
qed (auto simp: drop_index_def split: prod.splits)

lemma alter_iff:
  assumes "gm_get TypeMapping dialect = Some typeMap" and "model_indexes info dialect = Inr modelIdx"
  shows "GenerateAlterTableSQL info ti dialect = Inr [] \<longleftrightarrow> columns_current info typeMap ti \<and> indexes_current modelIdx ti"
proof -
  have named: "named_map modelIdx" using model_indexes_named[OF assms(2)] .
  then have mem: "(n, m) \<in> set modelIdx \<longleftrightarrow> gm_get modelIdx n = Some m" for n m by (simp add: named_map_def)
  let ?sqls = "add_columns info dialect typeMap (db_columns ti) @ drop_columns info dialect (db_columns ti)
    @ change_columns info dialect typeMap (db_columns ti)"
  let ?sqls1 = "foldl (add_index (siTable info) dialect (db_indexes ti)) ?sqls modelIdx"
  have "GenerateAlterTableSQL info ti dialect = Inr (foldl (drop_index (siTable info) dialect modelIdx) ?sqls1 (db_indexes ti))"
    using assms by (auto simp: GenerateAlterTableSQL_def model_indexes_def Let_def)
  then have "GenerateAlterTableSQL info ti dialect = Inr [] \<longleftrightarrow>
      ?sqls1 = [] \<and> (\<forall>e \<in> set (db_indexes ti). gm_get modelIdx (fst e) \<noteq> None \<or> (\<exists>n m. gm_get modelIdx n = Some m \<and> same_index m (snd e)))"
    by (simp only: sum.inject foldl_Nil_iff[OF drop_index_Nil[OF named]])
  also have "?sqls1 = [] \<longleftrightarrow> ?sqls = [] \<and> (\<forall>e \<in> set modelIdx. \<exists>d. gm_get (db_indexes ti) (fst e) = Some d \<and> same_index (snd e) d)"
    by (simp only: foldl_Nil_iff[OF add_index_Nil])
  also have "?sqls = [] \<longleftrightarrow> columns_current info typeMap ti"
    unfolding append_is_Nil_conv add_columns_Nil drop_columns_Nil change_columns_Nil columns_current_def both_ways ..
  finally show ?thesis by (auto simp: indexes_current_def mem in_db_indexes Ball_def)
qed


section \<open>A created table is up to date\<close>

definition column_of :: "schema_info \<Rightarrow> (string, string) gomap \<Rightarrow> column_field \<Rightarrow> ColumnInfo" where
  "column_of info typeMap f = \<lparr>ciName = cfColumn f, ciDataType = sql_type typeMap f, ciNullable = cfEmbedded f,
     ciPrimary = (cfColumn f = siPk info), ciUniqueCol = False, ciDefault = cfDefault f\<rparr>"

text \<open>The indexes the CREATE statements of a model make.\<close>

definition merged_indexes :: "schema_info \<Rightarrow> string \<Rightarrow> (string, IndexInfo) gomap go_result" where
  "merged_indexes info dialect =
     bindE (populateMergedMap (siTable info) dialect False (siIndexes info) []) (populateMergedMap (siTable info) dialect True (siUnique info))"

text \<open>The table the CREATE statements make, as an introspector that reports the declared types sees it.\<close>

definition created_table :: "schema_info \<Rightarrow> string \<Rightarrow> TableInfo" where
  "created_table info dialect =
     (let typeMap = (case gm_get TypeMapping dialect of Some m \<Rightarrow> m | None \<Rightarrow> [])
      in \<lparr>tiName = siTable info, tiColumns = map (column_of info typeMap) (siFields info),
          tiIndexes = (case merged_indexes info dialect of Inl _ \<Rightarrow> [] | Inr m \<Rightarrow> map snd m), tiPrimaryKey = siPk info\<rparr>)"

definition names_of :: "string \<Rightarrow> bool \<Rightarrow> IndexInfo list \<Rightarrow> string list" where
  "names_of tab unique ids = concat (map (\<lambda>idx. case index_name tab unique idx of None \<Rightarrow> [] | Some n \<Rightarrow> [n]) ids)"

definition index_names :: "schema_info \<Rightarrow> string list" where
  "index_names info = names_of (siTable info) False (siIndexes info) @ names_of (siTable info) True (siUnique info)"

text \<open>Where no two indexes share a name, the maps of CREATE and ALTER are the same.\<close>

lemma maps_agree:
  "distinct (names_of tab unique ids) \<Longrightarrow> (\<forall>n \<in> set (names_of tab unique ids). gm_get m n = None) \<Longrightarrow>
     populateIndexMap tab dialect unique ids m = populateMergedMap tab dialect unique ids m"
proof (induction ids arbitrary: m)
  case (Cons idx ids)
  show ?case
  proof (cases "index_name tab unique idx")
    case None
    then show ?thesis using Cons.IH[of m] Cons.prems by (simp add: names_of_def)
  next
    case (Some n)
    have "gm_get m n = None" "n \<notin> set (names_of tab unique ids)" "distinct (names_of tab unique ids)"
        "\<forall>n \<in> set (names_of tab unique ids). gm_get m n = None"
      using Cons.prems Some by (simp_all add: names_of_def)
    moreover from this have "populateIndexMap tab dialect unique ids (gm_set n v m) = populateMergedMap tab dialect unique ids (gm_set n v m)" for v
      by (intro Cons.IH) auto
    ultimately show ?thesis using Some Cons.IH[of m] by simp
  qed
qed simp

lemma populateMergedMap_names:
  "populateMergedMap tab dialect unique ids m = Inr m' \<Longrightarrow> gm_get m' n \<noteq> None \<Longrightarrow>
     gm_get m n \<noteq> None \<or> n \<in> set (names_of tab unique ids)"
proof (induction ids arbitrary: m)
  case (Cons idx ids)
  then show ?case by (fastforce simp: names_of_def split: if_splits option.splits)
qed simp

lemma merged_is_model:
  assumes "distinct (index_names info)"
  shows "model_indexes info dialect = merged_indexes info dialect"
proof -
  have one: "populateIndexMap (siTable info) dialect False (siIndexes info) [] = populateMergedMap (siTable info) dialect False (siIndexes info) []"
    using assms by (intro maps_agree) (auto simp: index_names_def)
  moreover have "populateIndexMap (siTable info) dialect True (siUnique info) m = populateMergedMap (siTable info) dialect True (siUnique info) m"
    if "populateMergedMap (siTable info) dialect False (siIndexes info) [] = Inr m" for m
  proof (rule maps_agree)
    show "distinct (names_of (siTable info) True (siUnique info))" using assms by (simp add: index_names_def)
    show "\<forall>n \<in> set (names_of (siTable info) True (siUnique info)). gm_get m n = None"
      using assms populateMergedMap_names[OF that] by (fastforce simp: index_names_def)
  qed
  ultimately show ?thesis
    by (cases "populateMergedMap (siTable info) dialect False (siIndexes info) []") (simp_all add: model_indexes_def merged_indexes_def)
qed

lemma merged_names: "merged_indexes info dialect = Inr m \<Longrightarrow> gm_get m n \<noteq> None \<Longrightarrow> n \<in> set (index_names info)"
  by (auto simp: merged_indexes_def index_names_def dest!: populateMergedMap_names)

lemma get_fold_map:
  "gm_get m' col = map_option g (gm_get m col) \<Longrightarrow> (\<And>x. k' (g x) = k x) \<Longrightarrow>
     gm_get (foldl (\<lambda>m c. gm_set (k' c) c m) m' (map g xs)) col = map_option g (gm_get (foldl (\<lambda>m x. gm_set (k x) x m) m xs) col)"
  by (induction xs arbitrary: m m') auto

lemma get_fold_snd:
  "distinct (map fst m) \<Longrightarrow> (\<forall>(n, idx) \<in> set m. ixName idx = n) \<Longrightarrow>
     gm_get (foldl (\<lambda>m idx. gm_set (ixName idx) (g idx) m) m0 (map snd m)) n =
       (case gm_get m n of Some idx \<Rightarrow> Some (g idx) | None \<Rightarrow> gm_get m0 n)"
proof (induction m arbitrary: m0)
  case (Cons e m)
  then have "gm_get m (fst e) = None" by (cases e) (auto simp: map_of_eq_None_iff image_iff)
  then show ?case using Cons by (cases e) (auto split: option.splits)
qed simp

lemma same_index_sorted: "same_index idx (sort_columns idx)"
  by (simp add: same_index_def sort_columns_def equalStringSlice_def indexWherePresenceMatches_def sort_key_id_if_sorted)

lemma target_column_name: "gm_get (target_columns info) col = Some f \<Longrightarrow> cfColumn f = col"
proof -
  have "gm_get (foldl (\<lambda>m f. gm_set (cfColumn f) f m) m fs) col = Some f \<Longrightarrow> gm_get m col = Some f \<or> cfColumn f = col" for m fs
    by (induction fs arbitrary: m) (force split: if_splits)+
  then show "gm_get (target_columns info) col = Some f \<Longrightarrow> cfColumn f = col" by (force simp: target_columns_def)
qed

lemma gm_get_TypeMapping_merged:
  assumes "GenerateCreateTableSQL info dialect = Inr sql"
  obtains typeMap m where "gm_get TypeMapping dialect = Some typeMap" "merged_indexes info dialect = Inr m"
  using assms by (auto simp: GenerateCreateTableSQL_def merged_indexes_def Let_def split: option.splits)

text \<open>A table with the columns of the model, their types and key, and the indexes of its CREATE statements needs no change.\<close>

lemma table_like_current:
  assumes tm: "gm_get TypeMapping dialect = Some typeMap" and m: "merged_indexes info dialect = Inr m"
    and "distinct (index_names info)" and "list_all (\<lambda>n. \<not> has_prefix n ''sqlite_autoindex_'') (index_names info)"
    and cols: "tiColumns ti = map g (siFields info)"
      "\<And>f. ciName (g f) = cfColumn f" "\<And>f. ciDataType (g f) = sql_type typeMap f" "\<And>f. ciPrimary (g f) = (cfColumn f = siPk info)"
    and ids: "distinct (map ixName (tiIndexes ti))" "set (tiIndexes ti) = snd ` set m"
  shows "GenerateAlterTableSQL info ti dialect = Inr []"
proof -
  have mi: "model_indexes info dialect = Inr m" using merged_is_model[OF assms(3)] m by simp
  then have named: "named_map m" by (rule model_indexes_named)
  have "gm_get (db_columns ti) col = map_option g (gm_get (target_columns info) col)" for col
    unfolding db_columns_def target_columns_def cols(1) by (rule get_fold_map) (simp_all add: cols(2))
  then have "columns_current info typeMap ti" by (auto simp: columns_current_def cols(3,4) dest: target_column_name)
  moreover have all: "filter (\<lambda>idx. \<not> has_prefix (ixName idx) ''sqlite_autoindex_'') (tiIndexes ti) = tiIndexes ti"
    using named merged_names[OF m] assms(4) ids(2) by (fastforce simp: named_map_def list_all_iff filter_id_conv)
  let ?m = "map (\<lambda>idx. (ixName idx, idx)) (tiIndexes ti)"
  have d: "distinct (map fst ?m)" using ids(1) by (simp add: o_def)
  have key: "(ixName (snd e), snd e) = e" if "e \<in> set m" for e using that named by (cases e) (auto simp: named_map_def)
  have "set ?m = (\<lambda>e. (ixName (snd e), snd e)) ` set m" by (simp add: ids(2) image_image)
  then have same: "set ?m = set m" using image_cong[OF refl key, of "set m"] by simp
  have "distinct (map fst m)" using named by (simp add: named_map_def)
  with same have "gm_get ?m = gm_get m" using map_of_inject_set[OF d] by blast
  then have "gm_get (db_indexes ti) n = map_option sort_columns (gm_get m n)" for n
    using get_fold_snd[of ?m sort_columns "[]" n] d by (cases "gm_get m n") (simp_all add: db_indexes_def all o_def)
  then have "indexes_current m ti" by (auto simp: indexes_current_def same_index_sorted)
  ultimately show ?thesis using alter_iff[OF tm mi] by simp
qed

text \<open>
  A table made by the statements of \<open>GenerateCreateTableSQL\<close> needs no change: when no two indexes of
  the model share a name and none has a name SQLite reserves, \<open>GenerateAlterTableSQL\<close> on that table emits nothing.
\<close>

theorem created_table_current:
  assumes "GenerateCreateTableSQL info dialect = Inr sql" and "distinct (index_names info)"
    and "list_all (\<lambda>n. \<not> has_prefix n ''sqlite_autoindex_'') (index_names info)"
  shows "GenerateAlterTableSQL info (created_table info dialect) dialect = Inr []"
proof (rule gm_get_TypeMapping_merged[OF assms(1)])
  fix typeMap m assume tm: "gm_get TypeMapping dialect = Some typeMap" "merged_indexes info dialect = Inr m"
  show ?thesis
  proof (rule table_like_current[OF tm assms(2,3), where g = "column_of info typeMap"])
    have "named_map m" using model_indexes_named merged_is_model[OF assms(2)] tm(2) by metis
    then have m: "map ixName (map snd m) = map fst m" "distinct (map fst m)" by (auto simp: named_map_def)
    have ids: "tiIndexes (created_table info dialect) = map snd m" by (simp add: created_table_def tm)
    show "distinct (map ixName (tiIndexes (created_table info dialect)))" unfolding ids m(1) by (rule m(2))
  qed (simp_all add: created_table_def column_of_def tm)
qed

theorem created_table_current_witness:
  "\<exists>info. compute_info account_type = Inr info \<and> siIndexes info \<noteq> [] \<and>
     GenerateAlterTableSQL info (created_table info ''sqlite'') ''sqlite'' = Inr []"
proof -
  have run: "case compute_info account_type of Inl _ \<Rightarrow> False | Inr info \<Rightarrow> siIndexes info \<noteq> [] \<and>
     (case GenerateCreateTableSQL info ''sqlite'' of Inl _ \<Rightarrow> False | Inr sql \<Rightarrow>
        distinct (index_names info) \<and> list_all (\<lambda>n. \<not> has_prefix n ''sqlite_autoindex_'') (index_names info))"
    by code_simp
  then obtain info sql where "compute_info account_type = Inr info" "siIndexes info \<noteq> []" "GenerateCreateTableSQL info ''sqlite'' = Inr sql"
      "distinct (index_names info)" "list_all (\<lambda>n. \<not> has_prefix n ''sqlite_autoindex_'') (index_names info)"
    by (auto split: sum.splits)
  with created_table_current[of info "''sqlite''" sql] show ?thesis by blast
qed

definition empty_table :: "string \<Rightarrow> TableInfo" where
  "empty_table name = \<lparr>tiName = name, tiColumns = [], tiIndexes = [], tiPrimaryKey = []\<rparr>"


text \<open>A type spelt in lower case, as PostgreSQL's catalogue reports it, differs from the model's on every run.\<close>

lemma lower_case_type_altered:
  assumes "gm_get (target_columns info) col = Some f" and "gm_get (db_columns ti) col = Some c" and "ciDataType c = ''bigint''"
    and "sql_type typeMap f = ''BIGINT''"
  shows "''ALTER TABLE '' @ siTable info @ '' ALTER COLUMN '' @ col @ '' TYPE BIGINT'' \<in>
     set (change_columns info ''postgres'' typeMap (db_columns ti))"
proof -
  have "(col, f) \<in> set (target_columns info)" using assms(1) by (simp add: in_target)
  then show ?thesis unfolding change_columns_def set_concat set_map
    by (rule UN_I[OF imageI]) (simp add: assms(2-4))
qed

section \<open>No column is dropped unasked\<close>

definition drops_column :: "string \<Rightarrow> bool" where
  "drops_column sql = str_contains (to_upper sql) ''DROP COLUMN''"

lemma exec_alters_keeps:
  assumes "\<And>d sql. P d \<Longrightarrow> \<not> drops_column sql \<Longrightarrow> P (snd (mgExec mg d sql))"
  shows "P d \<Longrightarrow> P (snd (exec_alters mg False sqls d))"
proof (induction sqls arbitrary: d)
  case (Cons sql sqls)
  then show ?case using assms[of d sql]
    by (cases "mgExec mg d sql") (auto simp: drops_column_def split: sum.splits)
qed simp

lemma migrate_table_keeps:
  assumes "\<And>d sql. P d \<Longrightarrow> \<not> drops_column sql \<Longrightarrow> P (snd (mgExec mg d sql))"
    and "\<And>d info sql. P d \<Longrightarrow> introspectTable mg d (siTable info) (mgDialect mg) = Inr None \<Longrightarrow>
      GenerateCreateTableSQL info (mgDialect mg) = Inr sql \<Longrightarrow> P (snd (mgExec mg d sql))"
    and "P d"
  shows "P (snd (migrate_table mg False info d))"
proof (cases "introspectTable mg d (siTable info) (mgDialect mg)")
  case (Inr found)
  show ?thesis
  proof (cases found)
    case None
    then have "P (snd (mgExec mg d sql))" if "GenerateCreateTableSQL info (mgDialect mg) = Inr sql" for sql
      using assms(2)[OF assms(3) _ that] Inr by simp
    then show ?thesis using Inr None assms(3) by (force simp: migrate_table_def split: sum.splits prod.splits)
  next
    case (Some ti)
    then show ?thesis using Inr assms(3) exec_alters_keeps[of P mg, OF assms(1,3)]
      by (cases "GenerateAlterTableSQL info ti (mgDialect mg)") (simp_all add: migrate_table_def)
  qed
qed (simp add: migrate_table_def assms(3))

text \<open>
  C34: Unless \<open>AllowDropColumn\<close> is set, \<open>AutoMigrate\<close> drops no column of an existing table: whatever is kept by
  the statements that do not drop a column, and by the creation of tables that are not there, holds when it is done,
  on errors too.
\<close>

theorem no_column_dropped:
  assumes "\<And>d sql. P d \<Longrightarrow> \<not> drops_column sql \<Longrightarrow> P (snd (mgExec mg d sql))"
    and "\<And>d info sql. P d \<Longrightarrow> introspectTable mg d (siTable info) (mgDialect mg) = Inr None \<Longrightarrow>
      GenerateCreateTableSQL info (mgDialect mg) = Inr sql \<Longrightarrow> P (snd (mgExec mg d sql))"
    and "P d"
  shows "P (snd (snd (AutoMigrate (Some mg) False tys cache d)))"
  using assms(3)
proof (induction tys arbitrary: cache d)
  case (Cons ty tys)
  show ?case
  proof (cases "GetCachedModelInfo cache ty")
    case (Pair r c)
    show ?thesis
    proof (cases r)
      case (Inr info)
      have "P (snd (migrate_table mg False info d))" using migrate_table_keeps[of P mg, OF assms(1,2) Cons.prems] .
      then show ?thesis using Cons.IH Pair Inr by (auto split: prod.splits sum.splits)
    qed (use Pair Cons.prems in simp)
  qed
qed simp

text \<open>A database that logs the statements it executes and whose table has one column the model lacks.\<close>

definition legacy_table :: TableInfo where
  "legacy_table = \<lparr>tiName = ''user_accounts'', tiColumns =
     [\<lparr>ciName = ''legacy'', ciDataType = ''TEXT'', ciNullable = True, ciPrimary = False, ciUniqueCol = False, ciDefault = None\<rparr>],
     tiIndexes = [], tiPrimaryKey = []\<rparr>"

definition logging_db :: "string list migrator" where
  "logging_db = RegisterIntrospectorFactory ''sqlite'' (\<lambda>d name. Inr (Some legacy_table))
     \<lparr>mgDialect = ''sqlite'', mgFactories = [], mgExec = (\<lambda>d sql. (Inr (), d @ [sql]))\<rparr>"

theorem no_column_dropped_witness:
  "fst (AutoMigrate (Some logging_db) False [account_type] [] []) = Inr () \<and>
     snd (snd (AutoMigrate (Some logging_db) False [account_type] [] [])) \<noteq> [] \<and>
     list_ex drops_column (snd (snd (AutoMigrate (Some logging_db) True [account_type] [] []))) \<and>
     list_all (\<lambda>sql. \<not> drops_column sql) (snd (snd (AutoMigrate (Some logging_db) False [account_type] [] [])))"
proof -
  have "list_all (\<lambda>sql. \<not> drops_column sql) (snd (snd (AutoMigrate (Some logging_db) False [account_type] [] [])))"
    by (rule no_column_dropped[where P = "list_all (\<lambda>sql. \<not> drops_column sql)"])
      (simp_all add: logging_db_def RegisterIntrospectorFactory_def introspectTable_def)
  moreover have "fst (AutoMigrate (Some logging_db) False [account_type] [] []) = Inr ()" by code_simp
  moreover have "snd (snd (AutoMigrate (Some logging_db) False [account_type] [] [])) \<noteq> []" by code_simp
  moreover have "list_ex drops_column (snd (snd (AutoMigrate (Some logging_db) True [account_type] [] [])))" by code_simp
  ultimately show ?thesis by blast
qed

section \<open>Defaults are literals\<close>

text \<open>Reading a string literal back: the characters between the quotes, a doubled quote for a quote.\<close>

fun read_literal :: "string \<Rightarrow> string option" where
  "read_literal [] = None"
| "read_literal [c] = (if c = CHR 0x27 then Some [] else None)"
| "read_literal (c # e # s) =
     (if c = CHR 0x27 then (if e = CHR 0x27 then map_option (Cons c) (read_literal s) else None)
      else map_option (Cons c) (read_literal (e # s)))"

lemma read_literal_body:
  "read_literal (concat (map (\<lambda>c. if c = CHR 0x27 then [CHR 0x27, CHR 0x27] else [c]) s) @ [CHR 0x27]) = Some s"
proof (induction s)
  case (Cons c s)
  then show ?case
    by (cases "concat (map (\<lambda>c. if c = CHR 0x27 then [CHR 0x27, CHR 0x27] else [c]) s) @ [CHR 0x27]") auto
qed simp

lemma string_default_literal:
  "\<exists>body. formatDefaultValueForSQL s ''string'' dialect = Inr (CHR 0x27 # body) \<and> read_literal body = Some s"
  using read_literal_body by (simp add: formatDefaultValueForSQL_def sql_literal_def)

end
