(* ===== verification/Db_Scan.thy ===== *)
theory Db_Scan
  imports Schema_Meta
begin

text \<open>
  From rows to values: \<^verbatim>\<open>internal/dbscan/scan.go\<close>, and \<open>Rows.Scan\<close> of \<open>database/sql\<close> as it uses it.

  The result of a query is its columns, the values of its rows as the driver delivers them, and the error of the
  iteration, if any. The text of floating point numbers and times is the function \<open>text\<close>. A struct is a
  model, the flat list of its fields by name; a field that holds a nil interface is of interface type.
\<close>

section \<open>Assignment of a driver value\<close>

fun as_string :: "(goval \<Rightarrow> string) \<Rightarrow> goval \<Rightarrow> string" where
  "as_string text (VString s) = s"
| "as_string text (VInt _ i) = format_int i"
| "as_string text (VUint _ i) = format_int i"
| "as_string text (VBool b) = (if b then ''true'' else ''false'')"
| "as_string text (VSlice t vs) =
     (if t = TUint S8 then bytes_of_slice (case vs of None \<Rightarrow> [] | Some xs \<Rightarrow> xs) else text (VSlice t vs))"
| "as_string text v = text v"

definition bytes_value :: "string \<Rightarrow> goval" where
  "bytes_value s = VSlice (TUint S8) (Some (map (\<lambda>c. VUint S8 (int (of_char c))) s))"

definition ParseBool :: "string \<Rightarrow> bool option" where
  "ParseBool s =
     (if s \<in> {''1'', ''t'', ''T'', ''TRUE'', ''true'', ''True''} then Some True
      else if s \<in> {''0'', ''f'', ''F'', ''FALSE'', ''false'', ''False''} then Some False else None)"

definition bool_value :: "goval \<Rightarrow> bool option" where
  "bool_value v =
     (case v of
        VBool b \<Rightarrow> Some b
      | VString s \<Rightarrow> ParseBool s
      | VSlice t vs \<Rightarrow> if t = TUint S8 then ParseBool (bytes_of_slice (case vs of None \<Rightarrow> [] | Some xs \<Rightarrow> xs)) else None
      | VInt _ i \<Rightarrow> if i = 1 then Some True else if i = 0 then Some False else None
      | VUint _ i \<Rightarrow> if i = 1 then Some True else if i = 0 then Some False else None
      | _ \<Rightarrow> None)"

definition parse_uint :: "string \<Rightarrow> nat \<Rightarrow> int option" where
  "parse_uint s bits = (case parse_digits s of Some n \<Rightarrow> if n < 2 ^ bits then Some (int n) else None | None \<Rightarrow> None)"

definition parse_sized :: "string \<Rightarrow> isize \<Rightarrow> int option" where
  "parse_sized s sz = (case parse_int s of Some i \<Rightarrow> if wrap_int sz i = i then Some i else None | None \<Rightarrow> None)"

text \<open>\<open>convertAssign\<close>: the driver value \<open>src\<close> for a destination of type \<open>ty\<close>.\<close>

fun convertAssign :: "(goval \<Rightarrow> string) \<Rightarrow> gotype \<Rightarrow> goval \<Rightarrow> goval go_result" where
  "convertAssign text TIface src = Inr src"
| "convertAssign text TString src =
     (case src of
        VNil \<Rightarrow> Inl (Errorf ''converting NULL to string is unsupported'')
      | VPtr _ _ \<Rightarrow> Inl (Errorf ''unsupported Scan'')
      | _ \<Rightarrow> Inr (VString (as_string text src)))"
| "convertAssign text (TSlice t) src =
     (if t = TUint S8 then
        (case src of
           VNil \<Rightarrow> Inr (VSlice (TUint S8) None)
         | VPtr _ _ \<Rightarrow> Inl (Errorf ''unsupported Scan'')
         | VSlice u vs \<Rightarrow> if u = TUint S8 then Inr src else Inl (Errorf ''unsupported Scan'')
         | _ \<Rightarrow> Inr (bytes_value (as_string text src)))
      else if type_of src = Some (TSlice t) then Inr src else Inl (Errorf ''unsupported Scan''))"
| "convertAssign text TBool src = (case bool_value src of Some b \<Rightarrow> Inr (VBool b) | None \<Rightarrow> Inl (Errorf ''could not convert into type bool''))"
| "convertAssign text TTime src = (if type_of src = Some TTime then Inr src else Inl (Errorf ''unsupported Scan''))"
| "convertAssign text (TPtr t) src =
     (if type_of src = Some (TPtr t) then Inr src
      else if src = VNil then Inr (VPtr t None)
      else bindE (convertAssign text t src) (\<lambda>v. Inr (VPtr t (Some v))))"
| "convertAssign text (TInt sz) src =
     (if type_of src = Some (TInt sz) then Inr src
      else if src = VNil then Inl (Errorf ''converting NULL to int is unsupported'')
      else case parse_sized (as_string text src) sz of Some i \<Rightarrow> Inr (VInt sz i) | None \<Rightarrow> Inl (Errorf ''converting driver.Value type''))"
| "convertAssign text (TUint sz) src =
     (if type_of src = Some (TUint sz) then Inr src
      else if src = VNil then Inl (Errorf ''converting NULL to uint is unsupported'')
      else case parse_uint (as_string text src) (width sz) of Some i \<Rightarrow> Inr (VUint sz i) | None \<Rightarrow> Inl (Errorf ''converting driver.Value type''))"
| "convertAssign text (TFloat fs) src =
     (if type_of src = Some (TFloat fs) then Inr src
      else if src = VNil then Inl (Errorf ''converting NULL to float is unsupported'')
      else case parse_float (as_string text src) of Some f \<Rightarrow> Inr (VFloat fs (resize_float fs f)) | None \<Rightarrow> Inl (Errorf ''converting driver.Value type''))"

section \<open>Columns and fields\<close>

definition isEmbeddedStruct :: "go_field \<Rightarrow> bool" where
  "isEmbeddedStruct f \<longleftrightarrow> fieldAnonymous f \<and> kind_string (fieldType f) = ''struct'' \<and> type_string (fieldType f) \<noteq> ''time.Time''"

definition scan_column :: "go_field \<Rightarrow> string" where
  "scan_column f =
     (let column = (if dbTag f \<noteq> [] then hd (split_on CHR '','' (dbTag f)) else [])
      in if column = [] then to_lower (fieldName f) else column)"

text \<open>The direct fields, with their paths below \<open>prefix\<close>.\<close>

definition direct_entries :: "go_field list \<Rightarrow> (string \<times> nat list) list" where
  "direct_entries fs =
     concat (map (\<lambda>(i, f). if \<not> fieldExported f \<or> isEmbeddedStruct f \<or> dbTag f = ''-'' then [] else [(scan_column f, [i])]) (enumerate 0 fs))"

abbreviation set_all :: "(string \<times> nat list) list \<Rightarrow> (string, nat list) gomap \<Rightarrow> (string, nat list) gomap" where
  "set_all es m \<equiv> foldl (\<lambda>m (c, p). gm_set c p m) m es"

text \<open>First the fields of embedded structs, then the direct fields, which replace them.\<close>

fun embedded_indexes :: "go_field list \<Rightarrow> nat \<Rightarrow> (string, nat list) gomap \<Rightarrow> (string, nat list) gomap"
  and embedded_field :: "go_field \<Rightarrow> nat \<Rightarrow> (string, nat list) gomap \<Rightarrow> (string, nat list) gomap" where
  "embedded_indexes [] i m = m"
| "embedded_indexes (f # fs) i m = embedded_indexes fs (Suc i) (embedded_field f i m)"
| "embedded_field (GoField n t db diff anon exported) i m =
     (if \<not> exported \<or> \<not> isEmbeddedStruct (GoField n t db diff anon exported) then m
      else case t of
        Plain _ _ \<Rightarrow> m
      | Struct _ _ fs \<Rightarrow> set_all (map (\<lambda>(c, p). (c, i # p)) (set_all (direct_entries fs) (embedded_indexes fs 0 []))) m)"

definition buildFieldIndexes :: "go_field list \<Rightarrow> (string, nat list) gomap" where
  "buildFieldIndexes fs = set_all (direct_entries fs) (embedded_indexes fs 0 [])"

text \<open>The cache of field indexes, by the name of the type.\<close>

definition getFieldIndexes ::
  "(string, (string, nat list) gomap) gomap \<Rightarrow> struct_type \<Rightarrow> (string, nat list) gomap \<times> (string, (string, nat list) gomap) gomap" where
  "getFieldIndexes cache ty =
     (case gm_get cache (stName ty) of
        Some indexes \<Rightarrow> (indexes, cache)
      | None \<Rightarrow> (let indexes = buildFieldIndexes (stFields ty) in (indexes, gm_set (stName ty) indexes cache)))"

text \<open>The destination of a column: the name of a field, or \<open>None\<close> for bytes that are thrown away.\<close>

definition PrepareScanDest :: "go_field list \<Rightarrow> string list \<Rightarrow> string option list" where
  "PrepareScanDest fs cols =
     map (\<lambda>col. case gm_get (buildFieldIndexes fs) col of
         None \<Rightarrow> None
       | Some path \<Rightarrow> map_option fieldName (field_at fs path)) cols"

fun IsBasicType :: "gotype \<Rightarrow> bool" where
  "IsBasicType TBool = True"
| "IsBasicType (TInt _) = True"
| "IsBasicType (TUint _) = True"
| "IsBasicType (TFloat _) = True"
| "IsBasicType TString = True"
| "IsBasicType TTime = True"
| "IsBasicType (TSlice t) = (t = TUint S8)"
| "IsBasicType (TPtr t) = IsBasicType t"
| "IsBasicType TIface = False"

section \<open>Scanning a row\<close>

record sql_rows =
  rowsCols :: "string list go_result"
  rowsVals :: "goval list list"
  rowsErr :: "unit go_result"

definition dest_type :: "gomodel \<Rightarrow> string \<Rightarrow> gotype" where
  "dest_type m f = (case FieldByName m f of Some v \<Rightarrow> (case type_of v of Some t \<Rightarrow> t | None \<Rightarrow> TIface) | None \<Rightarrow> TIface)"

fun assign_row :: "(goval \<Rightarrow> string) \<Rightarrow> string option list \<Rightarrow> goval list \<Rightarrow> gomodel \<Rightarrow> gomodel go_result" where
  "assign_row text (Some f # dests) (v # vs) m =
     bindE (convertAssign text (dest_type m f) v) (\<lambda>x. assign_row text dests vs (AList.update f x m))"
| "assign_row text (None # dests) (v # vs) m = assign_row text dests vs m"
| "assign_row text _ _ m = Inr m"

definition scan_struct :: "(goval \<Rightarrow> string) \<Rightarrow> string option list \<Rightarrow> goval list \<Rightarrow> gomodel \<Rightarrow> gomodel go_result" where
  "scan_struct text dests vs m =
     (if length dests \<noteq> length vs then Inl (Errorf ''sql: wrong number of destination arguments in Scan'') else assign_row text dests vs m)"

definition scan_basic :: "(goval \<Rightarrow> string) \<Rightarrow> gotype \<Rightarrow> goval list \<Rightarrow> goval go_result" where
  "scan_basic text ty vs =
     (case vs of [v] \<Rightarrow> convertAssign text ty v | _ \<Rightarrow> Inl (Errorf ''sql: wrong number of destination arguments in Scan''))"

section \<open>The columns of the metadata are scanned into their fields\<close>

text \<open>
  A tag for which metadata and scanning name the same column: the first part is no default, and a field without a name
  in its tag has one word, so that snake case is lower case.
\<close>

definition scan_tag :: "go_field \<Rightarrow> bool" where
  "scan_tag f \<longleftrightarrow>
     (let first = hd (split_on CHR '','' (dbTag f)) in
      \<not> has_prefix (to_lower (trim_space first)) ''default:'' \<and>
      (first = [] \<longrightarrow> ToSnakeCase (fieldName f) = to_lower (fieldName f)))"

text \<open>Every field has such a tag; the only embedded struct is \<open>BaseModel\<close>, exported and with no struct embedded in it.\<close>

definition scan_field_ok :: "go_field \<Rightarrow> bool" where
  "scan_field_ok f \<longleftrightarrow>
     (if isEmbeddedStruct f then
        fieldName f = ''BaseModel'' \<and> fieldExported f \<and>
        (case fieldType f of Plain _ _ \<Rightarrow> False | Struct _ n fs \<Rightarrow> n = ''BaseModel'' \<and> list_all (\<lambda>g. \<not> fieldAnonymous g \<and> scan_tag g) fs)
      else \<not> fieldAnonymous f \<and> scan_tag f)"

definition base_entries :: "nat \<Rightarrow> go_field \<Rightarrow> (string \<times> nat list) list" where
  "base_entries i f =
     (case fieldType f of
        Struct _ _ fs \<Rightarrow> if isEmbeddedStruct f \<and> fieldExported f then map (\<lambda>(c, p). (c, i # p)) (direct_entries fs) else []
      | Plain _ _ \<Rightarrow> [])"

text \<open>All columns scanning knows, and the fields they lead to.\<close>

definition scan_entries :: "go_field list \<Rightarrow> (string \<times> nat list) list" where
  "scan_entries fs = concat (map (\<lambda>(i, f). base_entries i f) (enumerate 0 fs)) @ direct_entries fs"

lemma set_all_append: "distinct (map fst (m @ es)) \<Longrightarrow> set_all es m = m @ es"
proof (induction es arbitrary: m)
  case (Cons e es)
  have "gm_set (fst e) (snd e) m = m @ [e]" if "fst e \<notin> fst ` set m"
    using that by (induction m) (auto split: if_splits)
  then show ?case using Cons.IH[of "m @ [e]"] Cons.prems by (cases e) auto
qed simp

lemma distinct_prefixed: "distinct (map fst (map (\<lambda>(c, p). (c, (i :: nat) # p)) es)) \<longleftrightarrow> distinct (map fst es)"
  by (simp add: o_def case_prod_unfold)

lemma no_embedded: "list_all (\<lambda>g. \<not> fieldAnonymous g \<and> scan_tag g) gs \<Longrightarrow> embedded_indexes gs i m = m"
proof (induction gs arbitrary: i m)
  case (Cons g gs)
  then have "embedded_field g i m = m" by (cases g) (simp add: isEmbeddedStruct_def)
  then show ?case using Cons by simp
qed simp

lemma embedded_field_entries:
  assumes "scan_field_ok f" and "distinct (map fst (m @ base_entries i f))"
  shows "embedded_field f i m = m @ base_entries i f"
proof (cases f)
  case (GoField n ty db diff anon ex)
  show ?thesis
  proof (cases "ex \<and> isEmbeddedStruct f")
    case True
    then obtain s gs where ty: "ty = Struct s ''BaseModel'' gs" and gs: "list_all (\<lambda>g. \<not> fieldAnonymous g \<and> scan_tag g) gs"
      using assms(1) GoField by (cases ty) (auto simp: scan_field_ok_def)
    have b: "base_entries i f = map (\<lambda>(c, p). (c, i # p)) (direct_entries gs)" using True unfolding GoField ty by (auto simp: base_entries_def)
    then have "distinct (map fst (direct_entries gs))" using assms(2) distinct_prefixed[of i "direct_entries gs"] by simp
    then have "set_all (direct_entries gs) (embedded_indexes gs 0 []) = direct_entries gs"
      using set_all_append[of "[]" "direct_entries gs"] no_embedded[OF gs, of 0 "[]"] by simp
    then show ?thesis using True set_all_append[OF assms(2)] b unfolding GoField ty by auto
  next
    case False
    then show ?thesis using GoField by (auto simp: base_entries_def split: go_type.splits)
  qed
qed

lemma embedded_entries:
  "list_all scan_field_ok fs \<Longrightarrow> distinct (map fst (m @ concat (map (\<lambda>(i, f). base_entries i f) (enumerate i fs)))) \<Longrightarrow>
   embedded_indexes fs i m = m @ concat (map (\<lambda>(i, f). base_entries i f) (enumerate i fs))"
proof (induction fs arbitrary: i m)
  case (Cons f fs)
  then have "embedded_field f i m = m @ base_entries i f" by (intro embedded_field_entries) auto
  then show ?case using Cons.IH[of "m @ base_entries i f" "Suc i"] Cons.prems by simp
qed simp

lemma index_entries:
  assumes "list_all scan_field_ok fs" and "distinct (map fst (scan_entries fs))"
  shows "buildFieldIndexes fs = scan_entries fs"
proof -
  have "embedded_indexes fs 0 [] = concat (map (\<lambda>(i, f). base_entries i f) (enumerate 0 fs))"
    using embedded_entries[OF assms(1), of "[]" 0] assms(2) by (simp add: scan_entries_def)
  then show ?thesis using set_all_append[OF assms(2)[unfolded scan_entries_def]] by (simp add: buildFieldIndexes_def scan_entries_def)
qed

lemma parse_db_tag_parts:
  "tag \<noteq> [] \<Longrightarrow> fst (parse_db_tag tag) = filter (\<lambda>p. \<not> has_prefix (to_lower (trim_space p)) ''default:'') (split_on CHR '','' tag)"
proof -
  have "fst (foldl (\<lambda>(parts, dflt) part.
        if has_prefix (to_lower (trim_space part)) ''default:''
        then (parts, Some (unquote (trim_prefix (trim_space part) ''default:'')))
        else (parts @ [part], dflt)) acc ps) = fst acc @ filter (\<lambda>p. \<not> has_prefix (to_lower (trim_space p)) ''default:'') ps" for acc ps
    by (induction ps arbitrary: acc) (auto split: prod.splits)
  then show "tag \<noteq> [] \<Longrightarrow> ?thesis" by (simp add: parse_db_tag_def)
qed

lemma aggregate_field_stored:
  assumes "parse_db_tag (dbTag f) = (parts, dflt)"
  shows "msFields (aggregate_field ix e f st) =
    (if (parts \<noteq> [] \<and> hd parts = ''-'') \<or> \<not> fieldExported f then msFields st
     else msFields st @ [\<lparr>cfGoName = fieldName f,
       cfColumn = (let named = (if parts = [] then [] else hd parts) in if named = [] then ToSnakeCase (fieldName f) else named),
       cfIndex = ix, cfKind = kind_string (fieldType f), cfType = type_string (fieldType f), cfEmbedded = e,
       cfIgnore = (diffTag f = ''-''), cfDefault = dflt\<rparr>])"
  using assms by (simp add: aggregate_field_def Let_def)

lemma first_part:
  assumes "scan_tag f" and "parse_db_tag (dbTag f) = (parts, dflt)"
  shows "(if parts = [] then [] else hd parts) = (if dbTag f = [] then [] else hd (split_on CHR '','' (dbTag f)))"
proof (cases "dbTag f = []")
  case False
  then have "parts = filter (\<lambda>p. \<not> has_prefix (to_lower (trim_space p)) ''default:'') (split_on CHR '','' (dbTag f))"
    using parse_db_tag_parts assms(2) by (metis fst_conv)
  then show ?thesis using assms(1) False by (cases "split_on CHR '','' (dbTag f)") (auto simp: scan_tag_def)
qed (use assms in \<open>simp add: parse_db_tag_def\<close>)

lemma aggregate_column:
  assumes "scan_tag f" and "c \<in> set (msFields (aggregate_field ix e f st))"
  shows "c \<in> set (msFields st) \<or>
    cfColumn c = scan_column f \<and> cfIndex c = ix \<and> cfGoName c = fieldName f \<and> fieldExported f \<and> dbTag f \<noteq> ''-''"
proof -
  obtain parts dflt where pt: "parse_db_tag (dbTag f) = (parts, dflt)" by (cases "parse_db_tag (dbTag f)")
  note named = first_part[OF assms(1) pt]
  have snake: "hd (split_on CHR '','' (dbTag f)) = [] \<Longrightarrow> ToSnakeCase (fieldName f) = to_lower (fieldName f)"
    using assms(1) by (simp add: scan_tag_def Let_def)
  have "dbTag f = [] \<Longrightarrow> hd (split_on CHR '','' (dbTag f)) = []" by simp
  with named snake have col: "(let named = (if parts = [] then [] else hd parts) in if named = [] then ToSnakeCase (fieldName f) else named) = scan_column f"
    by (simp only: Let_def scan_column_def) (simp split: if_splits)
  have "dbTag f = ''-'' \<Longrightarrow> parts \<noteq> [] \<and> hd parts = ''-''" using named by (simp split: if_splits)
  then show ?thesis using assms(2) unfolding aggregate_field_stored[OF pt] col by (auto split: if_splits)
qed

lemma direct_entriesI:
  "j < length fs \<Longrightarrow> fieldExported (fs ! j) \<Longrightarrow> \<not> isEmbeddedStruct (fs ! j) \<Longrightarrow> dbTag (fs ! j) \<noteq> ''-'' \<Longrightarrow>
   (scan_column (fs ! j), [j]) \<in> set (direct_entries fs)"
  by (force simp: direct_entries_def in_set_enumerate_eq)

text \<open>A stored field is one that scanning knows by the same column, path and name.\<close>

definition scanned :: "go_field list \<Rightarrow> column_field \<Rightarrow> bool" where
  "scanned fs c \<longleftrightarrow> (cfColumn c, cfIndex c) \<in> set (scan_entries fs) \<and> map_option fieldName (field_at fs (cfIndex c)) = Some (cfGoName c)"

definition base_scanned :: "nat \<Rightarrow> go_field list \<Rightarrow> column_field \<Rightarrow> bool" where
  "base_scanned i gs c \<longleftrightarrow> (\<exists>j < length gs. cfIndex c = [i, j] \<and> cfGoName c = fieldName (gs ! j) \<and> (cfColumn c, [j]) \<in> set (direct_entries gs))"

lemma base_fields_scanned:
  assumes "list_all (\<lambda>g. \<not> fieldAnonymous g \<and> scan_tag g) (pre @ gs)"
    and "c \<in> set (msFields (foldl (\<lambda>s (j, f). aggregate_field [i, j] True f s) st (enumerate (length pre) gs)))"
  shows "c \<in> set (msFields st) \<or> base_scanned i (pre @ gs) c"
  using assms
proof (induction gs arbitrary: pre st)
  case (Cons g gs)
  let ?st = "aggregate_field [i, length pre] True g st"
  from Cons.IH[of "pre @ [g]" ?st] Cons.prems
  have "c \<in> set (msFields ?st) \<or> base_scanned i (pre @ g # gs) c" by simp
  moreover have "base_scanned i (pre @ g # gs) c" if new: "c \<in> set (msFields ?st)" "c \<notin> set (msFields st)"
  proof -
    have g: "scan_tag g" "\<not> isEmbeddedStruct g" using Cons.prems(1) by (simp_all add: isEmbeddedStruct_def)
    from aggregate_column[OF g(1) new(1)] new(2) have c: "cfColumn c = scan_column g" "cfIndex c = [i, length pre]"
      "cfGoName c = fieldName g" "fieldExported g" "dbTag g \<noteq> ''-''" by auto
    with direct_entriesI[of "length pre" "pre @ g # gs"] g(2)
    have "(cfColumn c, [length pre]) \<in> set (direct_entries (pre @ g # gs))" by simp
    with c show ?thesis unfolding base_scanned_def by (intro exI[of _ "length pre"]) simp
  qed
  ultimately show ?case by blast
qed simp

lemma base_entriesI:
  assumes "base_scanned i gs c" and "i < length fs" and "isEmbeddedStruct (fs ! i)" and "fieldExported (fs ! i)"
    and "fieldType (fs ! i) = Struct s n gs"
  shows "scanned fs c"
proof -
  from assms(1) obtain j where j: "j < length gs" "cfIndex c = [i, j]" "cfGoName c = fieldName (gs ! j)"
    "(cfColumn c, [j]) \<in> set (direct_entries gs)" by (auto simp: base_scanned_def)
  have "(cfColumn c, [i, j]) \<in> set (base_entries i (fs ! i))" using j(4) assms by (force simp: base_entries_def)
  moreover have "(i, fs ! i) \<in> set (enumerate 0 fs)" using assms(2) by (simp add: in_set_enumerate_eq)
  ultimately have "(cfColumn c, [i, j]) \<in> set (scan_entries fs)" by (force simp: scan_entries_def)
  with j assms show ?thesis by (simp add: scanned_def)
qed

lemma processField_scanned:
  assumes "list_all scan_field_ok (pre @ f # fs)" and "c \<in> set (msFields (processField f (length pre) e st))"
  shows "c \<in> set (msFields st) \<or> scanned (pre @ f # fs) c"
proof -
  obtain n t db diff anon ex where f: "f = GoField n t db diff anon ex" by (cases f)
  have ok: "scan_field_ok f" using assms(1) by simp
  show ?thesis
  proof (cases "isEmbeddedStruct f")
    case True
    then obtain s gs where t: "t = Struct s ''BaseModel'' gs" "n = ''BaseModel''" "ex" "anon" and gs: "list_all (\<lambda>g. \<not> fieldAnonymous g \<and> scan_tag g) gs"
      using ok f by (cases t) (auto simp: scan_field_ok_def isEmbeddedStruct_def)
    then have "c \<in> set (msFields (foldl (\<lambda>s (j, f). aggregate_field [length pre, j] True f s) st (enumerate 0 gs)))"
      using assms(2) f by (simp add: kind_string_def type_name_def)
    from base_fields_scanned[of "[]" gs, simplified, OF gs this]
    show ?thesis using base_entriesI[of "length pre" gs c "pre @ f # fs" s "''BaseModel''"] True f t by auto
  next
    case False
    then have g: "\<not> fieldAnonymous f" "scan_tag f" using ok by (auto simp: scan_field_ok_def)
    then have "msFields (processField f (length pre) e st) = msFields (aggregate_field [length pre] e f st)" using f by simp
    with aggregate_column[OF g(2), of c "[length pre]" e st] assms(2)
    have "c \<in> set (msFields st) \<or> cfColumn c = scan_column f \<and> cfIndex c = [length pre] \<and> cfGoName c = fieldName f \<and> fieldExported f \<and> dbTag f \<noteq> ''-''"
      by simp
    then show ?thesis using direct_entriesI[of "length pre" "pre @ f # fs"] False by (auto simp: scanned_def scan_entries_def)
  qed
qed

lemma processFields_scanned:
  "list_all scan_field_ok (pre @ fs) \<Longrightarrow> c \<in> set (msFields (processFields fs (length pre) e st)) \<Longrightarrow> c \<in> set (msFields st) \<or> scanned (pre @ fs) c"
proof (induction fs arbitrary: pre st)
  case (Cons f fs)
  from Cons.IH[of "pre @ [f]" "processField f (length pre) e st"] Cons.prems
  have "c \<in> set (msFields (processField f (length pre) e st)) \<or> scanned (pre @ f # fs) c" by simp
  then show ?case using processField_scanned[OF Cons.prems(1)] by blast
qed simp

text \<open>Every column of the metadata of a type is scanned into the field the metadata has for it.\<close>

lemma scan_dest_fields:
  assumes "compute_info ty = Inr info" and "list_all scan_field_ok (stFields ty)" and "distinct (map fst (scan_entries (stFields ty)))"
  shows "PrepareScanDest (stFields ty) (Columns (model_info info)) = map Some (FieldNames (model_info info))"
proof -
  have "scanned (stFields ty) c" if "c \<in> set (siFields info)" for c
    using processFields_scanned[of "[]" "stFields ty" c False "\<lparr>isIndexes = [], isUnique = [], isComposite = [], msFields = [], msPk = []\<rparr>"] that assms(2)
      compute_info_fields(1)[OF assms(1)] by simp
  then have "gm_get (buildFieldIndexes (stFields ty)) (cfColumn c) = Some (cfIndex c) \<and>
      map_option fieldName (field_at (stFields ty) (cfIndex c)) = Some (cfGoName c)" if "c \<in> set (siFields info)" for c
    using that index_entries[OF assms(2,3)] assms(3) by (simp add: scanned_def)
  then show ?thesis by (simp add: PrepareScanDest_def model_info_def)
qed

section \<open>A stored model is scanned back\<close>

text \<open>
  \<open>driver_value\<close>: the value \<open>database/sql\<close> hands a driver for a field, all integers 64 bits wide, pointers
  followed. \<open>storable v\<close>: a value in the range of its type, an unsigned one below \<open>2 ^ 63\<close>, no pointer
  to a pointer, no nil bytes, no 32 bit floating point number.
\<close>

fun driver_value :: "goval \<Rightarrow> goval" where
  "driver_value (VInt _ i) = VInt S64 i"
| "driver_value (VUint _ i) = VInt S64 i"
| "driver_value (VFloat _ f) = VFloat F64 f"
| "driver_value (VPtr _ None) = VNil"
| "driver_value (VPtr _ (Some v)) = driver_value v"
| "driver_value v = v"

definition in_range :: "isize \<Rightarrow> int \<Rightarrow> bool" where
  "in_range s i \<longleftrightarrow> - (2 ^ (width s - 1)) \<le> i \<and> i < 2 ^ (width s - 1)"

definition in_urange :: "isize \<Rightarrow> int \<Rightarrow> bool" where
  "in_urange s i \<longleftrightarrow> 0 \<le> i \<and> i < 2 ^ width s \<and> i < 2 ^ 63"

fun storable :: "goval \<Rightarrow> bool" where
  "storable (VInt s i) = in_range s i"
| "storable (VUint s i) = in_urange s i"
| "storable (VFloat fs _) = (fs = F64)"
| "storable (VPtr _ None) = True"
| "storable (VPtr t (Some v)) = (type_of v = Some t \<and> kind_of v \<noteq> KPtr \<and> storable v)"
| "storable (VSlice t vs) = (t = TUint S8 \<and> vs \<noteq> None)"
| "storable v = (v \<noteq> VNil)"

lemma parse_sized_format:
  assumes "in_range s i"
  shows "parse_sized (format_int i) s = Some i"
proof -
  have "in_int64 i" using assms by (cases s) (simp_all add: in_range_def in_int64_def min_int64_def max_int64_def)
  then show ?thesis using assms parse_int_format_int[of i] wrap_int_id[of s i] by (simp add: parse_sized_def in_range_def)
qed

lemma parse_uint_format: "in_urange s i \<Longrightarrow> parse_uint (format_int i) (width s) = Some i"
  by (auto simp: parse_uint_def in_urange_def format_int_def nat_less_iff)

lemma driver_value_plain: "storable v \<Longrightarrow> kind_of v \<noteq> KPtr \<Longrightarrow> driver_value v \<noteq> VNil \<and> kind_of (driver_value v) \<noteq> KPtr"
  by (cases v) auto

lemma convertAssign_plain: "storable v \<Longrightarrow> kind_of v \<noteq> KPtr \<Longrightarrow> type_of v = Some t \<Longrightarrow> convertAssign text t (driver_value v) = Inr v"
  by (cases v) (auto simp: parse_sized_format parse_uint_format bool_value_def)

lemma convertAssign_driver:
  assumes "storable v" and "type_of v = Some t"
  shows "convertAssign text t (driver_value v) = Inr v"
proof (cases v)
  case (VPtr u x)
  show ?thesis
  proof (cases x)
    case (Some y)
    then have y: "storable y" "kind_of y \<noteq> KPtr" "type_of y = Some u" using assms(1) VPtr by simp_all
    note d = driver_value_plain[OF y(1,2)]
    then have "type_of (driver_value y) \<noteq> Some (TPtr u)" by (cases "driver_value y") auto
    then show ?thesis using d convertAssign_plain[OF y, of "text"] assms(2) VPtr Some by auto
  qed (use assms VPtr in auto)
qed (use convertAssign_plain[OF assms(1) _ assms(2)] in auto)

definition has_storable :: "gomodel \<Rightarrow> gomodel \<Rightarrow> string \<Rightarrow> bool" where
  "has_storable z m f =
     (case (FieldByName z f, FieldByName m f) of
        (Some t0, Some v) \<Rightarrow> storable v \<and> type_of t0 = type_of v
      | _ \<Rightarrow> False)"

definition stored_row :: "gomodel \<Rightarrow> string list \<Rightarrow> goval list" where
  "stored_row m fs = map (\<lambda>f. case FieldByName m f of Some v \<Rightarrow> driver_value v | None \<Rightarrow> VNil) fs"

lemma assign_row_back:
  assumes "list_all (has_storable z m) fs" and "distinct fs"
  shows "\<exists>m'. assign_row text (map Some fs) (stored_row m fs) z = Inr m' \<and>
    (\<forall>f. FieldByName m' f = (if f \<in> set fs then FieldByName m f else FieldByName z f))"
  using assms
proof (induction fs arbitrary: z)
  case (Cons f fs)
  then obtain t0 t v where f: "FieldByName z f = Some t0" "FieldByName m f = Some v" "type_of t0 = Some t" "type_of v = Some t" "storable v"
    by (cases "FieldByName z f"; cases "FieldByName m f"; cases "type_of (the (FieldByName m f))") (auto simp: has_storable_def elim: storable.elims)
  let ?z = "AList.update f v z"
  have "list_all (has_storable ?z m) fs" using Cons.prems by (auto simp: list_all_iff has_storable_def update_conv')
  from Cons.IH[OF this] Cons.prems(2) obtain m' where m': "assign_row text (map Some fs) (stored_row m fs) ?z = Inr m'"
    "\<And>g. FieldByName m' g = (if g \<in> set fs then FieldByName m g else FieldByName ?z g)" by auto
  have "assign_row text (map Some (f # fs)) (stored_row m (f # fs)) z = Inr m'"
    using m'(1) f convertAssign_driver[OF f(5,4)] by (simp add: stored_row_def dest_type_def)
  then show ?case using m'(2) f(2) by (auto simp: update_conv')
qed (simp add: stored_row_def)

text \<open>
  C13: a stored model is scanned back. For a struct type whose metadata was computed, with a tag that names its columns,
  no struct embedded but \<open>BaseModel\<close> and no two fields for one column or of one name, scanning the row of a model's
  stored values under the columns of the metadata into a zero value of the type restores every stored field, at its own
  width and through its pointer, and leaves the other fields alone.
\<close>

theorem row_round_trip:
  assumes "compute_info ty = Inr info" and "list_all scan_field_ok (stFields ty)" and "distinct (map fst (scan_entries (stFields ty)))"
    and "distinct (FieldNames (model_info info))" and "list_all (has_storable z m) (FieldNames (model_info info))"
  shows "\<exists>m'. scan_struct text (PrepareScanDest (stFields ty) (Columns (model_info info))) (stored_row m (FieldNames (model_info info))) z = Inr m' \<and>
    (\<forall>f. FieldByName m' f = (if f \<in> set (FieldNames (model_info info)) then FieldByName m f else FieldByName z f))"
  using assign_row_back[OF assms(5,4), of "text"] unfolding scan_dest_fields[OF assms(1-3)]
  by (simp add: scan_struct_def stored_row_def)

definition note_type :: struct_type where
  "note_type = \<lparr>stName = ''Note'', stFields =
     [GoField ''BaseModel'' base_model_type [] [] True True,
      GoField ''Title'' (Plain ''string'' ''string'') [] [] False True,
      GoField ''Views'' (Plain ''uint16'' ''uint16'') ''views,default:0'' [] False True,
      GoField ''Score'' (Plain ''*int8'' ''ptr'') ''score'' [] False True,
      GoField ''Draft'' (Plain ''string'' ''string'') ''-'' [] False True],
     stTableName = None, stIndexes = None, stKeepItem = (Some False, Some False), stKeepItemFields = (Some False, Some False)\<rparr>"

definition note_zero :: gomodel where
  "note_zero = [(''ID'', VInt S64 0), (''CreatedAt'', VTime 0 0), (''UpdatedAt'', VTime 0 0), (''Deleted'', VBool False), (''isNewRecord'', VBool False),
     (''Title'', VString []), (''Views'', VUint S16 0), (''Score'', VPtr (TInt S8) None), (''Draft'', VString [])]"

definition note_model :: gomodel where
  "note_model = [(''ID'', VInt S64 7), (''CreatedAt'', VTime 5 0), (''UpdatedAt'', VTime 6 0), (''Deleted'', VBool True), (''isNewRecord'', VBool True),
     (''Title'', VString ''a''), (''Views'', VUint S16 65535), (''Score'', VPtr (TInt S8) (Some (VInt S8 (-128)))), (''Draft'', VString ''b'')]"

theorem row_round_trip_witness:
  "\<exists>info m'. compute_info note_type = Inr info \<and>
     FieldNames (model_info info) = [''ID'', ''CreatedAt'', ''UpdatedAt'', ''Deleted'', ''Title'', ''Views'', ''Score''] \<and>
     scan_struct (\<lambda>_. []) (PrepareScanDest (stFields note_type) (Columns (model_info info)))
       [VInt S64 7, VTime 5 0, VTime 6 0, VBool True, VString ''a'', VInt S64 65535, VInt S64 (-128)] note_zero = Inr m' \<and>
     FieldByName m' ''Score'' = Some (VPtr (TInt S8) (Some (VInt S8 (-128)))) \<and> FieldByName m' ''Draft'' = Some (VString [])"
proof -
  have run: "case compute_info note_type of Inl _ \<Rightarrow> False | Inr info \<Rightarrow>
      FieldNames (model_info info) = [''ID'', ''CreatedAt'', ''UpdatedAt'', ''Deleted'', ''Title'', ''Views'', ''Score'']" by code_simp
  have ok: "list_all scan_field_ok (stFields note_type)" "distinct (map fst (scan_entries (stFields note_type)))" by code_simp+
  obtain info where i: "compute_info note_type = Inr info" using run by (cases "compute_info note_type") auto
  then have names: "FieldNames (model_info info) = [''ID'', ''CreatedAt'', ''UpdatedAt'', ''Deleted'', ''Title'', ''Views'', ''Score'']" using run by simp
  have d: "distinct (FieldNames (model_info info))" unfolding names by simp
  have st: "list_all (has_storable note_zero note_model) (FieldNames (model_info info))" unfolding names by code_simp
  have row: "stored_row note_model (FieldNames (model_info info)) =
      [VInt S64 7, VTime 5 0, VTime 6 0, VBool True, VString ''a'', VInt S64 65535, VInt S64 (-128)]" unfolding names by code_simp
  from row_round_trip[OF i ok d st, of "\<lambda>_. []"] obtain m' where m': "scan_struct (\<lambda>_. []) (PrepareScanDest (stFields note_type) (Columns (model_info info)))
       (stored_row note_model (FieldNames (model_info info))) note_zero = Inr m'"
    "\<And>f. FieldByName m' f = (if f \<in> set (FieldNames (model_info info)) then FieldByName note_model f else FieldByName note_zero f)" by blast
  have "FieldByName m' ''Score'' = Some (VPtr (TInt S8) (Some (VInt S8 (-128))))" "FieldByName m' ''Draft'' = Some (VString [])"
    unfolding m'(2) names by (simp_all add: note_model_def note_zero_def)
  with i names m'(1) row show ?thesis by metis
qed

text \<open>A field of several words without a tag is stored under one column and scanned from another.\<close>

lemma untagged_words_lost:
  "\<exists>info. compute_info account_type = Inr info \<and> last (Columns (model_info info)) = ''zip_code'' \<and>
     last (PrepareScanDest (stFields account_type) (Columns (model_info info))) = None"
proof -
  have "case compute_info account_type of Inl _ \<Rightarrow> False | Inr info \<Rightarrow> last (Columns (model_info info)) = ''zip_code'' \<and>
     last (PrepareScanDest (stFields account_type) (Columns (model_info info))) = None" by code_simp
  then show ?thesis by (auto split: sum.splits)
qed

end
