(* ===== verification/Db_Adapters.thy ===== *)
theory Db_Adapters
  imports Db_Scan Crud
begin

text \<open>
  The database adapters: \<^verbatim>\<open>drivers/db/postgres/postgres.go\<close>, \<^verbatim>\<open>drivers/db/mysql/mysql.go\<close> and
  \<^verbatim>\<open>drivers/db/sqlite/sqlite.go\<close>, over \<open>database/sql\<close>.

  A pool and an open transaction both run queries and statements; what a server makes of them is a parameter, a function
  on a state \<open>'s\<close>, as is the text of floating point numbers and times. Closing rows does not fail. A destination is
  what reflection finds of it: a pointer to a struct, whose fields are \<open>fs\<close>, or a pointer to a slice of structs or
  of values of a plain type, or neither; a slice is appended to. Each method names itself in its errors.
\<close>

section \<open>database/sql\<close>

record 's sql_conn =
  QueryContext :: "'s \<Rightarrow> string \<Rightarrow> goval list \<Rightarrow> sql_rows go_result \<times> 's"
  ExecContext :: "'s \<Rightarrow> string \<Rightarrow> goval list \<Rightarrow> exec_result go_result \<times> 's"

record 's sql_db =
  poolConn :: "'s sql_conn"
  txConn :: "'s sql_conn"
  sqlPing :: "'s \<Rightarrow> unit go_result \<times> 's"
  sqlPool :: "nat \<Rightarrow> nat \<Rightarrow> 's \<Rightarrow> 's"
  sqlClose :: "'s \<Rightarrow> unit go_result \<times> 's"
  sqlBegin :: "'s \<Rightarrow> unit go_result \<times> 's"
  sqlCommit :: "'s \<Rightarrow> unit go_result \<times> 's"
  sqlRollback :: "'s \<Rightarrow> unit go_result \<times> 's"

definition ErrNoRows :: goerror where
  "ErrNoRows = Errorf ''sql: no rows in result set''"

definition ErrTxDone :: goerror where
  "ErrTxDone = Errorf ''sql: transaction has already been committed or rolled back''"

text \<open>\<open>QueryRowContext\<close>, and \<open>Row.Scan\<close> of its first row into an \<open>int64\<close>.\<close>

definition row_int :: "(goval \<Rightarrow> string) \<Rightarrow> sql_rows \<Rightarrow> int go_result" where
  "row_int text rows =
     (case rowsVals rows of
        [] \<Rightarrow> (case rowsErr rows of Inl e \<Rightarrow> Inl e | Inr _ \<Rightarrow> Inl ErrNoRows)
      | vs # _ \<Rightarrow> bindE (scan_basic text (TInt S64) vs) (\<lambda>v. case v of VInt _ i \<Rightarrow> Inr i | _ \<Rightarrow> Inl (Errorf ''unsupported Scan'')))"

definition query_int :: "(goval \<Rightarrow> string) \<Rightarrow> 's sql_conn \<Rightarrow> string \<Rightarrow> goval list \<Rightarrow> 's \<Rightarrow> int go_result \<times> 's" where
  "query_int text c query vals s =
     (case QueryContext c s query vals of (Inl e, s') \<Rightarrow> (Inl e, s') | (Inr rows, s') \<Rightarrow> (row_int text rows, s'))"

section \<open>Reading one struct\<close>

datatype get_dest = StructPtr "go_field list" gomodel | OtherDest

fun get_rows :: "(goval \<Rightarrow> string) \<Rightarrow> string \<Rightarrow> string option list \<Rightarrow> goval list list \<Rightarrow> nat \<Rightarrow> gomodel \<Rightarrow> (gomodel \<times> nat) go_result" where
  "get_rows text site dests [] rowCount m = Inr (m, rowCount)"
| "get_rows text site dests (vs # rest) rowCount m =
     (if rowCount + 1 > 1 then Inl (Errorf (site @ '' error: expected 1 row, got multiple''))
      else case scan_struct text dests vs m of
        Inl e \<Rightarrow> Inl (Wrapped (site @ '' scan error'') e)
      | Inr m' \<Rightarrow> get_rows text site dests rest (rowCount + 1) m')"

definition get_scan :: "(goval \<Rightarrow> string) \<Rightarrow> string \<Rightarrow> get_dest \<Rightarrow> sql_rows \<Rightarrow> gomodel go_result" where
  "get_scan text site dest rows =
     (case rowsCols rows of
        Inl e \<Rightarrow> Inl (Wrapped (site @ '' failed fetching columns'') e)
      | Inr cols \<Rightarrow>
          (case dest of
             OtherDest \<Rightarrow> Inl (Errorf ''get: destination must be a non-nil pointer to a struct'')
           | StructPtr fs m \<Rightarrow>
               bindE (get_rows text site (PrepareScanDest fs cols) (rowsVals rows) 0 m) (\<lambda>(m', rowCount).
                 case rowsErr rows of
                   Inl e \<Rightarrow> Inl (Wrapped (site @ '' rows error'') e)
                 | Inr _ \<Rightarrow> if rowCount = 0 then Inl ErrNotFound else Inr m')))"

definition get_query :: "(goval \<Rightarrow> string) \<Rightarrow> string \<Rightarrow> 's sql_conn \<Rightarrow> get_dest \<Rightarrow> string \<Rightarrow> goval list \<Rightarrow> 's \<Rightarrow> gomodel go_result \<times> 's" where
  "get_query text site c dest query vals s =
     (case QueryContext c s query vals of
        (Inl e, s') \<Rightarrow> (Inl (Wrapped (site @ '' query error'') e), s')
      | (Inr rows, s') \<Rightarrow> (get_scan text site dest rows, s'))"

section \<open>Reading a slice\<close>

datatype elem_type = StructElem "go_field list" gomodel | PlainElem gotype
datatype elem = ModelElem gomodel | ValueElem goval
datatype select_dest = SlicePtr elem_type "elem list" | NotSlicePtr

definition scannable :: "elem_type \<Rightarrow> bool" where
  "scannable ty = (case ty of StructElem _ _ \<Rightarrow> True | PlainElem t \<Rightarrow> IsBasicType t)"

text \<open>One row, as a new element.\<close>

definition scan_elem :: "(goval \<Rightarrow> string) \<Rightarrow> elem_type \<Rightarrow> string list \<Rightarrow> goval list \<Rightarrow> elem go_result" where
  "scan_elem text ty cols vs =
     (case ty of
        PlainElem t \<Rightarrow> bindE (scan_basic text t vs) (\<lambda>v. Inr (ValueElem v))
      | StructElem fs zero \<Rightarrow> bindE (scan_struct text (PrepareScanDest fs cols) vs zero) (\<lambda>m. Inr (ModelElem m)))"

fun select_rows :: "(goval \<Rightarrow> string) \<Rightarrow> string \<Rightarrow> elem_type \<Rightarrow> string list \<Rightarrow> goval list list \<Rightarrow> elem list \<Rightarrow> elem list go_result" where
  "select_rows text scanError ty cols [] sliceVal = Inr sliceVal"
| "select_rows text scanError ty cols (vs # rest) sliceVal =
     (case scan_elem text ty cols vs of
        Inl e \<Rightarrow> Inl (Wrapped scanError e)
      | Inr x \<Rightarrow> select_rows text scanError ty cols rest (sliceVal @ [x]))"

definition select_scan :: "(goval \<Rightarrow> string) \<Rightarrow> string \<Rightarrow> string \<Rightarrow> elem_type \<Rightarrow> elem list \<Rightarrow> sql_rows \<Rightarrow> elem list go_result" where
  "select_scan text site scanError ty sliceVal rows =
     (case rowsCols rows of
        Inl e \<Rightarrow> Inl (Wrapped (site @ '' failed fetching columns'') e)
      | Inr cols \<Rightarrow>
          if \<not> scannable ty then Inl (Errorf ''select: destination slice element type must be struct, pointer to struct, or basic type'')
          else bindE (select_rows text (site @ scanError) ty cols (rowsVals rows) sliceVal) (\<lambda>xs.
            case rowsErr rows of Inl e \<Rightarrow> Inl (Wrapped (site @ '' rows error'') e) | Inr _ \<Rightarrow> Inr xs))"

definition select_query ::
  "(goval \<Rightarrow> string) \<Rightarrow> string \<Rightarrow> string \<Rightarrow> 's sql_conn \<Rightarrow> select_dest \<Rightarrow> string \<Rightarrow> goval list \<Rightarrow> 's \<Rightarrow> elem list go_result \<times> 's" where
  "select_query text site scanError c dest query vals s =
     (case dest of
        NotSlicePtr \<Rightarrow> (Inl (Errorf ''select: destination must be a pointer to a slice''), s)
      | SlicePtr ty sliceVal \<Rightarrow>
          (case QueryContext c s query vals of
             (Inl e, s') \<Rightarrow> (Inl (Wrapped (site @ '' query error'') e), s')
           | (Inr rows, s') \<Rightarrow> (select_scan text site scanError ty sliceVal rows, s')))"

section \<open>Statements and counts\<close>

definition wrapR :: "string \<Rightarrow> 'a go_result \<times> 's \<Rightarrow> 'a go_result \<times> 's" where
  "wrapR msg r = (case r of (Inl e, s) \<Rightarrow> (Inl (Wrapped msg e), s) | (Inr x, s) \<Rightarrow> (Inr x, s))"

definition exec_query :: "string \<Rightarrow> 's sql_conn \<Rightarrow> string \<Rightarrow> goval list \<Rightarrow> 's \<Rightarrow> exec_result go_result \<times> 's" where
  "exec_query site c query vals s = wrapR (site @ '' ExecContext error'') (ExecContext c s query vals)"

text \<open>A count without a row is zero.\<close>

definition count_query :: "(goval \<Rightarrow> string) \<Rightarrow> string \<Rightarrow> 's sql_conn \<Rightarrow> string \<Rightarrow> goval list \<Rightarrow> 's \<Rightarrow> int go_result \<times> 's" where
  "count_query text site c query vals s =
     (case query_int text c query vals s of
        (Inl e, s') \<Rightarrow> (if errors_is e ErrNoRows then Inr 0 else Inl (Wrapped (site @ '' GetCount scan error'') e), s')
      | (Inr n, s') \<Rightarrow> (Inr n, s'))"

definition count_where :: "string \<Rightarrow> goval list \<Rightarrow> string \<times> goval list" where
  "count_where cond vals = (if cond \<noteq> [] then ExpandInClauses cond vals else (cond, vals))"

section \<open>PostgreSQL\<close>

definition pgNew :: "('s \<Rightarrow> 's sql_db go_result \<times> 's) \<Rightarrow> 's \<Rightarrow> 's sql_db go_result \<times> 's" where
  "pgNew open s =
     (case open s of
        (Inl e, s1) \<Rightarrow> (Inl (Wrapped ''failed to open postgres connection'' e), s1)
      | (Inr db, s1) \<Rightarrow>
          (case sqlPing db s1 of
             (Inl e, s2) \<Rightarrow> (Inl (Wrapped ''failed to ping postgres database'' e), snd (sqlClose db s2))
           | (Inr _, s2) \<Rightarrow> (Inr db, sqlPool db 25 10 s2)))"

definition pgClose :: "'s sql_db option \<Rightarrow> 's \<Rightarrow> unit go_result \<times> 's" where
  "pgClose db s =
     (case db of
        Some db \<Rightarrow> wrapR ''error closing postgres connection'' (sqlClose db s)
      | None \<Rightarrow> (Inl (Errorf ''postgres adapter is nil or already closed''), s))"

definition pgGet :: "(goval \<Rightarrow> string) \<Rightarrow> 's sql_db \<Rightarrow> get_dest \<Rightarrow> string \<Rightarrow> goval list \<Rightarrow> 's \<Rightarrow> gomodel go_result \<times> 's" where
  "pgGet text db dest query vals s = get_query text ''postgres Get'' (poolConn db) dest (Rebind PostgresDialector query) vals s"

definition pgSelect :: "(goval \<Rightarrow> string) \<Rightarrow> 's sql_db \<Rightarrow> select_dest \<Rightarrow> string \<Rightarrow> goval list \<Rightarrow> 's \<Rightarrow> elem list go_result \<times> 's" where
  "pgSelect text db dest query vals s =
     select_query text ''postgres Select'' '' scan error'' (poolConn db) dest (Rebind PostgresDialector query) vals s"

text \<open>An INSERT is made to return the id, unless its text already has the word.\<close>

definition returns_id :: "string \<Rightarrow> bool" where
  "returns_id query \<longleftrightarrow> has_prefix (to_upper (trim_space query)) ''INSERT'' \<and> \<not> str_contains (to_upper query) ''RETURNING''"

definition pg_exec :: "(goval \<Rightarrow> string) \<Rightarrow> string \<Rightarrow> 's sql_conn \<Rightarrow> string \<Rightarrow> goval list \<Rightarrow> 's \<Rightarrow> exec_result go_result \<times> 's" where
  "pg_exec text site c query vals s =
     (if returns_id query
      then case query_int text c (Rebind PostgresDialector query @ '' RETURNING id'') vals s of
          (Inl e, s') \<Rightarrow> (Inl (Wrapped (site @ '' ExecContext error (insert returning)'') e), s')
        | (Inr lastInsertID, s') \<Rightarrow> (Inr \<lparr>LastInsertId = Inr lastInsertID, RowsAffected = 1\<rparr>, s')
      else exec_query site c (Rebind PostgresDialector query) vals s)"

definition pgExec :: "(goval \<Rightarrow> string) \<Rightarrow> 's sql_db \<Rightarrow> string \<Rightarrow> goval list \<Rightarrow> 's \<Rightarrow> exec_result go_result \<times> 's" where
  "pgExec text db = pg_exec text ''postgres'' (poolConn db)"

definition pgGetCount :: "(goval \<Rightarrow> string) \<Rightarrow> 's sql_db \<Rightarrow> string \<Rightarrow> string \<Rightarrow> goval list \<Rightarrow> 's \<Rightarrow> int go_result \<times> 's" where
  "pgGetCount text db tableName cond vals s =
     (if tableName = [] then (Inl (Errorf ''getCount: table name is missing''), s)
      else let (cond', vals') = count_where cond vals
        in count_query text ''postgres'' (poolConn db) (Rebind PostgresDialector (BuildCountSQL PostgresDialector tableName cond')) vals' s)"

definition pgBeginTx :: "'s sql_db \<Rightarrow> 's \<Rightarrow> unit go_result \<times> 's" where
  "pgBeginTx db s = wrapR ''postgres BeginTx error'' (sqlBegin db s)"

definition pgCommit :: "'s sql_db \<Rightarrow> 's \<Rightarrow> unit go_result \<times> 's" where
  "pgCommit db s = wrapR ''postgres Tx Commit error'' (sqlCommit db s)"

text \<open>Rolling back a transaction that is done is no error.\<close>

definition swallow_done :: "string \<Rightarrow> unit go_result \<times> 's \<Rightarrow> unit go_result \<times> 's" where
  "swallow_done msg r =
     (case r of
        (Inl e, s) \<Rightarrow> (if \<not> errors_is e ErrTxDone then Inl (Wrapped msg e) else Inr (), s)
      | (Inr _, s) \<Rightarrow> (Inr (), s))"

definition pgRollback :: "'s sql_db \<Rightarrow> 's \<Rightarrow> unit go_result \<times> 's" where
  "pgRollback db s = swallow_done ''postgres Tx Rollback error'' (sqlRollback db s)"

definition pgTxGet :: "(goval \<Rightarrow> string) \<Rightarrow> 's sql_db \<Rightarrow> get_dest \<Rightarrow> string \<Rightarrow> goval list \<Rightarrow> 's \<Rightarrow> gomodel go_result \<times> 's" where
  "pgTxGet text db dest query vals s = get_query text ''postgres Tx Get'' (txConn db) dest (Rebind PostgresDialector query) vals s"

definition pgTxSelect :: "(goval \<Rightarrow> string) \<Rightarrow> 's sql_db \<Rightarrow> select_dest \<Rightarrow> string \<Rightarrow> goval list \<Rightarrow> 's \<Rightarrow> elem list go_result \<times> 's" where
  "pgTxSelect text db dest query vals s =
     select_query text ''postgres Tx Select'' '' scan error'' (txConn db) dest (Rebind PostgresDialector query) vals s"

definition pgTxExec :: "(goval \<Rightarrow> string) \<Rightarrow> 's sql_db \<Rightarrow> string \<Rightarrow> goval list \<Rightarrow> 's \<Rightarrow> exec_result go_result \<times> 's" where
  "pgTxExec text db = pg_exec text ''postgres Tx'' (txConn db)"

section \<open>MySQL\<close>

definition myNew :: "('s \<Rightarrow> 's sql_db go_result \<times> 's) \<Rightarrow> 's \<Rightarrow> 's sql_db go_result \<times> 's" where
  "myNew open s =
     (case open s of
        (Inl e, s1) \<Rightarrow> (Inl (Wrapped ''failed to open mysql connection'' e), s1)
      | (Inr db, s1) \<Rightarrow>
          (case sqlPing db s1 of
             (Inl e, s2) \<Rightarrow> (Inl (Wrapped ''failed to ping mysql database'' e), snd (sqlClose db s2))
           | (Inr _, s2) \<Rightarrow> (Inr db, sqlPool db 25 10 s2)))"

definition myClose :: "'s sql_db option \<Rightarrow> 's \<Rightarrow> unit go_result \<times> 's" where
  "myClose db s =
     (case db of
        Some db \<Rightarrow> wrapR ''error closing mysql connection'' (sqlClose db s)
      | None \<Rightarrow> (Inl (Errorf ''mysql adapter is nil or already closed''), s))"

definition myGet :: "(goval \<Rightarrow> string) \<Rightarrow> 's sql_db \<Rightarrow> get_dest \<Rightarrow> string \<Rightarrow> goval list \<Rightarrow> 's \<Rightarrow> gomodel go_result \<times> 's" where
  "myGet text db dest query vals s = get_query text ''mysql Get'' (poolConn db) dest query vals s"

definition mySelect :: "(goval \<Rightarrow> string) \<Rightarrow> 's sql_db \<Rightarrow> select_dest \<Rightarrow> string \<Rightarrow> goval list \<Rightarrow> 's \<Rightarrow> elem list go_result \<times> 's" where
  "mySelect text db dest query vals s = select_query text ''mysql Select'' '' scan row error'' (poolConn db) dest query vals s"

definition myExec :: "'s sql_db \<Rightarrow> string \<Rightarrow> goval list \<Rightarrow> 's \<Rightarrow> exec_result go_result \<times> 's" where
  "myExec db query vals s = exec_query ''mysql'' (poolConn db) query vals s"

definition myGetCount :: "(goval \<Rightarrow> string) \<Rightarrow> 's sql_db \<Rightarrow> string \<Rightarrow> string \<Rightarrow> goval list \<Rightarrow> 's \<Rightarrow> int go_result \<times> 's" where
  "myGetCount text db tableName cond vals s =
     (if tableName = [] then (Inl (Errorf ''getCount: table name is missing''), s)
      else let (cond', vals') = count_where cond vals
        in count_query text ''mysql'' (poolConn db) (BuildCountSQL MySQLDialector tableName cond') vals' s)"

definition myBeginTx :: "'s sql_db \<Rightarrow> 's \<Rightarrow> unit go_result \<times> 's" where
  "myBeginTx db s = wrapR ''mysql BeginTx error'' (sqlBegin db s)"

definition myCommit :: "'s sql_db \<Rightarrow> 's \<Rightarrow> unit go_result \<times> 's" where
  "myCommit db s = wrapR ''mysql Tx Commit error'' (sqlCommit db s)"

definition myRollback :: "'s sql_db \<Rightarrow> 's \<Rightarrow> unit go_result \<times> 's" where
  "myRollback db s = swallow_done ''mysql Tx Rollback error'' (sqlRollback db s)"

definition myTxGet :: "(goval \<Rightarrow> string) \<Rightarrow> 's sql_db \<Rightarrow> get_dest \<Rightarrow> string \<Rightarrow> goval list \<Rightarrow> 's \<Rightarrow> gomodel go_result \<times> 's" where
  "myTxGet text db dest query vals s = get_query text ''mysql Tx Get'' (txConn db) dest query vals s"

definition myTxSelect :: "(goval \<Rightarrow> string) \<Rightarrow> 's sql_db \<Rightarrow> select_dest \<Rightarrow> string \<Rightarrow> goval list \<Rightarrow> 's \<Rightarrow> elem list go_result \<times> 's" where
  "myTxSelect text db dest query vals s = select_query text ''mysql Tx Select'' '' scan error'' (txConn db) dest query vals s"

definition myTxExec :: "'s sql_db \<Rightarrow> string \<Rightarrow> goval list \<Rightarrow> 's \<Rightarrow> exec_result go_result \<times> 's" where
  "myTxExec db query vals s = exec_query ''mysql Tx'' (txConn db) query vals s"

section \<open>SQLite\<close>

text \<open>The adapter keeps a flag, \<open>True\<close> when it is closed; a transaction does not look at it.\<close>

definition liteNew :: "('s \<Rightarrow> 's sql_db go_result \<times> 's) \<Rightarrow> 's \<Rightarrow> 's sql_db go_result \<times> bool \<times> 's" where
  "liteNew open s =
     (case open s of
        (Inl e, s1) \<Rightarrow> (Inl (Wrapped ''failed to open sqlite connection'' e), False, s1)
      | (Inr db, s1) \<Rightarrow>
          (case sqlPing db (sqlPool db 25 5 s1) of
             (Inl e, s2) \<Rightarrow> (Inl (Wrapped ''failed to ping sqlite database'' e), False, snd (sqlClose db s2))
           | (Inr _, s2) \<Rightarrow> (Inr db, False, s2)))"

definition when_open :: "('s \<Rightarrow> 'a go_result \<times> 's) \<Rightarrow> bool \<times> 's \<Rightarrow> 'a go_result \<times> bool \<times> 's" where
  "when_open f cs =
     (if fst cs then (Inl (Errorf ''adapter is closed''), cs) else let (r, s) = f (snd cs) in (r, False, s))"

definition liteGet :: "(goval \<Rightarrow> string) \<Rightarrow> 's sql_db \<Rightarrow> get_dest \<Rightarrow> string \<Rightarrow> goval list \<Rightarrow> bool \<times> 's \<Rightarrow> gomodel go_result \<times> bool \<times> 's" where
  "liteGet text db dest query vals = when_open (get_query text ''sqlite Get'' (poolConn db) dest query vals)"

definition liteSelect :: "(goval \<Rightarrow> string) \<Rightarrow> 's sql_db \<Rightarrow> select_dest \<Rightarrow> string \<Rightarrow> goval list \<Rightarrow> bool \<times> 's \<Rightarrow> elem list go_result \<times> bool \<times> 's" where
  "liteSelect text db dest query vals = when_open (select_query text ''sqlite Select'' '' scan error'' (poolConn db) dest query vals)"

definition liteExec :: "'s sql_db \<Rightarrow> string \<Rightarrow> goval list \<Rightarrow> bool \<times> 's \<Rightarrow> exec_result go_result \<times> bool \<times> 's" where
  "liteExec db query vals = when_open (exec_query ''sqlite'' (poolConn db) query vals)"

definition liteGetCount :: "(goval \<Rightarrow> string) \<Rightarrow> 's sql_db \<Rightarrow> string \<Rightarrow> string \<Rightarrow> goval list \<Rightarrow> bool \<times> 's \<Rightarrow> int go_result \<times> bool \<times> 's" where
  "liteGetCount text db tableName cond vals =
     when_open (let (cond', vals') = count_where cond vals
       in count_query text ''sqlite'' (poolConn db) (BuildCountSQL SQLiteDialector tableName cond') vals')"

definition liteBeginTx :: "'s sql_db \<Rightarrow> bool \<times> 's \<Rightarrow> unit go_result \<times> bool \<times> 's" where
  "liteBeginTx db = when_open (\<lambda>s. wrapR ''failed to begin sqlite transaction'' (sqlBegin db s))"

definition liteClose :: "'s sql_db \<Rightarrow> bool \<times> 's \<Rightarrow> unit go_result \<times> bool \<times> 's" where
  "liteClose db cs = (if fst cs then (Inr (), cs) else let (r, s) = sqlClose db (snd cs) in (r, True, s))"

definition in_tx :: "('s \<Rightarrow> 'a go_result \<times> 's) \<Rightarrow> bool \<times> 's \<Rightarrow> 'a go_result \<times> bool \<times> 's" where
  "in_tx f cs = (let (r, s) = f (snd cs) in (r, fst cs, s))"

definition liteTxGet :: "(goval \<Rightarrow> string) \<Rightarrow> 's sql_db \<Rightarrow> get_dest \<Rightarrow> string \<Rightarrow> goval list \<Rightarrow> 's \<Rightarrow> gomodel go_result \<times> 's" where
  "liteTxGet text db dest query vals s = get_query text ''sqlite Tx Get'' (txConn db) dest query vals s"

definition liteTxSelect :: "(goval \<Rightarrow> string) \<Rightarrow> 's sql_db \<Rightarrow> select_dest \<Rightarrow> string \<Rightarrow> goval list \<Rightarrow> 's \<Rightarrow> elem list go_result \<times> 's" where
  "liteTxSelect text db dest query vals s = select_query text ''sqlite Tx Select'' '' scan error'' (txConn db) dest query vals s"

definition liteTxExec :: "'s sql_db \<Rightarrow> string \<Rightarrow> goval list \<Rightarrow> 's \<Rightarrow> exec_result go_result \<times> 's" where
  "liteTxExec db query vals s = exec_query ''sqlite Tx'' (txConn db) query vals s"

definition liteCommit :: "'s sql_db \<Rightarrow> 's \<Rightarrow> unit go_result \<times> 's" where
  "liteCommit db s = wrapR ''sqlite commit error'' (sqlCommit db s)"

definition liteRollback :: "'s sql_db \<Rightarrow> 's \<Rightarrow> unit go_result \<times> 's" where
  "liteRollback db s =
     (case sqlRollback db s of
        (Inl e, s') \<Rightarrow> (Inl (if errors_is e ErrTxDone then e else Wrapped ''sqlite rollback error'' e), s')
      | (Inr _, s') \<Rightarrow> (Inr (), s'))"

section \<open>The adapters as the interface of the ORM\<close>

text \<open>What the callers read from the slice: models, or ids.\<close>

definition elem_model :: "elem \<Rightarrow> gomodel" where
  "elem_model x = (case x of ModelElem m \<Rightarrow> m | ValueElem _ \<Rightarrow> [])"

definition models_of :: "elem list go_result \<times> 's \<Rightarrow> gomodel list go_result \<times> 's" where
  "models_of r = (case r of (Inl e, s) \<Rightarrow> (Inl e, s) | (Inr xs, s) \<Rightarrow> (Inr (map elem_model xs), s))"

definition elem_id :: "elem \<Rightarrow> int" where
  "elem_id x = (case x of ValueElem (VInt _ i) \<Rightarrow> i | _ \<Rightarrow> 0)"

definition ids_of :: "elem list go_result \<times> 's \<Rightarrow> int list go_result \<times> 's" where
  "ids_of r = (case r of (Inl e, s) \<Rightarrow> (Inl e, s) | (Inr xs, s) \<Rightarrow> (Inr (map elem_id xs), s))"

definition pg_adapter :: "(goval \<Rightarrow> string) \<Rightarrow> go_field list \<Rightarrow> 's sql_db \<Rightarrow> 's db_adapter" where
  "pg_adapter text fs db =
     \<lparr>dbDialect = PostgresDialector,
      dbGet = (\<lambda>s m q vals. pgGet text db (StructPtr fs m) q vals s),
      dbSelectModels = (\<lambda>s m q vals. models_of (pgSelect text db (SlicePtr (StructElem fs m) []) q vals s)),
      dbSelectIDs = (\<lambda>s q vals. ids_of (pgSelect text db (SlicePtr (PlainElem (TInt S64)) []) q vals s)),
      dbExec = (\<lambda>s q vals. pgExec text db q vals s),
      dbGetCount = (\<lambda>s t w vals. pgGetCount text db t w vals s),
      dbBeginTx = pgBeginTx db,
      txGet = (\<lambda>s m q vals. pgTxGet text db (StructPtr fs m) q vals s),
      txExec = (\<lambda>s q vals. pgTxExec text db q vals s),
      txCommit = pgCommit db, txRollback = pgRollback db\<rparr>"

definition my_adapter :: "(goval \<Rightarrow> string) \<Rightarrow> go_field list \<Rightarrow> 's sql_db \<Rightarrow> 's db_adapter" where
  "my_adapter text fs db =
     \<lparr>dbDialect = MySQLDialector,
      dbGet = (\<lambda>s m q vals. myGet text db (StructPtr fs m) q vals s),
      dbSelectModels = (\<lambda>s m q vals. models_of (mySelect text db (SlicePtr (StructElem fs m) []) q vals s)),
      dbSelectIDs = (\<lambda>s q vals. ids_of (mySelect text db (SlicePtr (PlainElem (TInt S64)) []) q vals s)),
      dbExec = (\<lambda>s q vals. myExec db q vals s),
      dbGetCount = (\<lambda>s t w vals. myGetCount text db t w vals s),
      dbBeginTx = myBeginTx db,
      txGet = (\<lambda>s m q vals. myTxGet text db (StructPtr fs m) q vals s),
      txExec = (\<lambda>s q vals. myTxExec db q vals s),
      txCommit = myCommit db, txRollback = myRollback db\<rparr>"

definition lite_adapter :: "(goval \<Rightarrow> string) \<Rightarrow> go_field list \<Rightarrow> 's sql_db \<Rightarrow> (bool \<times> 's) db_adapter" where
  "lite_adapter text fs db =
     \<lparr>dbDialect = SQLiteDialector,
      dbGet = (\<lambda>s m q vals. liteGet text db (StructPtr fs m) q vals s),
      dbSelectModels = (\<lambda>s m q vals. models_of (liteSelect text db (SlicePtr (StructElem fs m) []) q vals s)),
      dbSelectIDs = (\<lambda>s q vals. ids_of (liteSelect text db (SlicePtr (PlainElem (TInt S64)) []) q vals s)),
      dbExec = (\<lambda>s q vals. liteExec db q vals s),
      dbGetCount = (\<lambda>s t w vals. liteGetCount text db t w vals s),
      dbBeginTx = liteBeginTx db,
      txGet = (\<lambda>s m q vals. in_tx (liteTxGet text db (StructPtr fs m) q vals) s),
      txExec = (\<lambda>s q vals. in_tx (liteTxExec db q vals) s),
      txCommit = in_tx (liteCommit db), txRollback = in_tx (liteRollback db)\<rparr>"

section \<open>Transactions of the adapters\<close>

text \<open>
  What a database promises of a transaction: \<open>content\<close>, the committed data, changes only in a commit that succeeds.
\<close>

definition sql_isolated :: "'s sql_db \<Rightarrow> ('s \<Rightarrow> 'v) \<Rightarrow> bool" where
  "sql_isolated db content \<longleftrightarrow>
     (\<forall>s. content (snd (sqlBegin db s)) = content s) \<and>
     (\<forall>s q a. content (snd (QueryContext (txConn db) s q a)) = content s) \<and>
     (\<forall>s q a. content (snd (ExecContext (txConn db) s q a)) = content s) \<and>
     (\<forall>s. content (snd (sqlRollback db s)) = content s) \<and>
     (\<forall>s e s'. sqlCommit db s = (Inl e, s') \<longrightarrow> content s' = content s)"

lemma snd_wrapR [simp]: "snd (wrapR msg r) = snd r"
  by (auto simp: wrapR_def split: prod.splits sum.splits)

lemma wrapR_Inl: "wrapR msg r = (Inl e, s) \<Longrightarrow> \<exists>e'. r = (Inl e', s)"
  by (auto simp: wrapR_def split: prod.splits sum.splits)

lemma snd_swallow_done [simp]: "snd (swallow_done msg r) = snd r"
  by (auto simp: swallow_done_def split: prod.splits sum.splits)

lemma snd_get_query [simp]: "snd (get_query text site c dest q a s) = snd (QueryContext c s q a)"
  by (simp add: get_query_def split: prod.splits sum.splits)

lemma snd_query_int [simp]: "snd (query_int text c q a s) = snd (QueryContext c s q a)"
  by (simp add: query_int_def split: prod.splits sum.splits)

lemma snd_pg_exec:
  "snd (pg_exec text site c q a s) =
     (if returns_id q then snd (QueryContext c s (Rebind PostgresDialector q @ '' RETURNING id'') a)
      else snd (ExecContext c s (Rebind PostgresDialector q) a))"
proof -
  obtain r s' where q: "query_int text c (Rebind PostgresDialector q @ '' RETURNING id'') a s = (r, s')" by fastforce
  then have "s' = snd (QueryContext c s (Rebind PostgresDialector q @ '' RETURNING id'') a)"
    using snd_query_int[of "text" c "Rebind PostgresDialector q @ '' RETURNING id''" a s] by simp
  with q show ?thesis by (cases r) (simp_all add: pg_exec_def exec_query_def)
qed

lemma snd_liteRollback [simp]: "snd (liteRollback db s) = snd (sqlRollback db s)"
proof (cases "sqlRollback db s")
  case (Pair r s')
  then show ?thesis by (cases r) (simp_all add: liteRollback_def)
qed

lemma snd_when_open [simp]: "snd (when_open f cs) = (if fst cs then cs else (False, snd (f (snd cs))))"
  by (simp add: when_open_def split: prod.splits)

lemma snd_in_tx [simp]: "snd (in_tx f cs) = (fst cs, snd (f (snd cs)))"
  by (simp add: in_tx_def split: prod.splits)

lemma in_tx_Inl: "in_tx f cs = (Inl e, cs') \<Longrightarrow> f (snd cs) = (Inl e, snd cs')"
  by (auto simp: in_tx_def split: prod.splits)

text \<open>
  C15: the transactions of the three adapters are those of the database. Where the database keeps what a transaction does
  apart until a commit that succeeds, so does each adapter: beginning, reading, executing, rolling back and a commit that
  fails leave the committed data as it was, also when an INSERT runs as a query, a finished transaction is rolled back
  or the SQLite adapter is closed. This is what makes \<open>SaveMany\<close> and \<open>DeleteMany\<close> all or nothing.
\<close>

theorem adapters_isolated:
  assumes "sql_isolated db content"
  shows "isolated (pg_adapter text fs db) content \<and> isolated (my_adapter text fs db) content \<and>
    isolated (lite_adapter text fs db) (\<lambda>cs. content (snd cs))"
proof (intro conjI)
  note laws = assms[unfolded sql_isolated_def]
  show "isolated (pg_adapter text fs db) content"
    using laws by (auto simp: isolated_def pg_adapter_def pgBeginTx_def pgTxGet_def pgTxExec_def pgCommit_def pgRollback_def snd_pg_exec
        dest!: wrapR_Inl)
  show "isolated (my_adapter text fs db) content"
    using laws by (auto simp: isolated_def my_adapter_def myBeginTx_def myTxGet_def myTxExec_def myCommit_def myRollback_def exec_query_def
        dest!: wrapR_Inl)
  show "isolated (lite_adapter text fs db) (\<lambda>cs. content (snd cs))"
    using laws by (auto simp: isolated_def lite_adapter_def liteTxGet_def liteTxExec_def liteCommit_def liteBeginTx_def exec_query_def
        dest!: wrapR_Inl in_tx_Inl)
qed

text \<open>A database that records its statements: committed, and pending in a transaction.\<close>

definition log_conn :: "(string \<Rightarrow> string list \<times> string list \<Rightarrow> string list \<times> string list) \<Rightarrow> (string list \<times> string list) sql_conn" where
  "log_conn put = \<lparr>QueryContext = (\<lambda>s q a. (Inr \<lparr>rowsCols = Inr [''id''], rowsVals = [[VInt S64 7]], rowsErr = Inr ()\<rparr>, put q s)),
     ExecContext = (\<lambda>s q a. (Inr \<lparr>LastInsertId = Inl (Errorf ''not supported''), RowsAffected = 1\<rparr>, put q s))\<rparr>"

definition log_sql :: "(string list \<times> string list) sql_db" where
  "log_sql = \<lparr>poolConn = log_conn (\<lambda>q s. (fst s @ [q], snd s)), txConn = log_conn (\<lambda>q s. (fst s, snd s @ [q])),
     sqlPing = (\<lambda>s. (Inr (), s)), sqlPool = (\<lambda>m n s. s), sqlClose = (\<lambda>s. (Inr (), s)), sqlBegin = (\<lambda>s. (Inr (), fst s, [])),
     sqlCommit = (\<lambda>s. (Inr (), fst s @ snd s, [])), sqlRollback = (\<lambda>s. (Inl ErrTxDone, fst s, []))\<rparr>"

theorem adapters_isolated_witness:
  "sql_isolated log_sql fst \<and> isolated (pg_adapter (\<lambda>_. []) [] log_sql) fst \<and>
   isolated (lite_adapter (\<lambda>_. []) [] log_sql) (\<lambda>cs. fst (snd cs)) \<and>
   txExec (pg_adapter (\<lambda>_. []) [] log_sql) ([''a''], []) '' insert into t values (?)'' [VInt S64 1] =
     (Inr \<lparr>LastInsertId = Inr 7, RowsAffected = 1\<rparr>, [''a''], ['' insert into t values ($1) RETURNING id''])"
proof -
  have log: "sql_isolated log_sql fst" by (simp add: sql_isolated_def log_sql_def log_conn_def)
  have run: "txExec (pg_adapter (\<lambda>_. []) [] log_sql) ([''a''], []) '' insert into t values (?)'' [VInt S64 1] =
     (Inr \<lparr>LastInsertId = Inr 7, RowsAffected = 1\<rparr>, [''a''], ['' insert into t values ($1) RETURNING id''])" by code_simp
  show ?thesis using log run adapters_isolated[OF log, of "\<lambda>_. []" "[]"] by blast
qed

text \<open>
  A column whose name contains the word keeps the PostgreSQL adapter from asking for the new id: the statement runs as it
  is, and the id is what the driver reports for a statement, an error.
\<close>

lemma returning_column:
  "pgExec (\<lambda>_. []) log_sql (BuildInsertSQL PostgresDialector ''orders'' [''returning_customer'']) [VBool True] ([], []) =
     (Inr \<lparr>LastInsertId = Inl (Errorf ''not supported''), RowsAffected = 1\<rparr>,
      [BuildInsertSQL PostgresDialector ''orders'' [''returning_customer'']], [])"
  by code_simp

text \<open>Rolling back a finished transaction is an error in the SQLite adapter only.\<close>

lemma rollback_done:
  "fst (pgRollback log_sql s) = Inr () \<and> fst (myRollback log_sql s) = Inr () \<and> fst (liteRollback log_sql s) = Inl ErrTxDone"
  by (simp add: pgRollback_def myRollback_def liteRollback_def swallow_done_def log_sql_def ErrTxDone_def)

text \<open>A closed SQLite adapter refuses, whatever the database, and closing it again does nothing.\<close>

lemma closed_refuses:
  assumes "liteClose db (False, s) = (r, cs)"
  shows "liteGet text db dest q a cs = (Inl (Errorf ''adapter is closed''), cs) \<and>
    liteSelect text db dst q a cs = (Inl (Errorf ''adapter is closed''), cs) \<and>
    liteExec db q a cs = (Inl (Errorf ''adapter is closed''), cs) \<and>
    liteGetCount text db q q a cs = (Inl (Errorf ''adapter is closed''), cs) \<and>
    liteBeginTx db cs = (Inl (Errorf ''adapter is closed''), cs) \<and> liteClose db cs = (Inr (), cs)"
  using assms by (auto simp: liteClose_def liteGet_def liteSelect_def liteExec_def liteGetCount_def liteBeginTx_def when_open_def
      split: prod.splits)

text \<open>One row is the model, no row is \<open>ErrNotFound\<close>, and two are an error that is not.\<close>

lemma get_scan_rows:
  assumes "rowsCols rows = Inr cols" and "rowsErr rows = Inr ()"
  shows "rowsVals rows = [] \<Longrightarrow> get_scan text site (StructPtr fs m) rows = Inl ErrNotFound"
    and "rowsVals rows = [vs] \<Longrightarrow> scan_struct text (PrepareScanDest fs cols) vs m = Inr m' \<Longrightarrow> get_scan text site (StructPtr fs m) rows = Inr m'"
    and "rowsVals rows = vs # ws # rest \<Longrightarrow> \<exists>e. get_scan text site (StructPtr fs m) rows = Inl e \<and> (errors_is e ErrNotFound \<longrightarrow>
      (\<exists>e'. scan_struct text (PrepareScanDest fs cols) vs m = Inl e' \<and> errors_is e' ErrNotFound))"
  using assms by (auto simp: get_scan_def split: sum.splits)

section \<open>The rows of a table through the adapters\<close>

text \<open>
  A row of a table as a model: the fields of a zero value in its order, the stored ones with values that can be stored,
  the others zero.
\<close>

definition normal_row :: "ModelInfo \<Rightarrow> gomodel \<Rightarrow> gomodel \<Rightarrow> bool" where
  "normal_row info zero r \<longleftrightarrow>
     map fst r = map fst zero \<and> distinct (map fst zero) \<and> list_all (has_storable zero r) (FieldNames info) \<and>
     list_all (\<lambda>f. f \<in> set (FieldNames info) \<or> FieldByName r f = FieldByName zero f) (map fst zero)"

text \<open>The type of the model has the metadata, and names its columns the way scanning does.\<close>

definition scan_type :: "struct_type \<Rightarrow> ModelInfo \<Rightarrow> bool" where
  "scan_type ty mi \<longleftrightarrow>
     (case compute_info ty of
        Inl _ \<Rightarrow> False
      | Inr info \<Rightarrow> mi = model_info info \<and> list_all scan_field_ok (stFields ty) \<and> distinct (map fst (scan_entries (stFields ty))) \<and>
          distinct (FieldNames mi))"

lemma assign_row_keys:
  "assign_row text (map Some fs) vs z = Inr m \<Longrightarrow> set fs \<subseteq> fst ` set z \<Longrightarrow> map fst m = map fst z"
proof (induction fs arbitrary: vs z)
  case (Cons f fs)
  have keys: "map fst (AList.update f x z) = map fst z" for x using Cons.prems(2) by (auto simp: update_keys)
  show ?case
  proof (cases vs)
    case (Cons v vs')
    then obtain x where "assign_row text (map Some fs) vs' (AList.update f x z) = Inr m" using Cons.prems(1) by (auto simp: bindE_Inr_iff)
    moreover have "set fs \<subseteq> fst ` set (AList.update f x z)" using Cons.prems(2) keys[of x] by (metis (no_types) insert_subset list.set_map list.simps(15))
    ultimately show ?thesis using Cons.IH keys by metis
  qed (use Cons.prems in simp)
qed simp

lemma FieldByName_dom: "FieldByName m f \<noteq> None \<longleftrightarrow> f \<in> fst ` set m"
  by (simp add: map_of_eq_None_iff)

lemma alist_from_keys: "distinct (map fst xs) \<Longrightarrow> xs = map (\<lambda>k. (k, the (map_of xs k))) (map fst xs)"
proof (rule nth_equalityI)
  fix i assume d: "distinct (map fst xs)" and i: "i < length xs"
  then have "map_of xs (fst (xs ! i)) = Some (snd (xs ! i))" by (intro map_of_is_SomeI) auto
  then show "xs ! i = map (\<lambda>k. (k, the (map_of xs k))) (map fst xs) ! i" using i by (simp add: prod_eq_iff)
qed simp

lemma alist_ext:
  assumes "map fst xs = map fst ys" and "distinct (map fst ys)" and "\<And>k. map_of xs k = map_of ys k"
  shows "xs = ys"
  using alist_from_keys[of xs] alist_from_keys[of ys] assms by simp

lemma scan_normal:
  assumes "scan_type ty mi" and "normal_row mi zero r"
  shows "scan_struct text (PrepareScanDest (stFields ty) (Columns mi)) (stored_row r (FieldNames mi)) zero = Inr r"
proof -
  let ?fs = "FieldNames mi"
  from assms(1) obtain info where i: "compute_info ty = Inr info" "mi = model_info info" "list_all scan_field_ok (stFields ty)"
    "distinct (map fst (scan_entries (stFields ty)))" "distinct ?fs" by (auto simp: scan_type_def split: sum.splits)
  have st: "list_all (has_storable zero r) ?fs" using assms(2) by (simp add: normal_row_def)
  from assign_row_back[OF st i(5), of "text"] obtain m' where m': "assign_row text (map Some ?fs) (stored_row r ?fs) zero = Inr m'"
    "\<And>f. FieldByName m' f = (if f \<in> set ?fs then FieldByName r f else FieldByName zero f)" by blast
  have sub: "set ?fs \<subseteq> fst ` set zero"
    using st FieldByName_dom[of zero] by (force simp: list_all_iff has_storable_def split: option.splits)
  have keys: "map fst m' = map fst zero" by (rule assign_row_keys[OF m'(1) sub])
  have "FieldByName m' f = FieldByName r f" for f
  proof (cases "f \<in> fst ` set zero")
    case True
    then show ?thesis using assms(2) m'(2)[of f] by (auto simp: normal_row_def list_all_iff)
  next
    case False
    then have "f \<notin> fst ` set m'" "f \<notin> fst ` set r" using keys assms(2) by (metis list.set_map normal_row_def)+
    then show ?thesis using FieldByName_dom by metis
  qed
  then have "m' = r" using keys assms(2) by (intro alist_ext) (simp_all add: normal_row_def)
  then show ?thesis using m'(1) scan_dest_fields[OF i(1,3,4)] i(2) by (simp add: scan_struct_def stored_row_def)
qed

lemma select_rows_models:
  assumes "\<And>r. r \<in> set ms \<Longrightarrow> scan_struct text (PrepareScanDest fs cols) (row r) zero = Inr r"
  shows "select_rows text err (StructElem fs zero) cols (map row ms) xs = Inr (xs @ map ModelElem ms)"
  using assms by (induction ms arbitrary: xs) (simp_all add: scan_elem_def)

text \<open>
  What a table promises: asked for a batch of ids by the text \<open>sent\<close> for it, the database answers with the stored rows
  of those ids, in any order, under the columns of the table, and reading changes nothing.
\<close>

definition stored_rows :: "ModelInfo \<Rightarrow> gomodel list \<Rightarrow> sql_rows" where
  "stored_rows info ms = \<lparr>rowsCols = Inr (Columns info), rowsVals = map (\<lambda>r. stored_row r (FieldNames info)) ms, rowsErr = Inr ()\<rparr>"

definition sql_serves ::
  "'s sql_conn \<Rightarrow> (string \<Rightarrow> string) \<Rightarrow> Dialector \<Rightarrow> ModelInfo \<Rightarrow> gomodel \<Rightarrow> ('s \<Rightarrow> int \<Rightarrow> gomodel option) \<Rightarrow> 's \<Rightarrow> bool" where
  "sql_serves c sent b info zero tbl d0 \<longleftrightarrow>
     (\<forall>d ids. tbl d = tbl d0 \<and> ids \<noteq> [] \<and> length ids \<le> ByIDBatchSize \<longrightarrow>
        (\<exists>ms d'. QueryContext c d (sent (batch_query b info (length ids))) (map (VInt S64) ids) = (Inr (stored_rows info ms), d') \<and>
           tbl d' = tbl d0 \<and> set ms = {r. \<exists>i \<in> set ids. tbl d0 i = Some r})) \<and>
     (\<forall>i r. tbl d0 i = Some r \<longrightarrow> GetID r = i \<and> i \<noteq> 0 \<and> normal_row info zero r)"

lemma sql_serves_select:
  assumes "sql_serves c sent b info zero tbl d0" and "tbl d = tbl d0 \<and> ids \<noteq> [] \<and> length ids \<le> ByIDBatchSize"
  obtains ms d' where "QueryContext c d (sent (batch_query b info (length ids))) (map (VInt S64) ids) = (Inr (stored_rows info ms), d')"
    "tbl d' = tbl d0" "set ms = {r. \<exists>i \<in> set ids. tbl d0 i = Some r}"
  using assms(1)[unfolded sql_serves_def, THEN conjunct1, rule_format, OF assms(2)] by (elim exE conjE)

lemma models_of_elems: "models_of (Inr (map ModelElem ms), s) = (Inr ms, s)"
  by (simp add: models_of_def elem_model_def o_def)

lemma select_models_serve:
  assumes "scan_type ty mi" and S: "sql_serves c sent b mi zero tbl d0" and q: "tbl d = tbl d0 \<and> ids \<noteq> [] \<and> length ids \<le> ByIDBatchSize"
  shows "\<exists>ms d'. models_of (select_query text site err c (SlicePtr (StructElem (stFields ty) zero) []) (sent (batch_query b mi (length ids)))
      (map (VInt S64) ids) d) = (Inr ms, d') \<and> tbl d' = tbl d0 \<and> set ms = {r. \<exists>i \<in> set ids. tbl d0 i = Some r}"
proof (rule sql_serves_select[OF S q])
  fix ms d' assume m: "QueryContext c d (sent (batch_query b mi (length ids))) (map (VInt S64) ids) = (Inr (stored_rows mi ms), d')"
    "tbl d' = tbl d0" "set ms = {r. \<exists>i \<in> set ids. tbl d0 i = Some r}"
  have "normal_row mi zero r" if "r \<in> set ms" for r using that m(3) S by (auto simp: sql_serves_def)
  then have "select_rows text (site @ err) (StructElem (stFields ty) zero) (Columns mi) (map (\<lambda>r. stored_row r (FieldNames mi)) ms) [] =
      Inr ([] @ map ModelElem ms)"
    by (intro select_rows_models scan_normal[OF assms(1)])
  then have "select_query text site err c (SlicePtr (StructElem (stFields ty) zero) []) (sent (batch_query b mi (length ids)))
      (map (VInt S64) ids) d = (Inr (map ModelElem ms), d')"
    using m(1) by (simp add: select_query_def select_scan_def stored_rows_def scannable_def)
  then show ?thesis using m(2,3) by (intro exI[of _ ms] exI[of _ d']) (simp add: models_of_elems)
qed

text \<open>The table of an open adapter; a closed one has what no table has, a row of id zero.\<close>

definition open_table :: "('s \<Rightarrow> int \<Rightarrow> gomodel option) \<Rightarrow> bool \<times> 's \<Rightarrow> int \<Rightarrow> gomodel option" where
  "open_table tbl cs = (if fst cs then (\<lambda>_. Some []) else tbl (snd cs))"

lemma models_of_when_open: "\<not> fst cs \<Longrightarrow> models_of (when_open f cs) = (fst (models_of (f (snd cs))), False, snd (models_of (f (snd cs))))"
  by (simp add: models_of_def when_open_def split: prod.splits sum.splits)

lemma open_table_now: "open_table tbl (False, s) = tbl s"
  by (simp add: open_table_def)

text \<open>
  C14: reading rows by id through the adapters. Where the databases answer the text each adapter sends for a batch of ids
  with the stored rows, the adapters of PostgreSQL, MySQL and (while it is open) SQLite serve exactly those rows as
  models, every field scanned back: what reading by id, queries and relations rely on.
\<close>

theorem adapters_serve_rows:
  assumes ty: "scan_type ty mi"
    and pg: "sql_serves (poolConn pdb) (Rebind PostgresDialector) PostgresDialector mi zero ptbl p0"
    and my: "sql_serves (poolConn mdb) (\<lambda>q. q) MySQLDialector mi zero mtbl m0"
    and lite: "sql_serves (poolConn ldb) (\<lambda>q. q) SQLiteDialector mi zero ltbl l0"
  shows "serves_rows (pg_adapter text (stFields ty) pdb) mi zero ptbl p0 \<and> serves_rows (my_adapter text (stFields ty) mdb) mi zero mtbl m0 \<and>
    serves_rows (lite_adapter text (stFields ty) ldb) mi zero (open_table ltbl) (False, l0)"
proof (intro conjI)
  have "\<exists>rows d'. models_of (pgSelect text pdb (SlicePtr (StructElem (stFields ty) zero) []) (batch_query PostgresDialector mi (length ids)) (map (VInt S64) ids) d) =
      (Inr rows, d') \<and> ptbl d' = ptbl p0 \<and> set rows = {r. \<exists>i \<in> set ids. ptbl p0 i = Some r}"
    if "ptbl d = ptbl p0 \<and> ids \<noteq> [] \<and> length ids \<le> ByIDBatchSize" for d ids
    unfolding pgSelect_def by (rule select_models_serve[OF ty pg that])
  then show "serves_rows (pg_adapter text (stFields ty) pdb) mi zero ptbl p0"
    using pg by (simp add: serves_rows_def pg_adapter_def sql_serves_def)
next
  have "\<exists>rows d'. models_of (mySelect text mdb (SlicePtr (StructElem (stFields ty) zero) []) (batch_query MySQLDialector mi (length ids)) (map (VInt S64) ids) d) =
      (Inr rows, d') \<and> mtbl d' = mtbl m0 \<and> set rows = {r. \<exists>i \<in> set ids. mtbl m0 i = Some r}"
    if "mtbl d = mtbl m0 \<and> ids \<noteq> [] \<and> length ids \<le> ByIDBatchSize" for d ids
    unfolding mySelect_def by (rule select_models_serve[OF ty my that])
  then show "serves_rows (my_adapter text (stFields ty) mdb) mi zero mtbl m0"
    using my by (simp add: serves_rows_def my_adapter_def sql_serves_def)
next
  have zero: "ltbl l0 0 = None" using lite by (cases "ltbl l0 0") (auto simp: sql_serves_def)
  have "\<exists>rows d'. models_of (liteSelect text ldb (SlicePtr (StructElem (stFields ty) zero) []) (batch_query SQLiteDialector mi (length ids)) (map (VInt S64) ids) d) =
      (Inr rows, d') \<and> open_table ltbl d' = ltbl l0 \<and> set rows = {r. \<exists>i \<in> set ids. ltbl l0 i = Some r}"
    if d: "open_table ltbl d = ltbl l0" "ids \<noteq> [] \<and> length ids \<le> ByIDBatchSize" for d ids
  proof -
    have "\<not> fst d" using d(1) zero by (auto simp: open_table_def fun_eq_iff split: if_splits)
    then have "ltbl (snd d) = ltbl l0 \<and> ids \<noteq> [] \<and> length ids \<le> ByIDBatchSize" using d by (simp add: open_table_def)
    from select_models_serve[OF ty lite this] obtain ms d' where
      "models_of (select_query text ''sqlite Select'' '' scan error'' (poolConn ldb) (SlicePtr (StructElem (stFields ty) zero) [])
        (batch_query SQLiteDialector mi (length ids)) (map (VInt S64) ids) (snd d)) = (Inr ms, d')"
      "ltbl d' = ltbl l0" "set ms = {r. \<exists>i \<in> set ids. ltbl l0 i = Some r}" by blast
    then show ?thesis using \<open>\<not> fst d\<close>
      by (intro exI[of _ ms] exI[of _ "(False, d')"]) (simp add: liteSelect_def models_of_when_open open_table_def)
  qed
  then have "\<exists>rows d'. dbSelectModels (lite_adapter text (stFields ty) ldb) d zero (batch_query (dbDialect (lite_adapter text (stFields ty) ldb)) mi (length ids))
        (map (VInt S64) ids) = (Inr rows, d') \<and>
      open_table ltbl d' = open_table ltbl (False, l0) \<and> set rows = {r. \<exists>i \<in> set ids. open_table ltbl (False, l0) i = Some r}"
    if "open_table ltbl d = open_table ltbl (False, l0) \<and> ids \<noteq> [] \<and> length ids \<le> ByIDBatchSize" for d ids
    using that by (simp add: lite_adapter_def open_table_now)
  moreover have "open_table ltbl (False, l0) i = Some r \<longrightarrow> GetID r = i \<and> i \<noteq> 0" for i r
    using lite by (simp add: sql_serves_def open_table_now)
  ultimately show "serves_rows (lite_adapter text (stFields ty) ldb) mi zero (open_table ltbl) (False, l0)"
    unfolding serves_rows_def by blast
qed

text \<open>A database that holds the rows of the notes and understands one query.\<close>

definition note_info :: ModelInfo where
  "note_info = (case compute_info note_type of Inr info \<Rightarrow> model_info info | Inl _ \<Rightarrow> person_info)"

definition note_row :: gomodel where
  "note_row = AList.update ''isNewRecord'' (VBool False) (AList.update ''Draft'' (VString []) note_model)"

definition found_rows :: "gomodel list \<Rightarrow> goval list \<Rightarrow> gomodel list" where
  "found_rows d a = concat (map (\<lambda>v. case v of VInt _ i \<Rightarrow> (case list_table d i of Some r \<Rightarrow> [r] | None \<Rightarrow> []) | _ \<Rightarrow> []) a)"

definition note_sql :: "(string \<Rightarrow> string) \<Rightarrow> Dialector \<Rightarrow> gomodel list sql_db" where
  "note_sql sent b =
     (let c = \<lparr>QueryContext = (\<lambda>d q a. if q = sent (batch_query b note_info (length a))
            then (Inr (stored_rows note_info (found_rows d a)), d)
            else (Inl (Errorf ''syntax''), d)),
          ExecContext = (\<lambda>d q a. (Inl (Errorf ''syntax''), d))\<rparr>
      in \<lparr>poolConn = c, txConn = c, sqlPing = (\<lambda>s. (Inr (), s)), sqlPool = (\<lambda>m n s. s), sqlClose = (\<lambda>s. (Inr (), s)), sqlBegin = (\<lambda>s. (Inr (), s)),
           sqlCommit = (\<lambda>s. (Inr (), s)), sqlRollback = (\<lambda>s. (Inr (), s))\<rparr>)"

lemma set_found_rows: "set (found_rows d (map (VInt S64) ids)) = {r. \<exists>i \<in> set ids. list_table d i = Some r}"
  by (auto simp: found_rows_def split: option.splits)

lemma note_sql_serves: "sql_serves (poolConn (note_sql sent b)) sent b note_info note_zero list_table [note_row]"
  unfolding sql_serves_def
proof (intro conjI allI impI)
  fix d and ids :: "int list" assume "list_table d = list_table [note_row] \<and> ids \<noteq> [] \<and> length ids \<le> ByIDBatchSize"
  then show "\<exists>ms d'. QueryContext (poolConn (note_sql sent b)) d (sent (batch_query b note_info (length ids))) (map (VInt S64) ids) =
      (Inr (stored_rows note_info ms), d') \<and> list_table d' = list_table [note_row] \<and> set ms = {r. \<exists>i \<in> set ids. list_table [note_row] i = Some r}"
    by - (rule exI[of _ "found_rows d (map (VInt S64) ids)"], rule exI[of _ d], simp add: note_sql_def Let_def set_found_rows)
next
  fix i r assume "list_table [note_row] i = Some r"
  then have r: "r = note_row" "GetID note_row = i" by (auto simp: list_table_def split: if_splits)
  have row: "normal_row note_info note_zero note_row" "GetID note_row = 7" by code_simp+
  show "GetID r = i" "i \<noteq> 0" "normal_row note_info note_zero r" using r row by simp_all
qed

theorem adapters_serve_rows_witness:
  "scan_type note_type note_info \<and>
   serves_rows (pg_adapter (\<lambda>_. []) (stFields note_type) (note_sql (Rebind PostgresDialector) PostgresDialector)) note_info note_zero list_table [note_row] \<and>
   (\<exists>rows d'. dbSelectModels (lite_adapter (\<lambda>_. []) (stFields note_type) (note_sql (\<lambda>q. q) SQLiteDialector)) (False, [note_row]) note_zero
     (batch_query SQLiteDialector note_info 2) [VInt S64 3, VInt S64 7] = (Inr rows, d') \<and> set rows = {note_row})"
proof -
  have ty: "scan_type note_type note_info" by code_simp
  note served = adapters_serve_rows[OF ty note_sql_serves note_sql_serves note_sql_serves, of "\<lambda>_. []"]
  have pg: "serves_rows (pg_adapter (\<lambda>_. []) (stFields note_type) (note_sql (Rebind PostgresDialector) PostgresDialector)) note_info note_zero list_table [note_row]"
    by (rule served[THEN conjunct1])
  have "list_table [note_row] i = (if i = 7 then Some note_row else None)" for i
  proof -
    have "GetID note_row = 7" by code_simp
    then show ?thesis by (auto simp: list_table_def)
  qed
  then have "{r. \<exists>i \<in> set [3, 7]. open_table list_table (False, [note_row]) i = Some r} = {note_row}" by (auto simp: open_table_def)
  moreover have "\<exists>rows d'. dbSelectModels (lite_adapter (\<lambda>_. []) (stFields note_type) (note_sql (\<lambda>q. q) SQLiteDialector)) (False, [note_row]) note_zero
      (batch_query (dbDialect (lite_adapter (\<lambda>_. []) (stFields note_type) (note_sql (\<lambda>q. q) SQLiteDialector))) note_info (length [3 :: int, 7])) (map (VInt S64) [3, 7]) =
      (Inr rows, d') \<and> open_table list_table d' = open_table list_table (False, [note_row]) \<and>
      set rows = {r. \<exists>i \<in> set [3, 7]. open_table list_table (False, [note_row]) i = Some r}"
    by (rule serves_select[OF served[THEN conjunct2, THEN conjunct2] refl]) (simp_all add: ByIDBatchSize_def)
  ultimately show ?thesis using ty pg by (auto simp: lite_adapter_def numeral_2_eq_2)
qed

end
