(* ===== verification/Introspection.thy ===== *)
theory Introspection
  imports Schema_Sql Db_Adapters
begin

text \<open>
  What there is of a table: the introspectors \<^verbatim>\<open>drivers/db/sqlite/introspect.go\<close>,
  \<^verbatim>\<open>drivers/db/postgres/introspect.go\<close> and \<^verbatim>\<open>drivers/db/mysql/introspect.go\<close>.

  They only read the catalogue, so a query is a function of its text and arguments; the handle is an option, \<open>None\<close>
  for a nil pointer. What a server answers is a parameter.
\<close>

type_synonym sql_query = "string \<Rightarrow> goval list \<Rightarrow> sql_rows go_result"

section \<open>Scanning catalogue rows\<close>

definition wrapE :: "string \<Rightarrow> 'a go_result \<Rightarrow> 'a go_result" where
  "wrapE msg r = (case r of Inl e \<Rightarrow> Inl (Wrapped msg e) | Inr x \<Rightarrow> Inr x)"

definition scan_str :: "(goval \<Rightarrow> string) \<Rightarrow> goval \<Rightarrow> string go_result" where
  "scan_str text v = bindE (convertAssign text TString v) (\<lambda>x. case x of VString s \<Rightarrow> Inr s | _ \<Rightarrow> Inl (Errorf ''unsupported Scan''))"

definition scan_int :: "(goval \<Rightarrow> string) \<Rightarrow> goval \<Rightarrow> int go_result" where
  "scan_int text v = bindE (convertAssign text (TInt S0) v) (\<lambda>x. case x of VInt _ i \<Rightarrow> Inr i | _ \<Rightarrow> Inl (Errorf ''unsupported Scan''))"

text \<open>\<open>sql.NullString\<close>.\<close>

definition scan_null :: "(goval \<Rightarrow> string) \<Rightarrow> goval \<Rightarrow> string option go_result" where
  "scan_null text v = (if v = VNil then Inr None else bindE (scan_str text v) (\<lambda>s. Inr (Some s)))"

definition wrong_count :: "'a go_result" where
  "wrong_count = Inl (Errorf ''sql: wrong number of destination arguments in Scan'')"

fun traverse :: "('r \<Rightarrow> 'a go_result) \<Rightarrow> 'r list \<Rightarrow> 'a list go_result" where
  "traverse f [] = Inr []"
| "traverse f (r # rs) = bindE (f r) (\<lambda>x. bindE (traverse f rs) (\<lambda>xs. Inr (x # xs)))"

text \<open>All rows of a query, and the error that ended the iteration.\<close>

definition all_rows :: "sql_query \<Rightarrow> string \<Rightarrow> goval list \<Rightarrow> string \<Rightarrow> string \<Rightarrow> (goval list \<Rightarrow> 'a go_result) \<Rightarrow> 'a list go_result" where
  "all_rows query sql vals failed ended f =
     (case query sql vals of
        Inl e \<Rightarrow> Inl (Wrapped failed e)
      | Inr rows \<Rightarrow> bindE (traverse f (rowsVals rows)) (\<lambda>xs. bindE (wrapE ended (rowsErr rows)) (\<lambda>_. Inr xs)))"

definition valid_identifier :: "string \<Rightarrow> bool" where
  "valid_identifier s = (case s of [] \<Rightarrow> False | c # r \<Rightarrow> word_char c \<and> \<not> is_digit c \<and> list_all word_char r)"

text \<open>\<open>strings.LastIndex\<close>.\<close>

fun last_index :: "string \<Rightarrow> string \<Rightarrow> nat option" where
  "last_index [] t = (if t = [] then Some 0 else None)"
| "last_index (c # s) t = (case last_index s t of Some i \<Rightarrow> Some (Suc i) | None \<Rightarrow> if has_prefix (c # s) t then Some 0 else None)"

definition extractTrailingWhere :: "string \<Rightarrow> string" where
  "extractTrailingWhere sql =
     (case last_index (to_upper sql) '' WHERE '' of
        None \<Rightarrow> []
      | Some whereIndex \<Rightarrow> trim_space (trim_suffix (drop (whereIndex + length '' WHERE '') sql) '';''))"

section \<open>SQLite\<close>

definition lite_column :: "(goval \<Rightarrow> string) \<Rightarrow> goval list \<Rightarrow> ColumnInfo go_result" where
  "lite_column text vs =
     (case vs of
        [cid, name, colType, notnull, dfltValue, pk] \<Rightarrow>
          bindE (scan_int text cid) (\<lambda>_. bindE (scan_str text name) (\<lambda>name. bindE (scan_str text colType) (\<lambda>colType.
            bindE (scan_int text notnull) (\<lambda>notnull. bindE (scan_null text dfltValue) (\<lambda>dflt. bindE (scan_int text pk) (\<lambda>pk.
              Inr \<lparr>ciName = name, ciDataType = colType, ciNullable = (notnull = 0), ciPrimary = (0 < pk), ciUniqueCol = False, ciDefault = dflt\<rparr>))))))
      | _ \<Rightarrow> wrong_count)"

definition lite_index_row :: "(goval \<Rightarrow> string) \<Rightarrow> goval list \<Rightarrow> (string \<times> int \<times> int) go_result" where
  "lite_index_row text vs =
     (case vs of
        [sq, name, unique, origin, partial] \<Rightarrow>
          bindE (scan_int text sq) (\<lambda>_. bindE (scan_str text name) (\<lambda>name. bindE (scan_int text unique) (\<lambda>unique.
            bindE (scan_str text origin) (\<lambda>_. bindE (scan_int text partial) (\<lambda>partial. Inr (name, unique, partial))))))
      | _ \<Rightarrow> wrong_count)"

definition lite_index_column :: "(goval \<Rightarrow> string) \<Rightarrow> goval list \<Rightarrow> string go_result" where
  "lite_index_column text vs =
     (case vs of
        [seqno, cid, colName] \<Rightarrow> bindE (scan_int text seqno) (\<lambda>_. bindE (scan_int text cid) (\<lambda>_. scan_str text colName))
      | _ \<Rightarrow> wrong_count)"

definition master_query :: string where
  "master_query = ''SELECT sql FROM sqlite_master WHERE type = '' @ [CHR 0x27] @ ''index'' @ [CHR 0x27] @ '' AND name = ?''"

definition getIndexWhere :: "(goval \<Rightarrow> string) \<Rightarrow> sql_query \<Rightarrow> string \<Rightarrow> string go_result" where
  "getIndexWhere text query indexName =
     wrapE ''sqlite_master index sql failed'' (case query master_query [VString indexName] of
        Inl e \<Rightarrow> Inl e
      | Inr rows \<Rightarrow>
          (case rowsVals rows of
             [] \<Rightarrow> (case rowsErr rows of Inl e \<Rightarrow> Inl e | Inr _ \<Rightarrow> Inl ErrNoRows)
           | vs # _ \<Rightarrow>
               (case vs of
                  [v] \<Rightarrow> bindE (scan_null text v) (\<lambda>createSQL. case createSQL of None \<Rightarrow> Inr [] | Some sql \<Rightarrow> Inr (extractTrailingWhere sql))
                | _ \<Rightarrow> wrong_count)))"

text \<open>An index, unless it is that of the key or its name is unexpected. The end of the iteration over its columns is not checked.\<close>

definition lite_index :: "(goval \<Rightarrow> string) \<Rightarrow> sql_query \<Rightarrow> string \<Rightarrow> goval list \<Rightarrow> IndexInfo list go_result" where
  "lite_index text query tableName vs =
     bindE (wrapE ''scan index_list'' (lite_index_row text vs)) (\<lambda>(name, unique, partial).
       if name = ''sqlite_autoindex_'' @ tableName @ ''_1'' then Inr []
       else if \<not> valid_identifier name then Inr []
       else case query (''PRAGMA index_info('' @ name @ '')'') [] of
         Inl e \<Rightarrow> Inl (Wrapped ''PRAGMA index_info failed'' e)
       | Inr rows \<Rightarrow>
           bindE (traverse (\<lambda>vs. wrapE ''scan index_info'' (lite_index_column text vs)) (rowsVals rows)) (\<lambda>cols.
             bindE (if partial = 1 then getIndexWhere text query name else Inr []) (\<lambda>w.
               Inr [\<lparr>ixName = name, ixColumns = cols, ixUnique = (unique = 1), ixWhere = w\<rparr>])))"

definition mark_unique :: "IndexInfo list \<Rightarrow> ColumnInfo \<Rightarrow> ColumnInfo" where
  "mark_unique indexes c =
     (if list_ex (\<lambda>idx. ixUnique idx \<and> length (ixColumns idx) = 1 \<and> hd (ixColumns idx) = ciName c) indexes then c\<lparr>ciUniqueCol := True\<rparr> else c)"

text \<open>The last column marked as key.\<close>

definition last_primary :: "ColumnInfo list \<Rightarrow> string" where
  "last_primary columns = foldl (\<lambda>pkCol c. if ciPrimary c then ciName c else pkCol) [] columns"

definition SQLiteGetTableInfo :: "(goval \<Rightarrow> string) \<Rightarrow> sql_query option \<Rightarrow> string \<Rightarrow> TableInfo option go_result" where
  "SQLiteGetTableInfo text db tableName =
     (case db of
        None \<Rightarrow> Inl (Errorf ''SQLiteIntrospector: DB is nil'')
      | Some query \<Rightarrow>
          if \<not> valid_identifier tableName then Inl (Errorf ''SQLiteIntrospector: invalid table name'')
          else bindE (all_rows query (''PRAGMA table_info('' @ tableName @ '')'') [] ''PRAGMA table_info failed'' ''table_info rows''
                (\<lambda>vs. wrapE ''scan table_info'' (lite_column text vs))) (\<lambda>columns.
            if columns = [] then Inr None
            else bindE (all_rows query (''PRAGMA index_list('' @ tableName @ '')'') [] ''PRAGMA index_list failed'' ''index_list rows''
                (lite_index text query tableName)) (\<lambda>found.
              let indexes = concat found in
              Inr (Some \<lparr>tiName = tableName, tiColumns = map (mark_unique indexes) columns, tiIndexes = indexes,
                tiPrimaryKey = last_primary columns\<rparr>))))"

section \<open>PostgreSQL\<close>

definition line_break :: string where
  "line_break = [CHR 0x0A, CHR 0x09, CHR 0x09]"

definition pg_columns_query :: string where
  "pg_columns_query = ''SELECT column_name, data_type, is_nullable, column_default'' @ line_break @
     ''FROM information_schema.columns'' @ line_break @ ''WHERE table_name = $1''"

definition pg_key_query :: string where
  "pg_key_query = ''SELECT a.attname'' @ line_break @ ''FROM pg_index i'' @ line_break @
     ''JOIN pg_attribute a ON a.attrelid = i.indrelid AND a.attnum = ANY(i.indkey)'' @ line_break @
     ''WHERE i.indrelid = $1::regclass AND i.indisprimary''"

definition pg_unique_query :: string where
  "pg_unique_query = ''SELECT a.attname'' @ line_break @ ''FROM pg_constraint c'' @ line_break @ ''JOIN pg_class t ON c.conrelid = t.oid'' @ line_break @
     ''JOIN pg_attribute a ON a.attrelid = t.oid AND a.attnum = ANY(c.conkey)'' @ line_break @
     ''WHERE c.contype = '' @ [CHR 0x27] @ ''u'' @ [CHR 0x27] @ '' AND t.relname = $1''"

definition pg_indexes_query :: string where
  "pg_indexes_query = ''SELECT indexname, indexdef FROM pg_indexes WHERE tablename = $1''"

text \<open>\<open>strings.Index\<close> of one byte.\<close>

definition byte_index :: "string \<Rightarrow> char \<Rightarrow> nat option" where
  "byte_index s c = (if c \<in> set s then Some (length (takeWhile (\<lambda>x. x \<noteq> c) s)) else None)"

definition parsePgIndexColumns :: "string \<Rightarrow> string list" where
  "parsePgIndexColumns def =
     (case (byte_index def CHR ''('', byte_index def CHR '')'') of
        (Some open, Some close) \<Rightarrow>
          if close \<le> open + 1 then [] else map trim_space (split_on CHR '','' (take (close - (open + 1)) (drop (open + 1) def)))
      | _ \<Rightarrow> [])"

definition parsePgIndexWhere :: "string \<Rightarrow> string" where
  "parsePgIndexWhere def =
     (case last_index (to_upper def) '' WHERE '' of
        None \<Rightarrow> []
      | Some whereIndex \<Rightarrow> trim_space (trim_suffix (drop (whereIndex + length '' WHERE '') def) '';''))"

definition pg_column :: "(goval \<Rightarrow> string) \<Rightarrow> goval list \<Rightarrow> ColumnInfo go_result" where
  "pg_column text vs =
     (case vs of
        [name, dataType, isNullable, defaultVal] \<Rightarrow>
          bindE (scan_str text name) (\<lambda>name. bindE (scan_str text dataType) (\<lambda>dataType. bindE (scan_str text isNullable) (\<lambda>isNullable.
            bindE (scan_null text defaultVal) (\<lambda>dflt.
              Inr \<lparr>ciName = name, ciDataType = dataType, ciNullable = (isNullable = ''YES''), ciPrimary = False, ciUniqueCol = False, ciDefault = dflt\<rparr>))))
      | _ \<Rightarrow> wrong_count)"

definition scan_one :: "(goval \<Rightarrow> string) \<Rightarrow> goval list \<Rightarrow> string go_result" where
  "scan_one text vs = (case vs of [v] \<Rightarrow> scan_str text v | _ \<Rightarrow> wrong_count)"

definition pg_key :: "(goval \<Rightarrow> string) \<Rightarrow> sql_query \<Rightarrow> string \<Rightarrow> string go_result" where
  "pg_key text query tableName =
     (case query pg_key_query [VString tableName] of
        Inl e \<Rightarrow> Inl (Wrapped ''pg_index primary key'' e)
      | Inr rows \<Rightarrow>
          bindE (case rowsVals rows of [] \<Rightarrow> Inr [] | vs # _ \<Rightarrow> wrapE ''scan pk'' (scan_one text vs)) (\<lambda>pkCol.
            bindE (wrapE ''pk rows'' (rowsErr rows)) (\<lambda>_. Inr pkCol)))"

definition pg_index :: "(goval \<Rightarrow> string) \<Rightarrow> string \<Rightarrow> goval list \<Rightarrow> IndexInfo list go_result" where
  "pg_index text tableName vs =
     (case vs of
        [name, def] \<Rightarrow>
          bindE (wrapE ''scan index'' (bindE (scan_str text name) (\<lambda>name. bindE (scan_str text def) (\<lambda>def. Inr (name, def))))) (\<lambda>(name, def).
            let cols = parsePgIndexColumns def;
                unique = (str_contains def ''UNIQUE INDEX'' \<or> str_contains def ''UNIQUE CONSTRAINT'')
            in if name = [] \<or> cols = [] then Inr []
               else if name = [] \<or> name = tableName @ ''_pkey'' then Inr []
               else Inr [\<lparr>ixName = name, ixColumns = cols, ixUnique = unique, ixWhere = parsePgIndexWhere def\<rparr>])
      | _ \<Rightarrow> wrapE ''scan index'' wrong_count)"

definition PostgreSQLGetTableInfo :: "(goval \<Rightarrow> string) \<Rightarrow> sql_query option \<Rightarrow> string \<Rightarrow> TableInfo option go_result" where
  "PostgreSQLGetTableInfo text db tableName =
     (case db of
        None \<Rightarrow> Inl (Errorf ''PostgreSQLIntrospector: DB is nil'')
      | Some query \<Rightarrow>
          bindE (all_rows query pg_columns_query [VString tableName] ''information_schema.columns failed'' ''columns rows''
              (\<lambda>vs. wrapE ''scan columns'' (pg_column text vs))) (\<lambda>columns.
            if columns = [] then Inr None
            else bindE (pg_key text query tableName) (\<lambda>pkCol.
              bindE (all_rows query pg_unique_query [VString tableName] ''pg_constraint unique'' ''unique rows''
                  (\<lambda>vs. wrapE ''scan unique'' (scan_one text vs))) (\<lambda>uniqCols.
                let columns1 = map (\<lambda>c. if ciName c = pkCol then c\<lparr>ciPrimary := True\<rparr> else c) columns;
                    columns2 = map (\<lambda>c. if ciName c \<in> set uniqCols then c\<lparr>ciUniqueCol := True\<rparr> else c) columns1
                in bindE (all_rows query pg_indexes_query [VString tableName] ''pg_indexes'' ''index rows'' (pg_index text tableName)) (\<lambda>found.
                  Inr (Some \<lparr>tiName = tableName, tiColumns = columns2, tiIndexes = concat found, tiPrimaryKey = pkCol\<rparr>))))))"

section \<open>MySQL\<close>

fun error_text :: "goerror \<Rightarrow> string" where
  "error_text (Wrapped m e) = m @ '': '' @ error_text e"
| "error_text (Errorf m) = m"
| "error_text (Panic m) = m"
| "error_text _ = []"

definition my_column :: "(goval \<Rightarrow> string) \<Rightarrow> goval list \<Rightarrow> ColumnInfo go_result" where
  "my_column text vs =
     (case vs of
        [field, colType, nullStr, key, def, extra] \<Rightarrow>
          bindE (scan_str text field) (\<lambda>field. bindE (scan_str text colType) (\<lambda>colType. bindE (scan_str text nullStr) (\<lambda>nullStr.
            bindE (scan_str text key) (\<lambda>key. bindE (scan_null text def) (\<lambda>dflt. bindE (scan_str text extra) (\<lambda>_.
              Inr \<lparr>ciName = field, ciDataType = colType, ciNullable = (nullStr = ''YES''), ciPrimary = (key = ''PRI''), ciUniqueCol = (key = ''UNI''),
                ciDefault = dflt\<rparr>))))))
      | _ \<Rightarrow> wrong_count)"

definition my_index_row :: "(goval \<Rightarrow> string) \<Rightarrow> goval list \<Rightarrow> (string \<times> int \<times> string) go_result" where
  "my_index_row text vs =
     (case vs of
        [keyName, nonUnique, colName] \<Rightarrow>
          bindE (scan_str text keyName) (\<lambda>keyName. bindE (scan_int text nonUnique) (\<lambda>nonUnique. bindE (scan_str text colName) (\<lambda>colName.
            Inr (keyName, nonUnique, colName))))
      | _ \<Rightarrow> wrong_count)"

definition my_statistics_query :: string where
  "my_statistics_query = ''SELECT INDEX_NAME, Non_unique, Column_name FROM information_schema.statistics WHERE table_schema = DATABASE() AND table_name = ?''"

text \<open>The rows of one key collect its columns; the last says whether it is unique.\<close>

definition group_indexes :: "(string \<times> int \<times> string) list \<Rightarrow> (string, bool \<times> string list) gomap" where
  "group_indexes rows =
     foldl (\<lambda>idxMap (keyName, nonUnique, colName).
        if keyName = [] \<or> colName = [] then idxMap
        else gm_set keyName (nonUnique = 0, (case gm_get idxMap keyName of Some (_, cs) \<Rightarrow> cs | None \<Rightarrow> []) @ [colName]) idxMap) [] rows"

definition MySQLGetTableInfo :: "(goval \<Rightarrow> string) \<Rightarrow> sql_query option \<Rightarrow> string \<Rightarrow> TableInfo option go_result" where
  "MySQLGetTableInfo text db tableName =
     (case db of
        None \<Rightarrow> Inl (Errorf ''MySQLIntrospector: DB is nil'')
      | Some query \<Rightarrow>
          if \<not> valid_identifier tableName then Inl (Errorf ''MySQLIntrospector: invalid table name'')
          else case query (''SHOW COLUMNS FROM '' @ tableName) [] of
            Inl e \<Rightarrow>
              if error_text e = ''Error 1146: Table '' @ [CHR 0x27] @ tableName @ [CHR 0x27] @ '' doesn'' @ [CHR 0x27] @ ''t exist''
                \<or> str_contains (error_text e) (''doesn'' @ [CHR 0x27] @ ''t exist'')
              then Inr None else Inl (Wrapped ''SHOW COLUMNS failed'' e)
          | Inr rows \<Rightarrow>
              bindE (traverse (\<lambda>vs. wrapE ''scan SHOW COLUMNS'' (my_column text vs)) (rowsVals rows)) (\<lambda>columns.
                bindE (wrapE ''SHOW COLUMNS rows'' (rowsErr rows)) (\<lambda>_.
                  bindE (all_rows query my_statistics_query [VString tableName] ''SHOW INDEX failed'' ''SHOW INDEX rows''
                      (\<lambda>vs. wrapE ''scan SHOW INDEX'' (my_index_row text vs))) (\<lambda>entries.
                    Inr (Some \<lparr>tiName = tableName, tiColumns = columns,
                      tiIndexes = map (\<lambda>(name, unique, cols). \<lparr>ixName = name, ixColumns = cols, ixUnique = unique, ixWhere = []\<rparr>)
                        (filter (\<lambda>(name, _). name \<noteq> ''PRIMARY'') (group_indexes entries)),
                      tiPrimaryKey = last_primary columns\<rparr>)))))"

section \<open>The predicate of an index is read back\<close>

lemma last_index_None: "t \<noteq> [] \<Longrightarrow> last_index s t = None \<longleftrightarrow> \<not> str_contains s t"
  by (induction s) (auto split: option.splits)

lemma last_index_append:
  "last_index (c # r) t = Some 0 \<Longrightarrow> last_index (pre @ c # r) t = Some (length pre)"
  by (induction pre) auto

text \<open>A predicate as a model declares it: trimmed, without a final semicolon and without the word WHERE.\<close>

definition where_ok :: "string \<Rightarrow> bool" where
  "where_ok w \<longleftrightarrow> w \<noteq> [] \<and> trim_space w = w \<and> \<not> has_suffix w '';'' \<and> \<not> str_contains (to_upper ('' '' @ w @ '';'')) '' WHERE ''"

lemma to_upper_Nil [simp]: "to_upper [] = []"
  by (simp add: to_upper_def)

lemma to_upper_append [simp]: "to_upper (a @ b) = to_upper a @ to_upper b"
  by (simp add: to_upper_def)

lemma to_upper_blank [simp]: "to_upper (CHR '' '' # s) = CHR '' '' # to_upper s"
  by (simp add: to_upper_def to_upper_char_def)

lemma str_contains_mono: "str_contains a t \<Longrightarrow> str_contains (a @ b) t"
  by (auto simp: str_contains_iff) (metis append.assoc)

lemma where_index:
  assumes "\<not> str_contains (to_upper ('' '' @ x)) '' WHERE ''"
  shows "last_index (to_upper (pre @ '' WHERE '' @ x)) '' WHERE '' = Some (length pre)"
proof -
  have up: "to_upper '' WHERE '' = '' WHERE ''" by code_simp
  have "\<not> str_contains (''WHERE '' @ to_upper x) '' WHERE ''" using assms by (simp add: has_prefix_def)
  then have "last_index (''WHERE '' @ to_upper x) '' WHERE '' = None" by (simp only: last_index_None list.distinct not_False_eq_True)
  then have "last_index (CHR '' '' # ''WHERE '' @ to_upper x) '' WHERE '' = Some 0" by (simp add: has_prefix_def)
  from last_index_append[OF this, of "to_upper pre"] show ?thesis using up by (simp add: to_upper_def)
qed

lemma extract_after_where:
  assumes "where_ok w" and "stop = [] \<or> stop = '';''"
  shows "extractTrailingWhere (pre @ '' WHERE '' @ w @ stop) = w"
proof -
  have "\<not> str_contains (CHR '' '' # to_upper w @ to_upper '';'') '' WHERE ''" using assms(1) by (simp add: where_ok_def)
  moreover from this have "\<not> str_contains (CHR '' '' # to_upper w) '' WHERE ''"
    using str_contains_mono[of "CHR '' '' # to_upper w" "'' WHERE ''" "to_upper '';''"] by auto
  ultimately have "\<not> str_contains (to_upper ('' '' @ w @ stop)) '' WHERE ''" using assms(2) by auto
  then have "last_index (to_upper (pre @ '' WHERE '' @ w @ stop)) '' WHERE '' = Some (length pre)" by (rule where_index)
  moreover have "trim_suffix (w @ stop) '';'' = w" using assms by (auto simp: where_ok_def trim_suffix_def has_suffix_def)
  ultimately show ?thesis using assms(1) by (simp add: extractTrailingWhere_def where_ok_def)
qed

lemma pg_where_same: "parsePgIndexWhere = extractTrailingWhere"
  by (simp add: fun_eq_iff parsePgIndexWhere_def extractTrailingWhere_def)

text \<open>
  The predicate of a partial index is read back. From the CREATE statement generated for it, with or without the
  semicolon, both introspectors that know partial indexes extract exactly the predicate of the model.
\<close>

theorem where_round_trip:
  assumes "where_ok w" and "columns \<noteq> []"
  shows "extractTrailingWhere (generateCreateIndexSQL tab name columns unique w dialect) = w \<and>
    parsePgIndexWhere (generateCreateIndexSQL tab name columns unique w dialect) = w \<and>
    extractTrailingWhere (butlast (generateCreateIndexSQL tab name columns unique w dialect)) = w"
proof -
  obtain pre where pre: "generateCreateIndexSQL tab name columns unique w dialect = pre @ '' WHERE '' @ w @ '';''"
    using assms by (auto simp: generateCreateIndexSQL_def where_ok_def)
  then have "butlast (generateCreateIndexSQL tab name columns unique w dialect) = pre @ '' WHERE '' @ w @ []" by (simp add: butlast_append)
  with pre show ?thesis using extract_after_where[OF assms(1), of "'';''" pre] extract_after_where[OF assms(1), of "[]" pre]
    by (simp add: pg_where_same)
qed

theorem where_round_trip_witness:
  "where_ok ''deleted = false'' \<and>
   parsePgIndexWhere (generateCreateIndexSQL ''users'' ''idx_live'' [''email''] True ''deleted = false'' ''postgres'') = ''deleted = false''"
proof -
  have ok: "where_ok ''deleted = false''" by code_simp
  show ?thesis using ok where_round_trip[OF ok, of "[''email'']" "''users''" "''idx_live''" True "''postgres''"] by simp
qed

text \<open>A predicate with a subquery loses all but its last condition.\<close>

lemma where_in_subquery:
  "extractTrailingWhere (generateCreateIndexSQL ''t'' ''i'' [''a''] False ''a IN (SELECT b FROM u WHERE c)'' ''sqlite'') = ''c)''"
  by code_simp

section \<open>The columns of a PostgreSQL index\<close>

lemma byte_index_append: "c \<notin> set pre \<Longrightarrow> byte_index (pre @ c # r) c = Some (length pre)"
  by (simp add: byte_index_def takeWhile_append)

lemma split_on_item: "d \<notin> set w \<Longrightarrow> split_on d (w @ d # r) = w # split_on d r"
  by (induction w) auto

lemma split_on_last: "d \<notin> set w \<Longrightarrow> split_on d w = [w]"
  by (induction w) auto

lemma valid_identifier_chars: "valid_identifier s \<Longrightarrow> c \<in> set s \<Longrightarrow> word_char c"
  by (auto simp: valid_identifier_def list_all_iff split: list.splits)

lemma valid_identifier_plain:
  assumes "valid_identifier s"
  shows "s \<noteq> []" and "CHR '','' \<notin> set s" and "CHR ''('' \<notin> set s" and "CHR '')'' \<notin> set s" and "trim_space s = s"
proof -
  have plain: "\<not> word_char CHR '',''" "\<not> word_char CHR ''(''" "\<not> word_char CHR '')''" "\<not> word_char CHR '' ''" "\<not> word_char CHR 0x09"
    "\<not> word_char CHR 0x0A" "\<not> word_char CHR 0x0B" "\<not> word_char CHR 0x0C" "\<not> word_char CHR 0x0D" by code_simp+
  show ne: "s \<noteq> []" using assms by (auto simp: valid_identifier_def)
  show "CHR '','' \<notin> set s" "CHR ''('' \<notin> set s" "CHR '')'' \<notin> set s" using plain valid_identifier_chars[OF assms] by blast+
  have "\<not> is_space c" if "c \<in> set s" for c using plain valid_identifier_chars[OF assms that] by (auto simp: is_space_def)
  then show "trim_space s = s" unfolding trim_space_def by (intro trim_by_id) auto
qed

lemma trim_space_blank: "trim_space (CHR '' '' # s) = trim_space s"
  by (simp add: trim_space_def trim_by_def is_space_def)

lemma split_on_blank: "map trim_space (split_on CHR '','' (CHR '' '' # s)) = map trim_space (split_on CHR '','' s)"
  by (rule split_on_Cons_cases[of "CHR '',''" s]) (simp add: trim_space_blank)

lemma split_on_join:
  "cols \<noteq> [] \<Longrightarrow> list_all valid_identifier cols \<Longrightarrow> map trim_space (split_on CHR '','' (str_join cols '', '')) = cols"
proof (induction cols "'', ''" rule: str_join.induct)
  case (2 s)
  then show ?case using valid_identifier_plain[of s] by (simp add: split_on_last)
next
  case (3 s u us)
  then have "map trim_space (split_on CHR '','' (s @ CHR '','' # CHR '' '' # str_join (u # us) '', '')) = trim_space s # u # us"
    by (simp add: split_on_item valid_identifier_plain split_on_blank del: split_on.simps)
  then show ?case using 3 valid_identifier_plain[of s] by simp
qed simp

lemma join_no_bracket: "list_all valid_identifier cols \<Longrightarrow> CHR '')'' \<notin> set (str_join cols '', '')"
  by (induction cols "'', ''" rule: str_join.induct) (auto dest: valid_identifier_plain)

text \<open>
  The definition \<open>pg_indexes\<close> shows for an index over plain columns gives those columns, whatever stands before the
  parenthesis, as long as it has none.
\<close>

lemma pg_columns_round_trip:
  assumes "list_all valid_identifier cols" and "cols \<noteq> []" and "CHR ''('' \<notin> set pre" and "CHR '')'' \<notin> set pre"
  shows "parsePgIndexColumns (pre @ ''('' @ str_join cols '', '' @ '')'' @ post) = cols"
proof -
  have "str_join cols '', '' \<noteq> []" using assms(1,2) by (cases cols; cases "tl cols") (auto dest: valid_identifier_plain)
  moreover have "byte_index (pre @ ''('' @ str_join cols '', '' @ '')'' @ post) CHR ''('' = Some (length pre)"
    using byte_index_append[OF assms(3)] by simp
  moreover have "byte_index (pre @ ''('' @ str_join cols '', '' @ '')'' @ post) CHR '')'' = Some (length (pre @ ''('' @ str_join cols '', ''))"
    using byte_index_append[of "CHR '')''" "pre @ ''('' @ str_join cols '', ''" post] assms(4) join_no_bracket[OF assms(1)] by simp
  ultimately show ?thesis using split_on_join[OF assms(2,1)] by (simp add: parsePgIndexColumns_def)
qed

section \<open>A second migration on SQLite\<close>

text \<open>
  What SQLite's catalogue answers for a table made by the CREATE statements of a model (documented of the pragmas and of
  \<open>sqlite_master\<close>): its columns in order with their declared types, the indexes \<open>ids\<close> in any order, the columns of
  each, and for a partial index the text of its statement up to the semicolon. Whether a column is reported as NOT NULL,
  and its default, are left open.
\<close>

definition answers :: "sql_query \<Rightarrow> string \<Rightarrow> goval list \<Rightarrow> goval list list \<Rightarrow> bool" where
  "answers query sql vals rows \<longleftrightarrow> (case query sql vals of Inl _ \<Rightarrow> False | Inr r \<Rightarrow> rowsVals r = rows \<and> rowsErr r = Inr ())"

definition bit :: "bool \<Rightarrow> goval" where
  "bit b = VInt S64 (if b then 1 else 0)"

definition column_row ::
  "schema_info \<Rightarrow> (string, string) gomap \<Rightarrow> (column_field \<Rightarrow> bool) \<Rightarrow> (column_field \<Rightarrow> string option) \<Rightarrow> nat \<times> column_field \<Rightarrow> goval list" where
  "column_row info typeMap nn dflt e =
     [VInt S64 (int (fst e)), VString (cfColumn (snd e)), VString (sql_type typeMap (snd e)), bit (nn (snd e)),
      (case dflt (snd e) of None \<Rightarrow> VNil | Some s \<Rightarrow> VString s), bit (cfColumn (snd e) = siPk info)]"

definition index_row :: "nat \<times> IndexInfo \<Rightarrow> goval list" where
  "index_row e = [VInt S64 (int (fst e)), VString (ixName (snd e)), bit (ixUnique (snd e)), VString ''c'', bit (ixWhere (snd e) \<noteq> [])]"

definition index_column_row :: "nat \<times> string \<Rightarrow> goval list" where
  "index_column_row e = [VInt S64 (int (fst e)), VInt S64 0, VString (snd e)]"

definition index_answers :: "sql_query \<Rightarrow> IndexInfo \<Rightarrow> bool" where
  "index_answers query idx \<longleftrightarrow>
     answers query (''PRAGMA index_info('' @ ixName idx @ '')'') [] (map index_column_row (enumerate 0 (ixColumns idx))) \<and>
     length (ixColumns idx) < 2 ^ 63 \<and> valid_identifier (ixName idx) \<and>
     (ixWhere idx = [] \<or> where_ok (ixWhere idx) \<and>
        (\<exists>pre. answers query master_query [VString (ixName idx)] [[VString (pre @ '' WHERE '' @ ixWhere idx)]]))"

definition lite_catalogue ::
  "sql_query \<Rightarrow> schema_info \<Rightarrow> (string, string) gomap \<Rightarrow> (column_field \<Rightarrow> bool) \<Rightarrow> (column_field \<Rightarrow> string option) \<Rightarrow> IndexInfo list \<Rightarrow> bool" where
  "lite_catalogue query info typeMap nn dflt ids \<longleftrightarrow>
     answers query (''PRAGMA table_info('' @ siTable info @ '')'') [] (map (column_row info typeMap nn dflt) (enumerate 0 (siFields info))) \<and>
     answers query (''PRAGMA index_list('' @ siTable info @ '')'') [] (map index_row (enumerate 0 ids)) \<and>
     (\<forall>idx \<in> set ids. index_answers query idx \<and> ixName idx \<noteq> ''sqlite_autoindex_'' @ siTable info @ ''_1'') \<and>
     length (siFields info) < 2 ^ 63 \<and> length ids < 2 ^ 63 \<and> valid_identifier (siTable info) \<and> siFields info \<noteq> []"

lemma scan_simps [simp]:
  "scan_str text (VString s) = Inr s" "scan_null text (VString s) = Inr (Some s)" "scan_null text VNil = Inr None"
  by (simp_all add: scan_str_def scan_null_def)

lemma scan_int_pos [simp]: "n < 2 ^ 63 \<Longrightarrow> scan_int text (VInt S64 (int n)) = Inr (int n)"
  using parse_sized_format[of S0 "int n"] by (simp add: scan_int_def in_range_def)

lemma scan_bit [simp]: "scan_int text (bit b) = Inr (if b then 1 else 0)"
  using scan_int_pos[of 0 "text"] scan_int_pos[of 1 "text"] by (simp add: bit_def)

lemma traverse_map:
  "(\<And>x. x \<in> set xs \<Longrightarrow> f (g x) = Inr (h x)) \<Longrightarrow> traverse f (map g xs) = Inr (map h xs)"
  by (induction xs) auto

lemma in_enumerate: "e \<in> set (enumerate 0 xs) \<Longrightarrow> fst e < length xs \<and> snd e \<in> set xs"
  by (auto simp: in_set_enumerate_eq dest: sym)

lemma all_rows_answers:
  assumes "answers query sql vals (map g xs)" and "\<And>x. x \<in> set xs \<Longrightarrow> f (g x) = Inr (h x)"
  shows "all_rows query sql vals failed ended f = Inr (map h xs)"
  using assms traverse_map[of xs f g h] by (auto simp: answers_def all_rows_def wrapE_def split: sum.splits)

definition lite_column_info ::
  "schema_info \<Rightarrow> (string, string) gomap \<Rightarrow> (column_field \<Rightarrow> bool) \<Rightarrow> (column_field \<Rightarrow> string option) \<Rightarrow> column_field \<Rightarrow> ColumnInfo" where
  "lite_column_info info typeMap nn dflt f = \<lparr>ciName = cfColumn f, ciDataType = sql_type typeMap f, ciNullable = (\<not> nn f),
     ciPrimary = (cfColumn f = siPk info), ciUniqueCol = False, ciDefault = dflt f\<rparr>"

lemma scan_column_row:
  "fst e < 2 ^ 63 \<Longrightarrow> wrapE msg (lite_column text (column_row info typeMap nn dflt e)) = Inr (lite_column_info info typeMap nn dflt (snd e))"
  by (simp add: lite_column_def column_row_def lite_column_info_def wrapE_def split: option.splits)

lemma index_where_found:
  assumes "where_ok w" and "answers query master_query [VString name] [[VString (pre @ '' WHERE '' @ w)]]"
  shows "getIndexWhere text query name = Inr w"
  using assms extract_after_where[OF assms(1), of "[]" pre] by (auto simp: answers_def getIndexWhere_def wrapE_def split: sum.splits)

lemma scan_index_row:
  assumes "fst e < 2 ^ 63" and "index_answers query (snd e)" and "ixName (snd e) \<noteq> ''sqlite_autoindex_'' @ tab @ ''_1''"
  shows "lite_index text query tab (index_row e) = Inr [snd e]"
proof -
  let ?idx = "snd e"
  have row: "lite_index_row text (index_row e) = Inr (ixName ?idx, if ixUnique ?idx then 1 else 0, if ixWhere ?idx \<noteq> [] then 1 else 0)"
    using assms(1) by (simp add: lite_index_row_def index_row_def)
  have "lite_index_column text (index_column_row x) = Inr (snd x)" if "x \<in> set (enumerate 0 (ixColumns ?idx))" for x
  proof -
    have "fst x < 2 ^ 63" using in_enumerate[OF that] assms(2) by (simp add: index_answers_def)
    moreover have "scan_int text (VInt S64 0) = Inr 0" using scan_int_pos[of 0] by simp
    ultimately show ?thesis by (simp add: lite_index_column_def index_column_row_def)
  qed
  then have "traverse (\<lambda>vs. wrapE ''scan index_info'' (lite_index_column text vs)) (map index_column_row (enumerate 0 (ixColumns ?idx))) =
      Inr (map snd (enumerate 0 (ixColumns ?idx)))"
    by (intro traverse_map) (simp add: wrapE_def)
  moreover obtain rows where "query (''PRAGMA index_info('' @ ixName ?idx @ '')'') [] = Inr rows"
      "rowsVals rows = map index_column_row (enumerate 0 (ixColumns ?idx))"
    using assms(2) by (auto simp: index_answers_def answers_def split: sum.splits)
  moreover have "(if ixWhere ?idx \<noteq> [] then getIndexWhere text query (ixName ?idx) else Inr []) = Inr (ixWhere ?idx)"
    using assms(2) index_where_found by (auto simp: index_answers_def)
  moreover have "valid_identifier (ixName ?idx)" using assms(2) by (simp add: index_answers_def)
  ultimately show ?thesis unfolding lite_index_def row using assms(3) by (cases "ixWhere ?idx = []") (simp_all add: wrapE_def)
qed

lemma concat_singletons: "concat (map (\<lambda>e. [snd e]) xs) = map snd xs"
  by (induction xs) auto

lemma lite_table_found:
  assumes C: "lite_catalogue query info typeMap nn dflt ids"
  shows "SQLiteGetTableInfo text (Some query) (siTable info) =
    Inr (Some \<lparr>tiName = siTable info, tiColumns = map (mark_unique ids \<circ> lite_column_info info typeMap nn dflt) (siFields info), tiIndexes = ids,
      tiPrimaryKey = last_primary (map (lite_column_info info typeMap nn dflt) (siFields info))\<rparr>)"
proof -
  have cols: "all_rows query (''PRAGMA table_info('' @ siTable info @ '')'') [] ''PRAGMA table_info failed'' ''table_info rows''
      (\<lambda>vs. wrapE ''scan table_info'' (lite_column text vs)) =
      Inr (map (\<lambda>e. lite_column_info info typeMap nn dflt (snd e)) (enumerate 0 (siFields info)))"
  proof (rule all_rows_answers)
    show "answers query (''PRAGMA table_info('' @ siTable info @ '')'') [] (map (column_row info typeMap nn dflt) (enumerate 0 (siFields info)))"
      using C by (simp add: lite_catalogue_def)
    show "wrapE ''scan table_info'' (lite_column text (column_row info typeMap nn dflt e)) = Inr (lite_column_info info typeMap nn dflt (snd e))"
      if "e \<in> set (enumerate 0 (siFields info))" for e
      using in_enumerate[OF that] C by (intro scan_column_row) (simp add: lite_catalogue_def)
  qed
  have found: "all_rows query (''PRAGMA index_list('' @ siTable info @ '')'') [] ''PRAGMA index_list failed'' ''index_list rows''
      (lite_index text query (siTable info)) = Inr (map (\<lambda>e. [snd e]) (enumerate 0 ids))"
  proof (rule all_rows_answers)
    show "answers query (''PRAGMA index_list('' @ siTable info @ '')'') [] (map index_row (enumerate 0 ids))"
      using C by (simp add: lite_catalogue_def)
    show "lite_index text query (siTable info) (index_row e) = Inr [snd e]" if "e \<in> set (enumerate 0 ids)" for e
      using in_enumerate[OF that] C by (intro scan_index_row) (auto simp: lite_catalogue_def)
  qed
  have ne: "valid_identifier (siTable info)" "siFields info \<noteq> []" using C by (simp_all add: lite_catalogue_def)
  have flat: "map (\<lambda>e. lite_column_info info typeMap nn dflt (snd e)) (enumerate 0 (siFields info)) = map (lite_column_info info typeMap nn dflt) (siFields info)"
    by (simp add: map_map[symmetric, of _ snd, unfolded comp_def] del: map_map)
  show ?thesis unfolding SQLiteGetTableInfo_def using ne cols found
    by (simp add: flat concat_singletons Let_def)
qed

text \<open>
  C16: on SQLite a second \<open>AutoMigrate\<close> does nothing. For a model whose CREATE statements are accepted, with indexes of
  distinct plain names and simple predicates, on a database whose catalogue describes the table made by those
  statements, \<open>AutoMigrate\<close> succeeds without executing any statement, whether columns may be dropped or not.
\<close>

theorem sqlite_second_migration:
  assumes "GetCachedModelInfo cache ty = (Inr info, cache')" and "GenerateCreateTableSQL info ''sqlite'' = Inr sql"
    and "distinct (index_names info)" and "list_all (\<lambda>n. \<not> has_prefix n ''sqlite_autoindex_'') (index_names info)"
    and "gm_get TypeMapping ''sqlite'' = Some typeMap" and "merged_indexes info ''sqlite'' = Inr m"
    and "distinct (map ixName ids)" and "set ids = snd ` set m"
    and "lite_catalogue (query d) info typeMap nn dflt ids"
    and "mgDialect mg = ''sqlite''" and "gm_get (mgFactories mg) ''sqlite'' = Some (\<lambda>d. SQLiteGetTableInfo text (Some (query d)))"
  shows "AutoMigrate (Some mg) allowDrop [ty] cache d = (Inr (), cache', d)"
proof -
  let ?ti = "\<lparr>tiName = siTable info, tiColumns = map (mark_unique ids \<circ> lite_column_info info typeMap nn dflt) (siFields info), tiIndexes = ids,
      tiPrimaryKey = last_primary (map (lite_column_info info typeMap nn dflt) (siFields info))\<rparr>"
  have "introspectTable mg d (siTable info) ''sqlite'' = Inr (Some ?ti)"
    using assms(11) lite_table_found[OF assms(9), of "text"] by (simp add: introspectTable_def)
  moreover have "GenerateAlterTableSQL info ?ti ''sqlite'' = Inr []"
    by (rule table_like_current[OF assms(5,6,3,4), where g = "mark_unique ids \<circ> lite_column_info info typeMap nn dflt"])
      (simp_all add: assms(7,8) mark_unique_def lite_column_info_def)
  ultimately show ?thesis using assms(1,10) by (simp add: migrate_table_def)
qed

text \<open>A catalogue of one table, and a model with a plain and a partial index.\<close>

definition reply :: "goval list list \<Rightarrow> sql_rows go_result" where
  "reply rows = Inr \<lparr>rowsCols = Inr [], rowsVals = rows, rowsErr = Inr ()\<rparr>"

definition catalogue_query :: "schema_info \<Rightarrow> (string, string) gomap \<Rightarrow> IndexInfo list \<Rightarrow> sql_query" where
  "catalogue_query info typeMap ids sql vals =
     (if sql = ''PRAGMA table_info('' @ siTable info @ '')''
      then reply (map (column_row info typeMap (\<lambda>_. False) (\<lambda>_. None)) (enumerate 0 (siFields info)))
      else if sql = ''PRAGMA index_list('' @ siTable info @ '')'' then reply (map index_row (enumerate 0 ids))
      else case find (\<lambda>idx. sql = ''PRAGMA index_info('' @ ixName idx @ '')'' \<or> sql = master_query \<and> vals = [VString (ixName idx)]) ids of
        None \<Rightarrow> Inl (Errorf ''no such table'')
      | Some idx \<Rightarrow> if sql = master_query then reply [[VString (''CREATE INDEX'' @ '' WHERE '' @ ixWhere idx)]]
          else reply (map index_column_row (enumerate 0 (ixColumns idx))))"

lemma find_unique: "x \<in> set xs \<Longrightarrow> P x \<Longrightarrow> (\<And>y. y \<in> set xs \<Longrightarrow> P y \<Longrightarrow> y = x) \<Longrightarrow> find P xs = Some x"
proof (induction xs)
  case (Cons a xs)
  show ?case
  proof (cases "P a")
    case True
    then show ?thesis using Cons.prems(3)[of a] by simp
  next
    case False
    then have "x \<in> set xs" using Cons.prems(1,2) by auto
    then have "find P xs = Some x" using Cons.prems(2)
    proof (rule Cons.IH)
      show "y = x" if "y \<in> set xs" "P y" for y using that by (intro Cons.prems(3)) simp_all
    qed
    then show ?thesis using False by simp
  qed
qed simp

definition plain_index :: "string \<Rightarrow> IndexInfo \<Rightarrow> bool" where
  "plain_index tab idx \<longleftrightarrow> valid_identifier (ixName idx) \<and> length (ixColumns idx) < 100 \<and>
     ixName idx \<noteq> ''sqlite_autoindex_'' @ tab @ ''_1'' \<and> (ixWhere idx = [] \<or> where_ok (ixWhere idx))"

lemma catalogue_describes:
  assumes "distinct (map ixName ids)" and "list_all (plain_index (siTable info)) ids"
    and "length (siFields info) < 100" "length ids < 100" "valid_identifier (siTable info)" "siFields info \<noteq> []"
  shows "lite_catalogue (catalogue_query info typeMap ids) info typeMap (\<lambda>_. False) (\<lambda>_. None) ids"
proof -
  have "index_answers (catalogue_query info typeMap ids) idx" if idx: "idx \<in> set ids" for idx
  proof -
    have same: "y = idx" if "y \<in> set ids" "ixName y = ixName idx" for y
      using that idx assms(1) by (auto simp: distinct_map dest: inj_onD)
    let ?P = "\<lambda>sql vals y. sql = ''PRAGMA index_info('' @ ixName y @ '')'' \<or> sql = master_query \<and> vals = [VString (ixName y)]"
    have "find (?P (''PRAGMA index_info('' @ ixName idx @ '')'') []) ids = Some idx"
      by (rule find_unique[OF idx]) (auto intro: same simp: master_query_def)
    moreover have "find (?P master_query [VString (ixName idx)]) ids = Some idx"
      by (rule find_unique[OF idx]) (auto intro: same simp: master_query_def)
    ultimately show ?thesis using assms(2) idx
      by (auto simp: index_answers_def answers_def catalogue_query_def reply_def plain_index_def list_all_iff master_query_def)
  qed
  moreover have "ixName idx \<noteq> ''sqlite_autoindex_'' @ siTable info @ ''_1''" if "idx \<in> set ids" for idx
    using that assms(2) by (auto simp: list_all_iff plain_index_def)
  ultimately show ?thesis using assms by (simp add: lite_catalogue_def answers_def catalogue_query_def reply_def)
qed

definition page_type :: struct_type where
  "page_type = note_type\<lparr>stIndexes := Some (Inr
     [IndexValue \<lparr>ixName = [], ixColumns = [''title''], ixUnique = False, ixWhere = []\<rparr>,
      IndexValue \<lparr>ixName = ''live_views'', ixColumns = [''views'', ''title''], ixUnique = True, ixWhere = ''deleted = 0''\<rparr>])\<rparr>"

theorem sqlite_second_migration_witness:
  "\<exists>info typeMap ids. compute_info page_type = Inr info \<and> siIndexes info \<noteq> [] \<and> siUnique info \<noteq> [] \<and>
     AutoMigrate (Some \<lparr>mgDialect = ''sqlite'',
       mgFactories = [(''sqlite'', \<lambda>d. SQLiteGetTableInfo (\<lambda>_. []) (Some (catalogue_query info typeMap ids)))],
       mgExec = (\<lambda>d sql. (Inl (Errorf sql), d @ [sql]))\<rparr>) True [page_type] [] [] = (Inr (), [(''Note'', info)], [])"
proof -
  have run: "case compute_info page_type of Inl _ \<Rightarrow> False | Inr info \<Rightarrow> siIndexes info \<noteq> [] \<and> siUnique info \<noteq> [] \<and>
     (case merged_indexes info ''sqlite'' of Inl _ \<Rightarrow> False | Inr m \<Rightarrow>
        distinct (index_names info) \<and> list_all (\<lambda>n. \<not> has_prefix n ''sqlite_autoindex_'') (index_names info) \<and> distinct (map ixName (map snd m)) \<and>
        list_all (plain_index (siTable info)) (map snd m) \<and> length (siFields info) < 100 \<and> length (map snd m) < 100 \<and>
        valid_identifier (siTable info) \<and> siFields info \<noteq> [])" by code_simp
  obtain info where i: "compute_info page_type = Inr info" using run by (cases "compute_info page_type") auto
  obtain m where m: "merged_indexes info ''sqlite'' = Inr m" using run i by (cases "merged_indexes info ''sqlite''") auto
  obtain typeMap where tm: "gm_get TypeMapping ''sqlite'' = Some typeMap" by (simp add: TypeMapping_def)
  have f: "siIndexes info \<noteq> []" "siUnique info \<noteq> []" "distinct (index_names info)" "list_all (\<lambda>n. \<not> has_prefix n ''sqlite_autoindex_'') (index_names info)"
      "distinct (map ixName (map snd m))" "list_all (plain_index (siTable info)) (map snd m)" "length (siFields info) < 100" "length (map snd m) < 100"
      "valid_identifier (siTable info)" "siFields info \<noteq> []" using run unfolding i m sum.case by blast+
  obtain sql where g: "GenerateCreateTableSQL info ''sqlite'' = Inr sql"
    using m tm by (auto simp: GenerateCreateTableSQL_def merged_indexes_def Let_def bindE_Inr_iff)
  note cat = catalogue_describes[OF f(5-10), of typeMap]
  have cached: "GetCachedModelInfo [] page_type = (Inr info, [(''Note'', info)])"
    using i by (simp add: GetCachedModelInfo_def page_type_def note_type_def)
  have "AutoMigrate (Some \<lparr>mgDialect = ''sqlite'',
       mgFactories = [(''sqlite'', \<lambda>d. SQLiteGetTableInfo (\<lambda>_. []) (Some (catalogue_query info typeMap (map snd m))))],
       mgExec = (\<lambda>d sql. (Inl (Errorf sql), d @ [sql]))\<rparr>) True [page_type] [] [] = (Inr (), [(''Note'', info)], [])"
    by (rule sqlite_second_migration[where query = "\<lambda>d. catalogue_query info typeMap (map snd m)", OF cached g f(3,4) tm m f(5) _ cat]) simp_all
  with i f(1,2) show ?thesis by blast
qed

end
