(* ===== verification/Redis_Client.thy ===== *)
theory Redis_Client
  imports Fetch_Models
begin

text \<open>
  The Redis cache: \<^verbatim>\<open>drivers/cache/redis/client.go\<close>.

  The server, reached through a third-party library, is a parameter: the commands the client sends, as functions on a
  state \<open>'r\<close>. A missing key is the library's error \<open>redis.Nil\<close>. So is the byte format of \<open>encoding/gob\<close>: a codec for
  maps, structs and slices of ids. The state of a client is that of the server and its counters. Models are structs.
\<close>

section \<open>Server and codec\<close>

datatype mget_value = MNil | MString string | MBytes string | MOther

record 'r redis =
  rdGet :: "'r \<Rightarrow> string \<Rightarrow> string go_result \<times> 'r"
  rdSet :: "'r \<Rightarrow> string \<Rightarrow> string \<Rightarrow> int \<Rightarrow> unit go_result \<times> 'r"
  rdDel :: "'r \<Rightarrow> string list \<Rightarrow> unit go_result \<times> 'r"
  rdMGet :: "'r \<Rightarrow> string list \<Rightarrow> mget_value list go_result \<times> 'r"
  rdSetNX :: "'r \<Rightarrow> string \<Rightarrow> string \<Rightarrow> int \<Rightarrow> bool go_result \<times> 'r"
  rdIncr :: "'r \<Rightarrow> string \<Rightarrow> int go_result \<times> 'r"
  rdExpire :: "'r \<Rightarrow> string \<Rightarrow> int \<Rightarrow> bool go_result \<times> 'r"
  rdScan :: "'r \<Rightarrow> nat \<Rightarrow> string \<Rightarrow> nat \<Rightarrow> (string list \<times> nat) go_result \<times> 'r"
  rdPing :: "'r \<Rightarrow> unit go_result \<times> 'r"
  rdClose :: "'r \<Rightarrow> unit go_result \<times> 'r"

definition RedisNil :: goerror where
  "RedisNil = Errorf ''redis: nil''"

record gob_codec =
  encMap :: "gomodel \<Rightarrow> string go_result"
  decMap :: "string \<Rightarrow> gomodel go_result"
  decStruct :: "string \<Rightarrow> gomodel \<Rightarrow> gomodel go_result"
  encIDs :: "int list \<Rightarrow> string go_result"
  decIDs :: "string \<Rightarrow> int list go_result"

record 'r redis_client =
  rcServer :: 'r
  rcCounters :: "(string, int) gomap"
  createdInternally :: bool

definition incrementCounter :: "string \<Rightarrow> 'r redis_client \<Rightarrow> 'r redis_client" where
  "incrementCounter name c =
     c\<lparr>rcCounters := gm_set name ((case gm_get (rcCounters c) name of Some n \<Rightarrow> n | None \<Rightarrow> 0) + 1) (rcCounters c)\<rparr>"

text \<open>A command to the server.\<close>

definition send :: "('r \<Rightarrow> 'a go_result \<times> 'r) \<Rightarrow> 'r redis_client \<Rightarrow> 'a go_result \<times> 'r redis_client" where
  "send cmd c = (let (r, s) = cmd (rcServer c) in (r, c\<lparr>rcServer := s\<rparr>))"

section \<open>Life cycle\<close>

text \<open>With a library client or with options to connect; only a connection of its own is tried, and closed.\<close>

definition NewClient :: "'r redis \<Rightarrow> bool \<Rightarrow> 'r \<Rightarrow> 'r redis_client go_result \<times> 'r" where
  "NewClient srv given s =
     (if given then (Inr \<lparr>rcServer = s, rcCounters = [], createdInternally = False\<rparr>, s)
      else case rdPing srv s of
        (Inl e, s') \<Rightarrow> (Inl (Wrapped ''failed to ping redis'' e), s')
      | (Inr _, s') \<Rightarrow> (Inr \<lparr>rcServer = s', rcCounters = [], createdInternally = True\<rparr>, s'))"

definition rcClose :: "'r redis \<Rightarrow> 'r redis_client \<Rightarrow> unit go_result \<times> 'r redis_client" where
  "rcClose srv c = (if createdInternally c then send (rdClose srv) c else (Inr (), c))"

definition rcGetCacheStats :: "'r redis_client \<Rightarrow> (string, int) gomap" where
  "rcGetCacheStats c = rcCounters c"

section \<open>Strings\<close>

definition rcGet :: "'r redis \<Rightarrow> 'r redis_client \<Rightarrow> string \<Rightarrow> string go_result \<times> 'r redis_client" where
  "rcGet srv c key =
     (case send (\<lambda>s. rdGet srv s key) (incrementCounter ''Get'' c) of
        (Inl e, c1) \<Rightarrow>
          if e = RedisNil then (Inl ErrNotFound, incrementCounter ''GetMiss'' c1)
          else (Inl (Wrapped ''redis Get error'' e), incrementCounter ''GetError'' c1)
      | (Inr val, c1) \<Rightarrow> (Inr val, incrementCounter ''GetHit'' c1))"

definition redis_set :: "'r redis \<Rightarrow> string \<Rightarrow> string \<Rightarrow> string \<Rightarrow> int \<Rightarrow> 'r redis_client \<Rightarrow> unit go_result \<times> 'r redis_client" where
  "redis_set srv what key val expiration c =
     (case send (\<lambda>s. rdSet srv s key val expiration) c of
        (Inl e, c1) \<Rightarrow> (Inl (Wrapped what e), c1)
      | (Inr _, c1) \<Rightarrow> (Inr (), c1))"

definition rcSet :: "'r redis \<Rightarrow> 'r redis_client \<Rightarrow> string \<Rightarrow> string \<Rightarrow> int \<Rightarrow> unit go_result \<times> 'r redis_client" where
  "rcSet srv c key val expiration = redis_set srv ''redis Set error'' key val expiration (incrementCounter ''Set'' c)"

text \<open>A key that is not there is no error.\<close>

definition redis_del :: "'r redis \<Rightarrow> string \<Rightarrow> string list \<Rightarrow> 'r redis_client \<Rightarrow> unit go_result \<times> 'r redis_client" where
  "redis_del srv what keys c =
     (case send (\<lambda>s. rdDel srv s keys) c of
        (Inl e, c1) \<Rightarrow> (if e \<noteq> RedisNil then Inl (Wrapped what e) else Inr (), c1)
      | (Inr _, c1) \<Rightarrow> (Inr (), c1))"

definition rcDelete :: "'r redis \<Rightarrow> 'r redis_client \<Rightarrow> string \<Rightarrow> unit go_result \<times> 'r redis_client" where
  "rcDelete srv c key = redis_del srv ''redis Del error'' [key] (incrementCounter ''Delete'' c)"

section \<open>Models\<close>

text \<open>A map of fields, or else the struct itself.\<close>

definition decode_model :: "gob_codec \<Rightarrow> string \<Rightarrow> gomodel \<Rightarrow> gomodel go_result" where
  "decode_model codec b dest =
     (case decMap codec b of
        Inr dataMap \<Rightarrow> Inr (populate dest dataMap)
      | Inl _ \<Rightarrow> (case decStruct codec b dest of Inl e \<Rightarrow> Inl (Wrapped ''redis Gob Unmarshal error'' e) | Inr m \<Rightarrow> Inr m))"

definition rcGetModel :: "'r redis \<Rightarrow> gob_codec \<Rightarrow> 'r redis_client \<Rightarrow> string \<Rightarrow> gomodel \<Rightarrow> gomodel go_result \<times> 'r redis_client" where
  "rcGetModel srv codec c key dest =
     (case send (\<lambda>s. rdGet srv s key) (incrementCounter ''GetModel'' c) of
        (Inl e, c1) \<Rightarrow>
          if e = RedisNil then (Inl ErrNotFound, incrementCounter ''GetModelMiss'' c1)
          else (Inl (Wrapped ''redis Get error'' e), incrementCounter ''GetModelError'' c1)
      | (Inr val, c1) \<Rightarrow> (decode_model codec val dest, incrementCounter ''GetModelHit'' c1))"

definition mget_one :: "gob_codec \<Rightarrow> mget_value \<Rightarrow> gomodel \<Rightarrow> 'r redis_client \<Rightarrow> gomodel go_result \<times> 'r redis_client" where
  "mget_one codec val dest c =
     (case val of
        MNil \<Rightarrow> (Inl ErrNotFound, incrementCounter ''GetModelMiss'' c)
      | MOther \<Rightarrow> (Inl (Errorf ''redis MGet: unexpected type''), incrementCounter ''GetModelError'' c)
      | MString b \<Rightarrow> (decode_model codec b dest, incrementCounter ''GetModelHit'' c)
      | MBytes b \<Rightarrow> (decode_model codec b dest, incrementCounter ''GetModelHit'' c))"

text \<open>The values in the order of the keys; a key without a value keeps a nil error and its destination.\<close>

fun mget_values :: "gob_codec \<Rightarrow> mget_value list \<Rightarrow> gomodel list \<Rightarrow> 'r redis_client \<Rightarrow> gomodel go_result list \<times> 'r redis_client" where
  "mget_values codec [] dests c = (map Inr dests, c)"
| "mget_values codec (v # vals) dests c =
     (case dests of
        [] \<Rightarrow> ([Inl (Panic ''index out of range'')], c)
      | d # ds \<Rightarrow> (let (r, c1) = mget_one codec v d c; (rs, c2) = mget_values codec vals ds c1 in (r # rs, c2)))"

definition rcMGetModel ::
  "'r redis \<Rightarrow> gob_codec \<Rightarrow> 'r redis_client \<Rightarrow> string list \<Rightarrow> gomodel list \<Rightarrow> gomodel go_result list \<times> 'r redis_client" where
  "rcMGetModel srv codec c keys dests =
     (let c0 = incrementCounter ''MGetModel'' c in
      if keys = [] then ([], c0)
      else case send (\<lambda>s. rdMGet srv s keys) c0 of
        (Inl e, c1) \<Rightarrow> (map (\<lambda>_. Inl (Wrapped ''redis MGet error'' e)) keys, incrementCounter ''MGetModelError'' c1)
      | (Inr vals, c1) \<Rightarrow> mget_values codec vals dests c1)"

definition rcSetModel ::
  "'r redis \<Rightarrow> gob_codec \<Rightarrow> 'r redis_client \<Rightarrow> string \<Rightarrow> gomodel \<Rightarrow> string list \<Rightarrow> int \<Rightarrow> unit go_result \<times> 'r redis_client" where
  "rcSetModel srv codec c key model fieldsToCache expiration =
     (let c0 = incrementCounter ''SetModel'' c in
      case encMap codec (select_fields model fieldsToCache) of
        Inl e \<Rightarrow> (Inl (Wrapped ''redis Gob map encode error'' e), c0)
      | Inr b \<Rightarrow> redis_set srv ''redis Set error'' key b expiration c0)"

definition rcDeleteModel :: "'r redis \<Rightarrow> 'r redis_client \<Rightarrow> string \<Rightarrow> unit go_result \<times> 'r redis_client" where
  "rcDeleteModel srv c key = redis_del srv ''redis Del error'' [key] (incrementCounter ''DeleteModel'' c)"

section \<open>Query ids\<close>

definition rcGetQueryIDs :: "'r redis \<Rightarrow> gob_codec \<Rightarrow> 'r redis_client \<Rightarrow> string \<Rightarrow> int list go_result \<times> 'r redis_client" where
  "rcGetQueryIDs srv codec c queryKey =
     (case send (\<lambda>s. rdGet srv s queryKey) (incrementCounter ''GetQueryIDs'' c) of
        (Inl e, c1) \<Rightarrow>
          if e = RedisNil then (Inl ErrNotFound, incrementCounter ''GetQueryIDsMiss'' c1)
          else (Inl (Wrapped ''redis Get error for query key'' e), incrementCounter ''GetQueryIDsError'' c1)
      | (Inr val, c1) \<Rightarrow>
          ((case decIDs codec val of Inl e \<Rightarrow> Inl (Wrapped ''redis Gob Unmarshal error for query key'' e) | Inr ids \<Rightarrow> Inr ids),
           incrementCounter ''GetQueryIDsHit'' c1))"

definition rcSetQueryIDs :: "'r redis \<Rightarrow> gob_codec \<Rightarrow> 'r redis_client \<Rightarrow> string \<Rightarrow> int list \<Rightarrow> int \<Rightarrow> unit go_result \<times> 'r redis_client" where
  "rcSetQueryIDs srv codec c queryKey ids expiration =
     (let c0 = incrementCounter ''SetQueryIDs'' c in
      case encIDs codec ids of
        Inl e \<Rightarrow> (Inl (Wrapped ''redis Gob Marshal error for query key'' e), c0)
      | Inr b \<Rightarrow> redis_set srv ''redis Set error for query key'' queryKey b expiration c0)"

definition rcDeleteQueryIDs :: "'r redis \<Rightarrow> 'r redis_client \<Rightarrow> string \<Rightarrow> unit go_result \<times> 'r redis_client" where
  "rcDeleteQueryIDs srv c queryKey = redis_del srv ''redis Del error for query key'' [queryKey] (incrementCounter ''DeleteQueryIDs'' c)"

section \<open>Locks and counters\<close>

definition rcAcquireLock :: "'r redis \<Rightarrow> 'r redis_client \<Rightarrow> string \<Rightarrow> int \<Rightarrow> bool go_result \<times> 'r redis_client" where
  "rcAcquireLock srv c lockKey expiration =
     (case send (\<lambda>s. rdSetNX srv s lockKey ''1'' expiration) (incrementCounter ''AcquireLock'' c) of
        (Inl e, c1) \<Rightarrow> (Inl (Wrapped ''redis SetNX error'' e), c1)
      | (Inr acquired, c1) \<Rightarrow> (Inr acquired, c1))"

definition rcReleaseLock :: "'r redis \<Rightarrow> 'r redis_client \<Rightarrow> string \<Rightarrow> unit go_result \<times> 'r redis_client" where
  "rcReleaseLock srv c lockKey = redis_del srv ''redis Del error for lock key'' [lockKey] (incrementCounter ''ReleaseLock'' c)"

definition rcIncr :: "'r redis \<Rightarrow> 'r redis_client \<Rightarrow> string \<Rightarrow> int go_result \<times> 'r redis_client" where
  "rcIncr srv c key =
     (case send (\<lambda>s. rdIncr srv s key) (incrementCounter ''Incr'' c) of
        (Inl e, c1) \<Rightarrow> (Inl (Wrapped ''redis Incr error'' e), c1)
      | (Inr val, c1) \<Rightarrow> (Inr val, c1))"

definition rcExpire :: "'r redis \<Rightarrow> 'r redis_client \<Rightarrow> string \<Rightarrow> int \<Rightarrow> unit go_result \<times> 'r redis_client" where
  "rcExpire srv c key expiration =
     (case send (\<lambda>s. rdExpire srv s key expiration) (incrementCounter ''Expire'' c) of
        (Inl e, c1) \<Rightarrow> (Inl (Wrapped ''redis Expire error'' e), c1)
      | (Inr success, c1) \<Rightarrow> (Inr (), c1))"

section \<open>Deletion by prefix\<close>

text \<open>The SCAN loop; \<open>None\<close> when the server never returns the cursor 0.\<close>

partial_function (option) scan_loop ::
  "'r redis \<Rightarrow> string \<Rightarrow> nat \<Rightarrow> string list \<Rightarrow> 'r redis_client \<Rightarrow> (string list go_result \<times> 'r redis_client) option" where
  "scan_loop srv pattern cursor keysToDelete c =
     (case send (\<lambda>s. rdScan srv s cursor pattern 100) c of
        (Inl e, c1) \<Rightarrow> Some (Inl (Wrapped ''redis SCAN error'' e), c1)
      | (Inr (keys, cursor'), c1) \<Rightarrow>
          if cursor' = 0 then Some (Inr (keysToDelete @ keys), c1)
          else scan_loop srv pattern cursor' (keysToDelete @ keys) c1)"

definition rcDeleteByPrefix :: "'r redis \<Rightarrow> 'r redis_client \<Rightarrow> string \<Rightarrow> (unit go_result \<times> 'r redis_client) option" where
  "rcDeleteByPrefix srv c prefix =
     (case scan_loop srv (prefix @ ''*'') 0 [] (incrementCounter ''DeleteByPrefix'' c) of
        None \<Rightarrow> None
      | Some (Inl e, c1) \<Rightarrow> Some (Inl e, c1)
      | Some (Inr keysToDelete, c1) \<Rightarrow> Some (if keysToDelete \<noteq> [] then redis_del srv ''redis DEL error'' keysToDelete c1 else (Inr (), c1)))"

section \<open>The client as a cache\<close>

definition redisCache :: "'r redis \<Rightarrow> gob_codec \<Rightarrow> 'r redis_client cache_client" where
  "redisCache srv codec =
     \<lparr>cGet = rcGet srv, cSet = rcSet srv, cDelete = rcDelete srv, cGetModel = rcGetModel srv codec, cSetModel = rcSetModel srv codec,
      cDeleteModel = rcDeleteModel srv, cGetQueryIDs = rcGetQueryIDs srv codec, cSetQueryIDs = rcSetQueryIDs srv codec,
      cDeleteQueryIDs = rcDeleteQueryIDs srv, cAcquireLock = rcAcquireLock srv, cReleaseLock = rcReleaseLock srv, cIncr = rcIncr srv,
      cExpire = rcExpire srv, cGetCacheStats = rcGetCacheStats, cMGetModel = rcMGetModel srv codec\<rparr>"

section \<open>What the client relies on\<close>

text \<open>
  \<open>content s\<close> is what the server holds. Keys may expire or be evicted at any time, so a command may lose entries, but
  MGET answers with one value per key, taken from what is held, and SET adds its own entry only. Errors of the server
  are its own: none wraps an error of the cache package.
\<close>

definition redis_laws :: "'r redis \<Rightarrow> ('r \<Rightarrow> string \<rightharpoonup> string) \<Rightarrow> bool" where
  "redis_laws srv content \<longleftrightarrow>
     (\<forall>s ks vals s'. rdMGet srv s ks = (Inr vals, s') \<longrightarrow> length vals = length ks) \<and>
     (\<forall>s ks vals s' i b. rdMGet srv s ks = (Inr vals, s') \<longrightarrow> i < length ks \<longrightarrow> vals ! i \<in> {MString b, MBytes b} \<longrightarrow>
        content s (ks ! i) = Some b) \<and>
     (\<forall>s ks e s'. rdMGet srv s ks = (Inl e, s') \<longrightarrow> \<not> errors_is e ErrCacheNoneResult) \<and>
     (\<forall>s ks. content (snd (rdMGet srv s ks)) \<subseteq>\<^sub>m content s) \<and>
     (\<forall>s k v d j b. content (snd (rdSet srv s k v d)) j = Some b \<longrightarrow> content s j = Some b \<or> j = k \<and> b = v)"

text \<open>
  Gob decodes a map to what it encoded, up to the flattening of pointers, and refuses the marker of a missing row.
\<close>

definition gob_laws :: "gob_codec \<Rightarrow> bool" where
  "gob_laws codec \<longleftrightarrow>
     (\<forall>m b. encMap codec m = Inr b \<longrightarrow> (\<exists>dm. gob_model m = Some dm \<and> decMap codec b = Inr dm)) \<and>
     (\<exists>e. decMap codec NoneResult = Inl e) \<and> (\<forall>dest. \<exists>e. decStruct codec NoneResult dest = Inl e) \<and>
     (\<forall>b dest e. decStruct codec b dest = Inl e \<longrightarrow> \<not> errors_is e ErrCacheNoneResult)"

definition redis_read :: "gob_codec \<Rightarrow> ('r \<Rightarrow> string \<rightharpoonup> string) \<Rightarrow> 'r redis_client \<Rightarrow> string \<Rightarrow> gomodel \<Rightarrow> gomodel option" where
  "redis_read codec content c k dest =
     (case content (rcServer c) k of
        None \<Rightarrow> None
      | Some b \<Rightarrow> (case decode_model codec b dest of Inl _ \<Rightarrow> None | Inr m \<Rightarrow> Some m))"

section \<open>Reading through Redis\<close>

lemma rcServer_incrementCounter [simp]: "rcServer (incrementCounter n c) = rcServer c"
  by (simp add: incrementCounter_def)

lemma rcServer_mget_one [simp]: "rcServer (snd (mget_one codec v d c)) = rcServer c"
  by (simp add: mget_one_def split: mget_value.split)

definition mget_result :: "gob_codec \<Rightarrow> mget_value \<Rightarrow> gomodel \<Rightarrow> gomodel go_result" where
  "mget_result codec v d =
     (case v of MNil \<Rightarrow> Inl ErrNotFound | MOther \<Rightarrow> Inl (Errorf ''redis MGet: unexpected type'')
      | MString b \<Rightarrow> decode_model codec b d | MBytes b \<Rightarrow> decode_model codec b d)"

lemma mget_one_result: "fst (mget_one codec v d c) = mget_result codec v d"
  by (simp add: mget_one_def mget_result_def split: mget_value.split)

lemma rcServer_mget_values [simp]: "rcServer (snd (mget_values codec vals dests c)) = rcServer c"
proof (induction vals arbitrary: dests c)
  case (Cons v vals)
  then show ?case by (auto simp: Let_def split: list.split prod.split) (metis rcServer_mget_one snd_conv)
qed simp

lemma mget_values_results:
  "length vals = length dests \<Longrightarrow> fst (mget_values codec vals dests c) = map2 (mget_result codec) vals dests"
proof (induction vals arbitrary: dests c)
  case (Cons v vals)
  then obtain d ds where "dests = d # ds" by (cases dests) auto
  with Cons show ?case by (simp add: case_prod_unfold Let_def mget_one_result)
qed simp

lemma decode_model_error:
  "gob_laws codec \<Longrightarrow> decode_model codec b dest = Inl e \<Longrightarrow> \<not> errors_is e ErrCacheNoneResult"
  by (auto simp: decode_model_def gob_laws_def split: sum.splits)

lemma decode_marker: "gob_laws codec \<Longrightarrow> decode_model codec NoneResult dest \<noteq> Inr m"
proof -
  assume gob: "gob_laws codec"
  obtain e where "decMap codec NoneResult = Inl e" using gob unfolding gob_laws_def by blast
  moreover obtain e' where "decStruct codec NoneResult dest = Inl e'" using gob unfolding gob_laws_def by blast
  ultimately show ?thesis by (simp add: decode_model_def)
qed

lemma decode_encoded:
  "gob_laws codec \<Longrightarrow> encMap codec (select_fields m fs) = Inr b \<Longrightarrow> decode_model codec b dest = Inr (local_restored m fs dest)"
proof -
  assume gob: "gob_laws codec" and enc: "encMap codec (select_fields m fs) = Inr b"
  obtain dm where "gob_model (select_fields m fs) = Some dm \<and> decMap codec b = Inr dm"
    using gob enc unfolding gob_laws_def by blast
  then show ?thesis by (simp add: decode_model_def local_restored_def)
qed

lemma laws_mget_length: "redis_laws srv content \<Longrightarrow> rdMGet srv s ks = (Inr vals, s') \<Longrightarrow> length vals = length ks"
  unfolding redis_laws_def by metis

lemma laws_mget_le: "redis_laws srv content \<Longrightarrow> content (snd (rdMGet srv s ks)) \<subseteq>\<^sub>m content s"
  unfolding redis_laws_def by blast

lemma laws_set:
  "redis_laws srv content \<Longrightarrow> content (snd (rdSet srv s k v d)) j = Some b \<Longrightarrow> content s j = Some b \<or> j = k \<and> b = v"
  unfolding redis_laws_def by blast

text \<open>A client of a lawful server is a cache for models; the marker of a missing row is never read back.\<close>

lemma rcMGetModel_cases:
  assumes "redis_laws srv content" and "length dests = length keys"
  shows "fst (rcMGetModel srv codec c keys dests) = [] \<and> keys = [] \<or>
   (\<exists>e s'. rdMGet srv (rcServer c) keys = (Inl e, s') \<and>
      fst (rcMGetModel srv codec c keys dests) = map (\<lambda>_. Inl (Wrapped ''redis MGet error'' e)) keys) \<or>
   (\<exists>vals s'. rdMGet srv (rcServer c) keys = (Inr vals, s') \<and> length vals = length keys \<and>
      fst (rcMGetModel srv codec c keys dests) = map2 (mget_result codec) vals dests)"
proof (cases "rdMGet srv (rcServer c) keys")
  case (Pair r s')
  show ?thesis
  proof (cases r)
    case (Inr vals)
    then have "length vals = length keys" using laws_mget_length[OF assms(1)] Pair by simp
    then show ?thesis using Pair Inr assms(2) by (simp add: rcMGetModel_def send_def Let_def mget_values_results)
  qed (use Pair in \<open>simp add: rcMGetModel_def send_def Let_def\<close>)
qed

lemma rcMGetModel_server:
  "rcServer (snd (rcMGetModel srv codec c keys dests)) = (if keys = [] then rcServer c else snd (rdMGet srv (rcServer c) keys))"
  by (auto simp: rcMGetModel_def send_def Let_def split: prod.split sum.split)

lemma redis_set_server: "rcServer (snd (redis_set srv what k v d c)) = snd (rdSet srv (rcServer c) k v d)"
  by (auto simp: redis_set_def send_def split: prod.split sum.split)

lemma redis_mget_value:
  assumes "redis_laws srv content" and "length dests = length keys" and "i < length keys"
    and "fst (rcMGetModel srv codec c keys dests) ! i = Inr m"
  shows "redis_read codec content c (keys ! i) (dests ! i) = Some m"
proof -
  from rcMGetModel_cases[OF assms(1,2), of codec c] assms(3,4) obtain vals s' where
    vals: "rdMGet srv (rcServer c) keys = (Inr vals, s')" "length vals = length keys"
      "map2 (mget_result codec) vals dests ! i = Inr m" by (elim disjE exE conjE) simp_all
  then have "mget_result codec (vals ! i) (dests ! i) = Inr m" using assms(2,3) by simp
  then obtain b where b: "vals ! i \<in> {MString b, MBytes b}" "decode_model codec b (dests ! i) = Inr m"
    by (auto simp: mget_result_def split: mget_value.splits)
  then have "content (rcServer c) (keys ! i) = Some b" using assms(1,3) vals(1) unfolding redis_laws_def by blast
  with b(2) show ?thesis by (simp add: redis_read_def)
qed

lemma redis_mget_error:
  assumes "redis_laws srv content" and "gob_laws codec" and "length dests = length keys" and "i < length keys"
    and "fst (rcMGetModel srv codec c keys dests) ! i = Inl e"
  shows "\<not> errors_is e ErrCacheNoneResult"
  using rcMGetModel_cases[OF assms(1,3), of codec c]
proof (elim disjE exE conjE)
  fix e' s' assume e': "rdMGet srv (rcServer c) keys = (Inl e', s')"
    "fst (rcMGetModel srv codec c keys dests) = map (\<lambda>_. Inl (Wrapped ''redis MGet error'' e')) keys"
  have "\<not> errors_is e' ErrCacheNoneResult" using assms(1) e'(1) unfolding redis_laws_def by blast
  then show ?thesis using e'(2) assms(4,5) by auto
next
  fix vals s' assume "length vals = length keys"
    "fst (rcMGetModel srv codec c keys dests) = map2 (mget_result codec) vals dests"
  then have "mget_result codec (vals ! i) (dests ! i) = Inl e" using assms(3-5) by simp
  then show ?thesis using decode_model_error[OF assms(2)] by (auto simp: mget_result_def split: mget_value.splits)
qed (use assms(4) in simp)

lemma redis_mget_length:
  assumes "redis_laws srv content" and "length dests = length keys"
  shows "length (fst (rcMGetModel srv codec c keys dests)) = length keys"
  using rcMGetModel_cases[OF assms, of codec c] assms(2) by (elim disjE exE conjE) simp_all

lemma redis_read_mono:
  "content (rcServer c') \<subseteq>\<^sub>m content (rcServer c) \<Longrightarrow> redis_read codec content c' k dest = Some m \<Longrightarrow>
   redis_read codec content c k dest = Some m"
  by (auto simp: redis_read_def map_le_def dom_def split: option.splits)

lemma redis_read_Some:
  "redis_read codec content c k dest = Some m \<longleftrightarrow> (\<exists>b. content (rcServer c) k = Some b \<and> decode_model codec b dest = Inr m)"
  by (auto simp: redis_read_def split: option.splits sum.splits)

lemma redis_read_incrementCounter [simp]: "redis_read codec content (incrementCounter n c) = redis_read codec content c"
  by (simp add: redis_read_def fun_eq_iff)

lemma redis_read_set:
  assumes "redis_laws srv content" and "redis_read codec content (snd (redis_set srv what k v d c)) j dest = Some x"
  shows "redis_read codec content c j dest = Some x \<or> j = k \<and> decode_model codec v dest = Inr x"
  using assms(2) laws_set[OF assms(1)] unfolding redis_read_Some redis_set_server by blast

lemma redis_model_cache:
  assumes srv: "redis_laws srv content" and gob: "gob_laws codec"
  shows "model_cache (redisCache srv codec) (redis_read codec content) (\<lambda>_ _. False) local_restored"
proof
  fix s keys and dests :: "gomodel list" and i e k d j x v fs and m dest :: gomodel
  note [simp] = redisCache_def
  show "length dests = length keys \<Longrightarrow> length (fst (cMGetModel (redisCache srv codec) s keys dests)) = length keys"
    by (simp add: redis_mget_length[OF srv])
  show "length dests = length keys \<Longrightarrow> i < length keys \<Longrightarrow> fst (cMGetModel (redisCache srv codec) s keys dests) ! i = Inr m \<Longrightarrow>
      redis_read codec content s (keys ! i) (dests ! i) = Some m"
    by (simp add: redis_mget_value[OF srv])
  show "length dests = length keys \<Longrightarrow> i < length keys \<Longrightarrow> fst (cMGetModel (redisCache srv codec) s keys dests) ! i = Inl e \<Longrightarrow>
      errors_is e ErrCacheNoneResult \<Longrightarrow> False"
    using redis_mget_error[OF srv gob] by simp
  have "content (rcServer (snd (rcMGetModel srv codec s keys dests))) \<subseteq>\<^sub>m content (rcServer s)"
    using laws_mget_le[OF srv] by (simp add: rcMGetModel_server)
  from redis_read_mono[OF this] show "redis_read codec content (snd (cMGetModel (redisCache srv codec) s keys dests)) k dest = Some m \<Longrightarrow>
      redis_read codec content s k dest = Some m"
    by simp
  show "redis_read codec content (snd (cSetModel (redisCache srv codec) s k m fs d)) j dest = Some x \<Longrightarrow>
      redis_read codec content s j dest = Some x \<or> j = k \<and> x = local_restored m fs dest"
    by (cases "encMap codec (select_fields m fs)")
      (auto simp: rcSetModel_def Let_def decode_encoded[OF gob] dest!: redis_read_set[OF srv])
  show "redis_read codec content (snd (cSet (redisCache srv codec) s k v d)) j dest = Some x \<Longrightarrow>
      redis_read codec content s j dest = Some x \<or> j = k \<and> v \<noteq> NoneResult"
    using decode_marker[OF gob] by (auto simp: rcSet_def dest!: redis_read_set[OF srv])
qed simp_all

text \<open>The server agrees with the table \<open>T\<close>.\<close>

definition redis_coherent ::
  "gob_codec \<Rightarrow> ('r \<Rightarrow> string \<rightharpoonup> string) \<Rightarrow> ModelInfo \<Rightarrow> gomodel \<Rightarrow> (int \<Rightarrow> gomodel option) \<Rightarrow> 'r redis_client \<Rightarrow> bool" where
  "redis_coherent codec content info zero T c \<longleftrightarrow>
     (\<forall>i x. redis_read codec content c (generateCacheKey (TableName info) i) zero = Some x \<longrightarrow>
        (\<exists>r. T i = Some r \<and> same_fields info x r))"


text \<open>A server that is a list of its entries, with a page of one key per SCAN.\<close>

definition listRedis :: "(string, string) gomap redis" where
  "listRedis =
     \<lparr>rdGet = (\<lambda>s k. (case gm_get s k of None \<Rightarrow> Inl RedisNil | Some v \<Rightarrow> Inr v, s)),
      rdSet = (\<lambda>s k v d. (Inr (), gm_set k v s)),
      rdDel = (\<lambda>s ks. (Inr (), filter (\<lambda>(k, v). k \<notin> set ks) s)),
      rdMGet = (\<lambda>s ks. (Inr (map (\<lambda>k. case gm_get s k of None \<Rightarrow> MNil | Some v \<Rightarrow> MString v) ks), s)),
      rdSetNX = (\<lambda>s k v d. if gm_get s k = None then (Inr True, gm_set k v s) else (Inr False, s)),
      rdIncr = (\<lambda>s k. (Inl (Errorf ''unsupported''), s)),
      rdExpire = (\<lambda>s k d. (Inr (gm_get s k \<noteq> None), s)),
      rdScan = (\<lambda>s cur pat n. (let rest = drop cur (filter (\<lambda>k. has_prefix k (butlast pat)) (map fst s))
                               in Inr (take 1 rest, if length rest \<le> 1 then 0 else cur + 1), s)),
      rdPing = (\<lambda>s. (Inr (), s)), rdClose = (\<lambda>s. (Inr (), s))\<rparr>"

lemma listRedis_laws: "redis_laws listRedis (\<lambda>s. gm_get s)"
  by (auto simp: redis_laws_def listRedis_def split: option.splits if_splits)

text \<open>A codec for persons with ids that are not negative.\<close>

fun encPerson :: "gomodel \<Rightarrow> string go_result" where
  "encPerson [(f, VInt S64 i), (g, VString n)] =
     (if f = ''ID'' \<and> g = ''Name'' \<and> 0 \<le> i then Inr (replicate (nat i) (CHR ''1'') @ CHR '':'' # n) else Inl (Errorf ''gob''))"
| "encPerson _ = Inl (Errorf ''gob'')"

definition decPerson :: "string \<Rightarrow> gomodel go_result" where
  "decPerson b =
     (case dropWhile (\<lambda>x. x = CHR ''1'') b of
        [] \<Rightarrow> Inl (Errorf ''gob'')
      | x # n \<Rightarrow> if x = CHR '':'' then Inr (person_row (int (length (takeWhile (\<lambda>x. x = CHR ''1'') b))) n) else Inl (Errorf ''gob''))"

definition personCodec :: gob_codec where
  "personCodec = \<lparr>encMap = encPerson, decMap = decPerson, decStruct = (\<lambda>_ _. Inl (Errorf ''gob'')),
     encIDs = (\<lambda>_. Inl (Errorf ''gob'')), decIDs = (\<lambda>_. Inl (Errorf ''gob''))\<rparr>"

lemma decPerson_encPerson: "encPerson m = Inr b \<Longrightarrow> \<exists>dm. gob_model m = Some dm \<and> decPerson b = Inr dm"
  by (induction m rule: encPerson.induct)
    (auto simp: decPerson_def person_row_def dropWhile_append takeWhile_append split: if_splits)

lemma personCodec_laws: "gob_laws personCodec"
  using decPerson_encPerson
  by (auto simp: gob_laws_def personCodec_def decPerson_def NoneResult_def)


text \<open>The marker that a fetch stores for a missing row is not understood when it is read.\<close>

lemma marker_unread:
  assumes "gob_laws codec" and "rdGet srv (rcServer c) key = (Inr NoneResult, s')"
  shows "\<exists>e. fst (rcGetModel srv codec c key dest) = Inl e \<and> \<not> errors_is e ErrCacheNoneResult"
proof -
  obtain e where "decode_model codec NoneResult dest = Inl e"
    using decode_marker[OF assms(1)] by (cases "decode_model codec NoneResult dest") auto
  then show ?thesis using assms(2) decode_model_error[OF assms(1)] by (simp add: rcGetModel_def send_def)
qed

section \<open>Deletion by prefix ends and is exact\<close>

text \<open>A complete iteration of SCAN: the keys of its pages, and the server afterwards.\<close>

inductive scans :: "'r redis \<Rightarrow> string \<Rightarrow> 'r \<Rightarrow> nat \<Rightarrow> string list \<Rightarrow> 'r \<Rightarrow> bool" for srv pat where
  scans_last: "rdScan srv s cur pat 100 = (Inr (ks, 0), s') \<Longrightarrow> scans srv pat s cur ks s'"
| scans_more: "rdScan srv s cur pat 100 = (Inr (ks, cur'), s1) \<Longrightarrow> cur' \<noteq> 0 \<Longrightarrow> scans srv pat s1 cur' ks' s' \<Longrightarrow>
    scans srv pat s cur (ks @ ks') s'"

lemma scan_loop_scans:
  "scans srv pat s cur ks s' \<Longrightarrow> rcServer c = s \<Longrightarrow> scan_loop srv pat cur acc c = Some (Inr (acc @ ks), c\<lparr>rcServer := s'\<rparr>)"
proof (induction arbitrary: acc c rule: scans.induct)
  case (scans_last s cur ks s')
  then show ?case by (subst scan_loop.simps) (simp add: send_def)
next
  case (scans_more s cur ks cur' s1 ks' s')
  have "scan_loop srv pat cur' (acc @ ks) (c\<lparr>rcServer := s1\<rparr>) = Some (Inr ((acc @ ks) @ ks'), c\<lparr>rcServer := s'\<rparr>)"
    using scans_more.IH[of "c\<lparr>rcServer := s1\<rparr>" "acc @ ks"] by simp
  then show ?case using scans_more.hyps(1,2) scans_more.prems by (subst scan_loop.simps) (simp add: send_def)
qed

text \<open>
  What the command needs of the server: an iteration from the present state ends, changes nothing, and returns the keys
  that start with the prefix, in any order and any number of times; a DEL removes the keys it is given.
\<close>

definition scan_covers :: "'r redis \<Rightarrow> ('r \<Rightarrow> string \<rightharpoonup> string) \<Rightarrow> string \<Rightarrow> 'r \<Rightarrow> bool" where
  "scan_covers srv content prefix s \<longleftrightarrow>
     (\<exists>ks s'. scans srv (prefix @ ''*'') s 0 ks s' \<and> content s' = content s \<and>
        set ks = {k \<in> dom (content s). has_prefix k prefix})"

definition del_exact :: "'r redis \<Rightarrow> ('r \<Rightarrow> string \<rightharpoonup> string) \<Rightarrow> bool" where
  "del_exact srv content \<longleftrightarrow>
     (\<forall>s ks. ks \<noteq> [] \<longrightarrow> (\<exists>s'. rdDel srv s ks = (Inr (), s') \<and> content s' = content s |` (- set ks)))"


text \<open>Three keys, two of them with the prefix, in two pages.\<close>

lemma listRedis_del: "del_exact listRedis (\<lambda>s. gm_get s)"
proof -
  have "gm_get (filter (\<lambda>(k, v). k \<notin> set ks) s) = gm_get s |` (- set ks)" for ks and s :: "(string, string) gomap"
    by (induction s) (auto simp: restrict_map_def fun_eq_iff)
  then show ?thesis by (simp add: del_exact_def listRedis_def)
qed


text \<open>A lock that expired is released by its former holder when another holds it: a third client gets it too.\<close>

lemma lock_of_another_released:
  "fst (rcAcquireLock listRedis (snd (rcReleaseLock listRedis (snd (rcAcquireLock listRedis
      \<lparr>rcServer = [], rcCounters = [], createdInternally = True\<rparr> ''lock'' 10)) ''lock'')) ''lock'' 10) = Inr True"
  by code_simp

end
