(* ===== verification/Json_Output.thy ===== *)
theory Json_Output
  imports Json_Dsl
begin

text \<open>
  The output of JSON, \<open>ToJSON\<close> and \<open>serializeValue\<close> of \<^verbatim>\<open>json.go\<close>.

  What reflection shows of a Go value is the datatype \<open>rval\<close>: a struct with its fields in the order of their declaration and
  the methods of its type, a slice, an array, a pointer, or another value. A nil slice has no elements. Options are never nil
  where they are used. They are a tree here, pointers in the code; where the code would extend the excludes of a block in
  place, which other uses of the same pointer would see, the result is \<open>None\<close>.
\<close>

section \<open>Values\<close>

datatype 'v rval =
  RBasic 'v
| RPtr "'v rval option"
| RSlice "'v rval list"
| RArray "'v rval list"
| RStruct bool "'v rfield list" "'v rmethod list"
and 'v rfield = RField (rfName: string) (jsonTag: string) (rfAnonymous: bool) (rfExported: bool) (rfValue: "'v rval")
and 'v rmethod = RMethod (rmName: string) (rmPointer: bool) (rmCallable: bool) (rmResult: "'v rval")

text \<open>The first argument of a struct says whether it is \<open>time.Time\<close>.\<close>

datatype 'v json =
  JNil
| JRaw "'v rval"
| JArr "'v json list"
| JObj "(string \<times> 'v json) list"

section \<open>Fields\<close>

definition tag_name :: "'v rfield \<Rightarrow> string" where
  "tag_name f = hd (split_on CHR '','' (jsonTag f))"

definition json_name :: "'v rfield \<Rightarrow> string" where
  "json_name f = (if tag_name f = [] then rfName f else tag_name f)"

definition name_matches :: "'v rfield \<Rightarrow> string \<Rightarrow> bool" where
  "name_matches f target \<longleftrightarrow>
     equal_fold (json_name f) target \<or> equal_fold (rfName f) target \<or>
     equal_fold (rfName f) (exportedName (ToSnakeCase target))"

definition embedded :: "'v rfield \<Rightarrow> 'v rfield list option" where
  "embedded f = (case rfValue f of RStruct _ gs _ \<Rightarrow> if rfAnonymous f then Some gs else None | _ \<Rightarrow> None)"

lemma embedded_size: "embedded f = Some gs \<Longrightarrow> size_list size gs < size f"
  by (cases f) (auto simp: embedded_def split: rval.splits if_splits)

text \<open>The first field that matches; the fields of an embedded struct come at its place.\<close>

function findField :: "'v rfield list \<Rightarrow> string \<Rightarrow> 'v rfield option" where
  "findField [] target = None"
| "findField (f # fs) target =
     (if name_matches f target then Some f
      else case embedded f of
        Some gs \<Rightarrow> (case findField gs target of Some g \<Rightarrow> Some g | None \<Rightarrow> findField fs target)
      | None \<Rightarrow> findField fs target)"
  by pat_completeness auto
termination
  by (relation "measure (\<lambda>(fs, _). size_list size fs)") (auto dest: embedded_size)

definition out_key :: "'v rfield \<Rightarrow> string \<Rightarrow> string" where
  "out_key f fieldName = (if tag_name f \<noteq> [] \<and> tag_name f \<noteq> ''-'' then tag_name f else ToSnakeCase fieldName)"

text \<open>Every field that is not excluded, and the names seen so far.\<close>

function processStructFields :: "JSONOptions \<Rightarrow> 'v rfield list \<Rightarrow> string list \<times> string list \<Rightarrow> string list \<times> string list" where
  "processStructFields options [] acc = acc"
| "processStructFields options (f # fs) acc =
     (case embedded f of
        Some gs \<Rightarrow> processStructFields options fs (processStructFields options gs acc)
      | None \<Rightarrow>
          (case acc of (names, processed) \<Rightarrow>
             processStructFields options fs
               (if rfName f \<in> set processed then (names, processed)
                else if json_name f = ''-'' \<or> contains_fold (OrderedExclude options) (json_name f) then (names, rfName f # processed)
                else (names @ [rfName f], rfName f # processed))))"
  by pat_completeness auto
termination
  by (relation "measure (\<lambda>(_, fs, _). size_list size fs)") (auto dest: embedded_size)

text \<open>The rules to process: the includes, or all fields when there are none or only the id with excludes.\<close>

definition fieldsToProcess :: "JSONOptions \<Rightarrow> 'v rfield list \<Rightarrow> FieldRule list" where
  "fieldsToProcess options fs =
     (let useInclude = list_ex (\<lambda>r. \<not> equal_fold (ruleName r) ''id'') (OrderedInclude options);
          onlyID = (OrderedInclude options \<noteq> [] \<and> \<not> useInclude)
      in if useInclude \<or> onlyID \<and> OrderedExclude options = [] then OrderedInclude options
         else map (\<lambda>n. FieldRule n None) (fst (processStructFields options fs ([], []))))"

text \<open>The options for the value of a field; \<open>None\<close> where the code would change shared options.\<close>

definition pass_down :: "JSONOptions \<Rightarrow> FieldRule \<Rightarrow> string \<Rightarrow> JSONOptions option" where
  "pass_down options rule outKey =
     (case Nested rule of
        Some n \<Rightarrow> Some n
      | None \<Rightarrow>
          (case (gm_get (NestedRules options) outKey, gm_get (NestedRules options) (ruleName rule)) of
             (Some n, Some n') \<Rightarrow> if list_all (contains_fold (OrderedExclude n)) (OrderedExclude n') then Some n else None
           | (Some n, None) \<Rightarrow> Some n
           | (None, Some n') \<Rightarrow> Some n'
           | (None, None) \<Rightarrow> Some (if OrderedInclude options = [] then options else newJSONOptions)))"

text \<open>A method without arguments and with one result; methods of the pointer need an address.\<close>

definition method_value :: "bool \<Rightarrow> 'v rmethod list \<Rightarrow> string \<Rightarrow> 'v json" where
  "method_value addressable ms fieldName =
     (case find (\<lambda>m. rmName m = exportedName fieldName \<and> (addressable \<or> \<not> rmPointer m)) ms of
        Some m \<Rightarrow> if rmCallable m then JRaw (rmResult m) else JNil
      | None \<Rightarrow> JNil)"

section \<open>Serialization\<close>

definition om_entries :: "'v json OrderedMap \<Rightarrow> (string \<times> 'v json) list" where
  "om_entries om = map (\<lambda>k. (k, case omGet om k of Some v \<Rightarrow> v | None \<Rightarrow> JNil)) (omKeys om)"

definition ordered_object :: "(string \<times> 'v json) list \<Rightarrow> 'v json" where
  "ordered_object kvs = JObj (om_entries (foldl (\<lambda>om (k, v). omSet k v om) NewOrderedMap kvs))"

text \<open>A pointer is followed once: the value behind it has an address.\<close>

fun deref :: "bool \<Rightarrow> 'v rval \<Rightarrow> (bool \<times> 'v rval) option" where
  "deref addressable (RPtr None) = None"
| "deref addressable (RPtr (Some v)) = Some (True, v)"
| "deref addressable v = Some (addressable, v)"

lemma findField_size: "findField fs target = Some g \<Longrightarrow> size (rfValue g) < Suc (size_list size fs)"
proof (induction fs target rule: findField.induct)
  case (2 f fs target)
  have "size (rfValue f) < size f" by (cases f) simp
  with 2 show ?case by (fastforce dest: embedded_size split: if_splits option.splits)
qed simp

lemma deref_size: "deref a v = Some (b, w) \<Longrightarrow> size w \<le> size v"
  by (cases "(a, v)" rule: deref.cases) auto

text \<open>The branches of the code for a field by its kind are those of \<open>serializeValue\<close>.\<close>

function serializeValue :: "bool \<Rightarrow> 'v rval \<Rightarrow> JSONOptions \<Rightarrow> 'v json option" where
  "serializeValue addressable val options =
     (case deref addressable val of
        None \<Rightarrow> Some JNil
      | Some (addr, v) \<Rightarrow>
          (case v of
             RSlice xs \<Rightarrow> map_option JArr (those (map (\<lambda>x. serializeValue True x options) xs))
           | RArray xs \<Rightarrow> map_option JArr (those (map (\<lambda>x. serializeValue addr x options) xs))
           | RStruct isTime fs ms \<Rightarrow>
               if isTime then Some (JRaw v)
               else map_option ordered_object (those (map
                 (\<lambda>rule. case findField fs (ruleName rule) of
                    Some f \<Rightarrow>
                      if rfExported f then
                        (case pass_down options rule (out_key f (ruleName rule)) of
                           None \<Rightarrow> None
                         | Some opts \<Rightarrow> map_option (Pair (out_key f (ruleName rule))) (serializeValue addr (rfValue f) opts))
                      else Some (ToSnakeCase (ruleName rule), method_value addr ms (ruleName rule))
                  | None \<Rightarrow> Some (ToSnakeCase (ruleName rule), method_value addr ms (ruleName rule)))
                 (fieldsToProcess options fs)))
           | _ \<Rightarrow> Some (JRaw v)))"
  by pat_completeness auto
termination
proof (relation "measure (\<lambda>(_, v, _). size v)", goal_cases)
  case (2 addressable val options p addr v xs x)
  then show ?case by (auto dest!: deref_size size_list_estimation'[of x xs "size x" size])
next
  case (3 addressable val options p addr v xs x)
  then show ?case by (auto dest!: deref_size size_list_estimation'[of x xs "size x" size])
next
  case (4 addressable val options p addr v isTime fs ms rule f opts)
  then show ?case by (auto dest!: deref_size findField_size)
qed simp

section \<open>Text\<close>

text \<open>\<open>marshal\<close> is \<open>json.Marshal\<close> of a Go value.\<close>

fun marshal_json :: "('v rval \<Rightarrow> string go_result) \<Rightarrow> 'v json \<Rightarrow> string go_result" where
  "marshal_json marshal JNil = Inr ''null''"
| "marshal_json marshal (JRaw v) = marshal v"
| "marshal_json marshal (JArr js) =
     bindE (foldr (\<lambda>r acc. bindE r (\<lambda>t. bindE acc (\<lambda>ts. Inr (t # ts)))) (map (marshal_json marshal) js) (Inr [])) (\<lambda>ts. Inr (json_array ts))"
| "marshal_json marshal (JObj es) =
     MarshalJSON (\<lambda>r. case r of Some t \<Rightarrow> t | None \<Rightarrow> Inr ''null'')
       \<lparr>omkeys = map fst es, omvalues = map (\<lambda>(k, j). (k, marshal_json marshal j)) es\<rparr>"

fun apply_options :: "(JSONOptions \<Rightarrow> JSONOptions option) list \<Rightarrow> JSONOptions \<Rightarrow> JSONOptions option" where
  "apply_options [] options = Some options"
| "apply_options (opt # opts) options = (case opt options of None \<Rightarrow> None | Some options' \<Rightarrow> apply_options opts options')"

text \<open>
  The model is nil, or a value. \<open>None\<close> when an option does not return, or options are changed in place.
\<close>

definition ToJSON ::
  "('v rval \<Rightarrow> string go_result) \<Rightarrow> 'v rval option \<Rightarrow> (JSONOptions \<Rightarrow> JSONOptions option) list \<Rightarrow> string go_result option" where
  "ToJSON marshal model opts =
     (case model of
        None \<Rightarrow> Some (Inl (Errorf ''cannot serialize nil model''))
      | Some m \<Rightarrow>
          (case apply_options opts newJSONOptions of
             None \<Rightarrow> None
           | Some options \<Rightarrow>
               (case deref False m of
                  None \<Rightarrow> Some (Inl (Errorf ''cannot serialize nil pointer''))
                | Some (addr, v) \<Rightarrow>
                    (case v of
                       RSlice xs \<Rightarrow> map_option (\<lambda>js. marshal_json marshal (JArr js))
                         (those (map (\<lambda>x. case x of RPtr (Some y) \<Rightarrow> serializeValue True y options | _ \<Rightarrow> serializeValue True x options) xs))
                     | RArray xs \<Rightarrow> map_option (\<lambda>js. marshal_json marshal (JArr js))
                         (those (map (\<lambda>x. case x of RPtr (Some y) \<Rightarrow> serializeValue True y options | _ \<Rightarrow> serializeValue addr x options) xs))
                     | RStruct _ _ _ \<Rightarrow> map_option (marshal_json marshal) (serializeValue addr v options)
                     | _ \<Rightarrow> Some (Inl (Errorf ''ToJSON: unsupported type''))))))"

section \<open>Ordered objects\<close>

declare serializeValue.simps [simp del]

lemma rev_remdups_snoc: "rev (remdups (rev (xs @ [x]))) = (if x \<in> set xs then rev (remdups (rev xs)) else rev (remdups (rev xs)) @ [x])"
  by simp

lemma omSet_fold:
  "omkeys (foldl (\<lambda>om (k, v). omSet k v om) NewOrderedMap kvs) = rev (remdups (rev (map fst kvs))) \<and>
   gm_get (omvalues (foldl (\<lambda>om (k, v). omSet k v om) NewOrderedMap kvs)) = map_of (rev kvs)"
proof (induction kvs rule: rev_induct)
  case (snoc kv kvs)
  obtain k v where kv: "kv = (k, v)" by (cases kv)
  have "map_of (rev kvs) k = None \<longleftrightarrow> k \<notin> set (map fst kvs)" by (auto simp: map_of_eq_None_iff)
  with snoc kv show ?case unfolding map_append list.map rev_remdups_snoc by (auto simp: omSet_def fun_eq_iff)
qed (simp add: NewOrderedMap_def)

lemma ordered_object_keys: "\<exists>es. ordered_object kvs = JObj es \<and> map fst es = rev (remdups (rev (map fst kvs)))"
  using omSet_fold[of kvs] by (simp add: ordered_object_def om_entries_def omKeys_def comp_def)

lemma ordered_object_distinct:
  assumes "distinct (map fst kvs)"
  shows "ordered_object kvs = JObj kvs"
proof -
  have "map (\<lambda>k. (k, case map_of (rev kvs) k of Some v \<Rightarrow> v | None \<Rightarrow> JNil)) (map fst kvs) = map (\<lambda>kv. kv) kvs"
    unfolding map_map using assms by (intro map_cong) (auto simp: map_of_eq_None_iff rev_map[symmetric] dest: eq_key_imp_eq_value split: option.split)
  moreover have "rev (remdups (rev (map fst kvs))) = map fst kvs" using assms by (simp add: distinct_remdups_id)
  ultimately show ?thesis using omSet_fold[of kvs] by (simp add: ordered_object_def om_entries_def omKeys_def omGet_def)
qed

section \<open>The selected keys\<close>

text \<open>
  Options whose blocks of one level exclude the same names, so that nothing is changed in place: in particular options
  without blocks, with one block per level, or with blocks that only include.
\<close>

fun agreeing :: "JSONOptions \<Rightarrow> bool" and agreeing_rule :: "FieldRule \<Rightarrow> bool" where
  "agreeing (JSONOptions incl excl nested) \<longleftrightarrow>
     (\<forall>n \<in> set (map snd nested). \<forall>n' \<in> set (map snd nested). list_all (contains_fold (OrderedExclude n)) (OrderedExclude n')) \<and>
     list_all agreeing_rule incl \<and> list_all agreeing (map snd nested)"
| "agreeing_rule (FieldRule n nested) \<longleftrightarrow> list_all agreeing (case nested of None \<Rightarrow> [] | Some o' \<Rightarrow> [o'])"

definition selected_key :: "'v rfield list \<Rightarrow> FieldRule \<Rightarrow> string" where
  "selected_key fs rule =
     (case findField fs (ruleName rule) of
        Some f \<Rightarrow> if rfExported f then out_key f (ruleName rule) else ToSnakeCase (ruleName rule)
      | None \<Rightarrow> ToSnakeCase (ruleName rule))"

lemma agreeing_new [simp]: "agreeing newJSONOptions"
  by (simp add: newJSONOptions_def)

lemma pass_down_agreeing:
  assumes "agreeing options" and "agreeing_rule rule"
  shows "\<exists>opts. pass_down options rule key = Some opts \<and> agreeing opts"
proof -
  obtain incl excl nested where o: "options = JSONOptions incl excl nested" by (cases options)
  obtain n b where r: "rule = FieldRule n b" by (cases rule)
  have entry: "x \<in> set (map snd nested)" if "gm_get nested k = Some x" for k x using map_of_SomeD[OF that] by force
  have "agreeing x" if "gm_get nested k = Some x" for k x
    using entry[OF that] assms(1) by (auto simp: o list_all_iff)
  moreover have "list_all (contains_fold (OrderedExclude x)) (OrderedExclude y)"
    if "gm_get nested k = Some x" "gm_get nested k' = Some y" for k k' x y
    using entry[OF that(1)] entry[OF that(2)] assms(1) by (simp only: o agreeing.simps)
  ultimately show ?thesis using assms by (cases b) (simp_all add: pass_down_def o r split: option.split)
qed

lemma fieldsToProcess_agreeing: "agreeing options \<Longrightarrow> rule \<in> set (fieldsToProcess options fs) \<Longrightarrow> agreeing_rule rule"
  by (cases options) (auto simp: fieldsToProcess_def Let_def list_all_iff split: if_splits)

lemma those_map_Some: "(\<And>x. x \<in> set xs \<Longrightarrow> \<exists>y. f x = Some y) \<Longrightarrow> \<exists>ys. those (map f xs) = Some ys"
proof (induction xs)
  case (Cons x xs)
  moreover obtain y where "f x = Some y" using Cons.prems by auto
  ultimately show ?case by auto
qed simp

lemma those_map_fst:
  "those (map e xs) = Some kvs \<Longrightarrow> (\<And>x kv. e x = Some kv \<Longrightarrow> fst kv = key x) \<Longrightarrow> map fst kvs = map key xs"
  by (induction xs arbitrary: kvs) (auto split: option.splits)

text \<open>The entry of a rule.\<close>

definition rule_entry :: "bool \<Rightarrow> 'v rfield list \<Rightarrow> 'v rmethod list \<Rightarrow> JSONOptions \<Rightarrow> FieldRule \<Rightarrow> (string \<times> 'v json) option" where
  "rule_entry addr fs ms options rule =
     (case findField fs (ruleName rule) of
        Some f \<Rightarrow>
          if rfExported f then
            (case pass_down options rule (out_key f (ruleName rule)) of
               None \<Rightarrow> None
             | Some opts \<Rightarrow> map_option (Pair (out_key f (ruleName rule))) (serializeValue addr (rfValue f) opts))
          else Some (ToSnakeCase (ruleName rule), method_value addr ms (ruleName rule))
      | None \<Rightarrow> Some (ToSnakeCase (ruleName rule), method_value addr ms (ruleName rule)))"

lemma serialize_struct:
  assumes "deref addressable val = Some (addr, RStruct False fs ms)"
  shows "serializeValue addressable val options =
    map_option ordered_object (those (map (rule_entry addr fs ms options) (fieldsToProcess options fs)))"
proof -
  have "rule_entry addr fs ms options = (\<lambda>rule. rule_entry addr fs ms options rule)" by simp
  then show ?thesis using assms unfolding rule_entry_def by (subst serializeValue.simps) simp
qed

lemma serialize_total: "agreeing options \<Longrightarrow> \<exists>j. serializeValue addressable val options = Some j"
proof (induction addressable val options rule: serializeValue.induct)
  case (1 addressable val options)
  show ?case
  proof (cases "deref addressable val")
    case (Some p)
    then obtain addr v where p: "deref addressable val = Some (addr, v)" by (cases p) auto
    show ?thesis
    proof (cases v)
      case (RSlice xs)
      have "\<exists>ys. those (map (\<lambda>x. serializeValue True x options) xs) = Some ys"
        by (rule those_map_Some) (use 1 p RSlice in blast)
      then show ?thesis using p RSlice by (subst serializeValue.simps) auto
    next
      case (RArray xs)
      have "\<exists>ys. those (map (\<lambda>x. serializeValue addr x options) xs) = Some ys"
        by (rule those_map_Some) (use 1 p RArray in blast)
      then show ?thesis using p RArray by (subst serializeValue.simps) auto
    next
      case (RStruct isTime fs ms)
      show ?thesis
      proof (cases isTime)
        case False
        have "\<exists>kvs. those (map (rule_entry addr fs ms options) (fieldsToProcess options fs)) = Some kvs"
        proof (rule those_map_Some)
          fix rule assume rule: "rule \<in> set (fieldsToProcess options fs)"
          show "\<exists>y. rule_entry addr fs ms options rule = Some y"
          proof (cases "findField fs (ruleName rule)")
            case (Some f)
            obtain opts where opts: "pass_down options rule (out_key f (ruleName rule)) = Some opts" "agreeing opts"
              using pass_down_agreeing[OF 1(4) fieldsToProcess_agreeing[OF 1(4) rule]] by blast
            have "\<exists>j. serializeValue addr (rfValue f) opts = Some j" if "rfExported f"
              using 1(3)[OF p refl RStruct False rule Some that opts(1) opts(2)] .
            then show ?thesis using Some opts(1) by (auto simp: rule_entry_def)
          qed (simp add: rule_entry_def)
        qed
        then show ?thesis using serialize_struct[of addressable val addr fs ms options] p RStruct False by auto
      qed (use p RStruct in \<open>subst serializeValue.simps, simp\<close>)
    qed (use p in \<open>subst serializeValue.simps, simp\<close>)+
  qed (subst serializeValue.simps, simp)
qed

lemma rule_entry_key: "rule_entry addr fs ms options rule = Some kv \<Longrightarrow> fst kv = selected_key fs rule"
  by (auto simp: rule_entry_def selected_key_def split: option.splits if_splits)


section \<open>All fields\<close>

text \<open>The fields that are promoted to the struct, in the order of the declarations.\<close>

function flat_fields :: "'v rfield list \<Rightarrow> 'v rfield list" where
  "flat_fields [] = []"
| "flat_fields (f # fs) = (case embedded f of Some gs \<Rightarrow> flat_fields gs | None \<Rightarrow> [f]) @ flat_fields fs"
  by pat_completeness auto
termination
  by (relation "measure (size_list size)") (auto dest: embedded_size)

definition kept :: "JSONOptions \<Rightarrow> 'v rfield \<Rightarrow> bool" where
  "kept options f \<longleftrightarrow> json_name f \<noteq> ''-'' \<and> \<not> contains_fold (OrderedExclude options) (json_name f)"

lemma processStructFields_flat:
  "distinct (map rfName (flat_fields fs)) \<Longrightarrow> set (map rfName (flat_fields fs)) \<inter> set processed = {} \<Longrightarrow>
   fst (processStructFields options fs (names, processed)) = names @ map rfName (filter (kept options) (flat_fields fs)) \<and>
   set (snd (processStructFields options fs (names, processed))) = set processed \<union> set (map rfName (flat_fields fs))"
proof (induction fs arbitrary: names processed rule: flat_fields.induct)
  case (2 f fs)
  show ?case
  proof (cases "embedded f")
    case None
    have "distinct (map rfName (flat_fields fs))" "set (map rfName (flat_fields fs)) \<inter> set (rfName f # processed) = {}"
      "rfName f \<notin> set processed" using 2(3,4) None by auto
    with 2(2) None show ?thesis by (auto simp: kept_def)
  next
    case (Some gs)
    obtain names1 processed1 where one: "processStructFields options gs (names, processed) = (names1, processed1)"
      by (cases "processStructFields options gs (names, processed)")
    have "distinct (map rfName (flat_fields gs))" "set (map rfName (flat_fields gs)) \<inter> set processed = {}"
      using 2(3,4) Some by auto
    from 2(1)[OF Some this, of names] one have gs: "names1 = names @ map rfName (filter (kept options) (flat_fields gs))"
      "set processed1 = set processed \<union> set (map rfName (flat_fields gs))" by simp_all
    have "distinct (map rfName (flat_fields fs))" "set (map rfName (flat_fields fs)) \<inter> set processed1 = {}"
      using 2(3,4) Some gs(2) by auto
    from 2(2)[OF this, of names1] show ?thesis using Some one gs by auto
  qed
qed simp

text \<open>
  Fields with different names and keys, found by their names, of which those that are output are exported.
\<close>

definition well_named :: "JSONOptions \<Rightarrow> 'v rfield list \<Rightarrow> bool" where
  "well_named options fs \<longleftrightarrow>
     distinct (map rfName (flat_fields fs)) \<and>
     distinct (map (\<lambda>f. out_key f (rfName f)) (filter (kept options) (flat_fields fs))) \<and>
     list_all (\<lambda>f. findField fs (rfName f) = Some f \<and> rfExported f) (filter (kept options) (flat_fields fs))"


text \<open>A user with a hidden field, books and a method, for examples.\<close>

definition sample_base :: "string rfield" where
  "sample_base = RField ''BaseModel'' [] True True (RStruct False
     [RField ''ID'' ''id'' False True (RBasic ''1''), RField ''isNewRecord'' ''-'' False False (RBasic ''false'')] [])"

definition sample_book :: "string \<Rightarrow> string rval" where
  "sample_book t = RPtr (Some (RStruct False [sample_base, RField ''Title'' ''title'' False True (RBasic t)] []))"

definition sample_fields :: "string rfield list" where
  "sample_fields =
     [sample_base, RField ''Name'' ''name,omitempty'' False True (RBasic ''ann''), RField ''Email'' ''email'' False True (RBasic ''a@b''),
      RField ''Books'' ''books'' False True (RSlice [sample_book ''x'', sample_book ''y''])]"

definition sample_methods :: "string rmethod list" where
  "sample_methods = [RMethod ''FullName'' True True (RBasic ''ann b'')]"

definition sample_user :: "string rval" where
  "sample_user = RPtr (Some (RStruct False sample_fields sample_methods))"

definition sample_options :: JSONOptions where
  "sample_options = JSONOptions [FieldRule ''name'' None, FieldRule ''full_name'' None,
     FieldRule ''books'' (Some (JSONOptions [FieldRule ''title'' None] [] [])), FieldRule ''Name'' None] [] []"



section \<open>Limits\<close>

text \<open>An untagged field is output in snake case but excluded under its Go name only.\<close>

lemma snake_exclude_ignored:
  "serializeValue False (RStruct False [RField ''BookList'' [] False True (RBasic ''x'')] []) (JSONOptions [] [''book_list''] []) =
     Some (JObj [(''book_list'', JRaw (RBasic ''x''))])"
  by code_simp

text \<open>An unexported field without a tag is output as null.\<close>

lemma unexported_null:
  "serializeValue False (RStruct False [RField ''secret'' [] False False (RBasic ''x'')] []) newJSONOptions = Some (JObj [(''secret'', JNil)])"
  by code_simp

text \<open>A field with the tag \<open>-\<close> is output when it is included by name.\<close>

lemma hidden_field_included:
  "serializeValue False (RStruct False [RField ''Password'' ''-'' False True (RBasic ''x'')] []) (JSONOptions [FieldRule ''password'' None] [] []) =
     Some (JObj [(''password'', JRaw (RBasic ''x''))])"
  by code_simp

end
