(* ===== verification/Gob_Registry.thy ===== *)
theory Gob_Registry
  imports Thing_Prelude
begin

text \<open>
  The registration of a model type with \<open>encoding/gob\<close>, \<^verbatim>\<open>internal/utils/utils.go\<close>, without which values of named types
  cannot be stored in a cache.

  Types form a graph: \<open>tenv\<close> gives the underlying type of every named type, by package path and name. The recursion follows the
  graph and marks what it has seen. It need not end, since only structs are marked before their parts
  are followed, so the functions have fuel; \<open>None\<close> is a run that has used it up.
\<close>

section \<open>Types\<close>

datatype rtype =
  GBasic
| GNamed string string
| GPtr rtype
| GSlice rtype
| GArray rtype
| GMap rtype rtype
| GStruct "rtype list"

type_synonym tenv = "(string \<times> string, rtype) gomap"

definition underlying :: "tenv \<Rightarrow> rtype \<Rightarrow> rtype" where
  "underlying env t =
     (case t of GNamed p n \<Rightarrow> (case gm_get env (p, n) of Some u \<Rightarrow> u | None \<Rightarrow> GBasic) | _ \<Rightarrow> t)"

definition type_key :: "string \<Rightarrow> string \<Rightarrow> string" where
  "type_key p n = p @ ''.'' @ n"

definition processed_key :: "string \<Rightarrow> string \<Rightarrow> string" where
  "processed_key p n = type_key p n @ ''_processed''"

text \<open>The keys of \<open>registeredTypeNames\<close>, and the types passed to \<open>gob.Register\<close>.\<close>

record gob_state =
  registeredTypeNames :: "string list"
  gobTypes :: "rtype list"

section \<open>Registration\<close>

definition registerNamedType :: "tenv \<Rightarrow> rtype \<Rightarrow> gob_state \<Rightarrow> gob_state" where
  "registerNamedType env t st =
     (case t of
        GNamed p n \<Rightarrow>
          if p = [] \<or> n = [] then st
          else if type_key p n \<in> set (registeredTypeNames st) then st
          else st\<lparr>registeredTypeNames := type_key p n # registeredTypeNames st,
                  gobTypes := (case underlying env t of GPtr _ \<Rightarrow> [t] | _ \<Rightarrow> [t, GPtr t]) @ gobTypes st\<rparr>
      | _ \<Rightarrow> st)"

fun deref_register :: "nat \<Rightarrow> tenv \<Rightarrow> rtype \<Rightarrow> gob_state \<Rightarrow> (rtype \<times> gob_state) option" where
  "deref_register n env t st =
     (case underlying env t of
        GPtr e \<Rightarrow> (case n of 0 \<Rightarrow> None | Suc m \<Rightarrow> deref_register m env e (registerNamedType env e st))
      | _ \<Rightarrow> Some (t, st))"

fun deref_type :: "nat \<Rightarrow> tenv \<Rightarrow> rtype \<Rightarrow> rtype option" where
  "deref_type n env t =
     (case underlying env t of
        GPtr e \<Rightarrow> (case n of 0 \<Rightarrow> None | Suc m \<Rightarrow> deref_type m env e)
      | _ \<Rightarrow> Some t)"

declare deref_register.simps [simp del] deref_type.simps [simp del]

fun each :: "('a \<Rightarrow> 's \<Rightarrow> 's option) \<Rightarrow> 'a list \<Rightarrow> 's \<Rightarrow> 's option" where
  "each f [] s = Some s"
| "each f (x # xs) s = (case f x s of None \<Rightarrow> None | Some s' \<Rightarrow> each f xs s')"

lemma each_cong [fundef_cong]:
  "xs = ys \<Longrightarrow> s = t \<Longrightarrow> (\<And>x u. x \<in> set ys \<Longrightarrow> f x u = g x u) \<Longrightarrow> each f xs s = each g ys t"
proof (induction xs arbitrary: ys s t)
  case (Cons x xs)
  have "f x t = g x t" "\<And>u. each f xs u = each g xs u" using Cons by auto
  then show ?case using Cons.prems(1,2) by (auto split: option.split)
qed simp

fun registerFieldTypeRecursive :: "nat \<Rightarrow> tenv \<Rightarrow> rtype \<Rightarrow> gob_state \<Rightarrow> gob_state option"
  and RegisterTypeRecursive :: "nat \<Rightarrow> tenv \<Rightarrow> rtype \<Rightarrow> gob_state \<Rightarrow> gob_state option" where
  "registerFieldTypeRecursive 0 env ft st = None"
| "registerFieldTypeRecursive (Suc n) env ft st =
     (case deref_register n env ft (registerNamedType env ft st) of
        None \<Rightarrow> None
      | Some (ft', st') \<Rightarrow>
          (case underlying env ft' of
             GSlice e \<Rightarrow> registerFieldTypeRecursive n env e st'
           | GArray e \<Rightarrow> registerFieldTypeRecursive n env e st'
           | GMap k v \<Rightarrow>
               (case registerFieldTypeRecursive n env k st' of
                  None \<Rightarrow> None
                | Some st'' \<Rightarrow> registerFieldTypeRecursive n env v st'')
           | GStruct _ \<Rightarrow>
               (case ft' of
                  GNamed p nm \<Rightarrow> if p \<noteq> [] \<and> nm \<noteq> ''Time'' then RegisterTypeRecursive n env ft' st' else Some st'
                | _ \<Rightarrow> Some st')
           | _ \<Rightarrow> Some st'))"
| "RegisterTypeRecursive 0 env t st = None"
| "RegisterTypeRecursive (Suc n) env t st =
     (let st1 = registerNamedType env t st in
      case deref_type n env t of
        None \<Rightarrow> None
      | Some t' \<Rightarrow>
          (case (t', underlying env t') of
             (GNamed p nm, GStruct fts) \<Rightarrow>
               if type_key p nm = ''.'' then Some st1
               else if processed_key p nm \<in> set (registeredTypeNames st1) then Some st1
               else each (\<lambda>ft s. registerFieldTypeRecursive n env ft s) fts
                 (st1\<lparr>registeredTypeNames := processed_key p nm # registeredTypeNames st1,
                      gobTypes := [t', GPtr t'] @ gobTypes st1\<rparr>)
           | _ \<Rightarrow> Some st1))"

section \<open>Keys\<close>

text \<open>Names as Go has them for types that are not instances: without a dot; the suffix is the one of the marks.\<close>

definition good_name :: "string \<Rightarrow> bool" where
  "good_name n \<longleftrightarrow> CHR ''.'' \<notin> set n \<and> \<not> has_suffix n ''_processed''"

lemma last_part: "CHR ''.'' \<notin> set n \<Longrightarrow> takeWhile (\<lambda>c. c \<noteq> CHR ''.'') (rev (type_key p n)) = rev n"
  by (auto simp: type_key_def takeWhile_append)

lemma type_key_eq:
  assumes "CHR ''.'' \<notin> set n" and "CHR ''.'' \<notin> set m"
  shows "type_key p n = type_key q m \<longleftrightarrow> p = q \<and> n = m"
proof
  assume eq: "type_key p n = type_key q m"
  then have "rev n = rev m" using last_part[OF assms(1), of p] last_part[OF assms(2), of q] by simp
  with eq show "p = q \<and> n = m" by (simp add: type_key_def)
qed simp

lemma processed_key_alt: "processed_key p n = type_key p (n @ ''_processed'')"
  by (simp add: processed_key_def type_key_def)

lemma processed_key_eq: "good_name n \<Longrightarrow> good_name m \<Longrightarrow> processed_key p n = processed_key q m \<longleftrightarrow> p = q \<and> n = m"
  unfolding processed_key_alt by (subst type_key_eq) (auto simp: good_name_def)

lemma keys_differ:
  assumes "good_name n" and "good_name m"
  shows "type_key p n \<noteq> processed_key q m"
proof
  assume "type_key p n = processed_key q m"
  then have "n = m @ ''_processed''" unfolding processed_key_alt using assms by (subst (asm) type_key_eq) (auto simp: good_name_def)
  with assms(1) show False by (simp add: good_name_def has_suffix_iff)
qed

section \<open>What is reached\<close>

definition parts :: "tenv \<Rightarrow> rtype \<Rightarrow> rtype list" where
  "parts env t = (case underlying env t of GPtr e \<Rightarrow> [e] | GSlice e \<Rightarrow> [e] | GArray e \<Rightarrow> [e] | GMap k v \<Rightarrow> [k, v] | _ \<Rightarrow> [])"

inductive uses :: "tenv \<Rightarrow> rtype \<Rightarrow> rtype \<Rightarrow> bool" for env where
  uses_part: "u \<in> set (parts env t) \<Longrightarrow> uses env t u"
| uses_field: "p \<noteq> [] \<Longrightarrow> n \<noteq> ''Time'' \<Longrightarrow> underlying env (GNamed p n) = GStruct fts \<Longrightarrow> u \<in> set fts \<Longrightarrow> uses env (GNamed p n) u"

definition good_types :: "tenv \<Rightarrow> rtype \<Rightarrow> bool" where
  "good_types env t \<longleftrightarrow> (\<forall>p n. (uses env)\<^sup>*\<^sup>* t (GNamed p n) \<longrightarrow> good_name n)"

lemma good_types_uses: "good_types env t \<Longrightarrow> uses env t u \<Longrightarrow> good_types env u"
  unfolding good_types_def by (meson converse_rtranclp_into_rtranclp)

lemma good_types_part: "good_types env t \<Longrightarrow> u \<in> set (parts env t) \<Longrightarrow> good_types env u"
  using good_types_uses uses_part by blast

lemma good_types_name: "good_types env (GNamed p n) \<Longrightarrow> good_name n"
  unfolding good_types_def by blast

text \<open>A type whose parts, short of the fields of structs, are registered or marked.\<close>

definition seen :: "tenv \<Rightarrow> gob_state \<Rightarrow> rtype \<Rightarrow> bool" where
  "seen env st t \<longleftrightarrow> (\<forall>p n. t = GNamed p n \<longrightarrow> p \<noteq> [] \<longrightarrow>
     (n \<noteq> [] \<longrightarrow> type_key p n \<in> set (registeredTypeNames st)) \<and>
     (n \<noteq> ''Time'' \<longrightarrow> (\<exists>fts. underlying env t = GStruct fts) \<longrightarrow> processed_key p n \<in> set (registeredTypeNames st)))"

definition visited :: "tenv \<Rightarrow> gob_state \<Rightarrow> rtype \<Rightarrow> bool" where
  "visited env st t \<longleftrightarrow> (\<forall>u. (\<lambda>t u. u \<in> set (parts env t))\<^sup>*\<^sup>* t u \<longrightarrow> seen env st u)"

lemma visited_iff: "visited env st t \<longleftrightarrow> seen env st t \<and> (\<forall>u \<in> set (parts env t). visited env st u)"
  unfolding visited_def by (metis (mono_tags, lifting) converse_rtranclp_into_rtranclp converse_rtranclpE rtranclp.rtrancl_refl)

lemma visited_mono:
  "visited env st t \<Longrightarrow> set (registeredTypeNames st) \<subseteq> set (registeredTypeNames st') \<Longrightarrow> visited env st' t"
  by (fastforce simp: visited_def seen_def)

text \<open>Every mark stands for a registered type; a step adds marks, and has seen the fields of the structs it marks.\<close>

definition marks_ok :: "gob_state \<Rightarrow> bool" where
  "marks_ok st \<longleftrightarrow> (\<forall>p n. good_name n \<longrightarrow>
     type_key p n \<in> set (registeredTypeNames st) \<or> processed_key p n \<in> set (registeredTypeNames st) \<longrightarrow> GNamed p n \<in> set (gobTypes st))"

definition marked_fields :: "tenv \<Rightarrow> gob_state \<Rightarrow> gob_state \<Rightarrow> bool" where
  "marked_fields env st st' \<longleftrightarrow> (\<forall>p n fts. good_name n \<longrightarrow> underlying env (GNamed p n) = GStruct fts \<longrightarrow>
     processed_key p n \<in> set (registeredTypeNames st') \<longrightarrow> processed_key p n \<notin> set (registeredTypeNames st) \<longrightarrow>
     (\<forall>ft \<in> set fts. visited env st' ft))"

definition step_ok :: "tenv \<Rightarrow> gob_state \<Rightarrow> gob_state \<Rightarrow> bool" where
  "step_ok env st st' \<longleftrightarrow> marks_ok st' \<and> set (registeredTypeNames st) \<subseteq> set (registeredTypeNames st') \<and> marked_fields env st st'"

lemma step_ok_refl: "marks_ok st \<Longrightarrow> step_ok env st st"
  by (simp add: step_ok_def marked_fields_def)

lemma step_ok_trans: "step_ok env s1 s2 \<Longrightarrow> step_ok env s2 s3 \<Longrightarrow> step_ok env s1 s3"
  unfolding step_ok_def marked_fields_def by (meson order_trans visited_mono)

lemma registerNamedType_ok:
  assumes "good_types env t" and "marks_ok st"
  shows "step_ok env st (registerNamedType env t st)"
    and "\<And>p n. t = GNamed p n \<Longrightarrow> p \<noteq> [] \<Longrightarrow> n \<noteq> [] \<Longrightarrow> type_key p n \<in> set (registeredTypeNames (registerNamedType env t st))"
proof -
  show "step_ok env st (registerNamedType env t st)"
  proof (cases t)
    case (GNamed p n)
    have n: "good_name n" using assms(1) GNamed good_types_name by simp
    show ?thesis using assms(2) n keys_differ[OF n] type_key_eq[of n]
      unfolding GNamed step_ok_def marked_fields_def marks_ok_def registerNamedType_def
      by (auto simp: good_name_def split: rtype.splits) metis+
  qed (use assms(2) in \<open>simp_all add: registerNamedType_def step_ok_refl\<close>)
  show "type_key p n \<in> set (registeredTypeNames (registerNamedType env t st))" if "t = GNamed p n" "p \<noteq> []" "n \<noteq> []" for p n
    using that by (simp add: registerNamedType_def)
qed

section \<open>What is registered\<close>

lemma deref_register_ok:
  "deref_register n env t st = Some (t', st') \<Longrightarrow> good_types env t \<Longrightarrow> marks_ok st \<Longrightarrow>
   (\<And>p m. t = GNamed p m \<Longrightarrow> p \<noteq> [] \<Longrightarrow> m \<noteq> [] \<Longrightarrow> type_key p m \<in> set (registeredTypeNames st)) \<Longrightarrow>
   step_ok env st st' \<and> good_types env t' \<and> (\<forall>e. underlying env t' \<noteq> GPtr e) \<and>
   (\<forall>p m. t' = GNamed p m \<longrightarrow> p \<noteq> [] \<longrightarrow> m \<noteq> [] \<longrightarrow> type_key p m \<in> set (registeredTypeNames st')) \<and>
   (\<forall>s. set (registeredTypeNames st') \<subseteq> set (registeredTypeNames s) \<longrightarrow> visited env s t' \<longrightarrow> visited env s t)"
proof (induction n arbitrary: t st)
  case 0
  then show ?case by (subst (asm) deref_register.simps) (auto simp: step_ok_refl split: rtype.splits)
next
  case (Suc n)
  show ?case
  proof (cases "\<exists>e. underlying env t = GPtr e")
    case True
    then obtain e where e: "underlying env t = GPtr e" by blast
    then have part: "parts env t = [e]" by (simp add: parts_def)
    let ?s = "registerNamedType env e st"
    have g: "good_types env e" using good_types_part[OF Suc.prems(2)] part by simp
    note reg = registerNamedType_ok[OF g Suc.prems(3)]
    have run: "deref_register n env e ?s = Some (t', st')" using Suc.prems(1) e by (subst (asm) deref_register.simps) simp
    have ih: "step_ok env ?s st'" "good_types env t'" "\<forall>e. underlying env t' \<noteq> GPtr e"
      "\<forall>p m. t' = GNamed p m \<longrightarrow> p \<noteq> [] \<longrightarrow> m \<noteq> [] \<longrightarrow> type_key p m \<in> set (registeredTypeNames st')"
      "\<And>s. set (registeredTypeNames st') \<subseteq> set (registeredTypeNames s) \<Longrightarrow> visited env s t' \<Longrightarrow> visited env s e"
      using Suc.IH[OF run g _ reg(2)] reg(1) by (auto simp: step_ok_def)
    have st: "step_ok env st st'" by (rule step_ok_trans[OF reg(1) ih(1)])
    have "visited env s t" if "set (registeredTypeNames st') \<subseteq> set (registeredTypeNames s)" "visited env s t'" for s
    proof -
      have "set (registeredTypeNames st) \<subseteq> set (registeredTypeNames s)" using st that(1) by (auto simp: step_ok_def)
      then have "seen env s t" using Suc.prems(4) e by (auto simp: seen_def)
      with ih(5)[OF that] part show ?thesis by (subst visited_iff) simp
    qed
    with st ih show ?thesis by blast
  next
    case False
    then have "t' = t" "st' = st" using Suc.prems(1) by (subst (asm) deref_register.simps, auto split: rtype.splits)+
    with Suc.prems False show ?thesis by (auto simp: step_ok_refl)
  qed
qed

lemma each_ok:
  assumes "\<And>ft s s'. ft \<in> set fts \<Longrightarrow> marks_ok s \<Longrightarrow> f ft s = Some s' \<Longrightarrow> step_ok env s s' \<and> visited env s' ft"
    and "marks_ok s" and "each f fts s = Some s'"
  shows "step_ok env s s' \<and> (\<forall>ft \<in> set fts. visited env s' ft)"
  using assms
proof (induction fts arbitrary: s)
  case (Cons ft fts)
  then obtain s1 where s1: "f ft s = Some s1" "each f fts s1 = Some s'" by (auto split: option.splits)
  have one: "step_ok env s s1" "visited env s1 ft" using Cons.prems(1)[OF _ Cons.prems(2) s1(1)] by simp_all
  have rest: "step_ok env s1 s' \<and> (\<forall>ft \<in> set fts. visited env s' ft)"
  proof (rule Cons.IH[OF _ _ s1(2)])
    show "marks_ok s1" using one(1) by (simp add: step_ok_def)
    fix g u u' assume "g \<in> set fts" "marks_ok u" "f g u = Some u'"
    then show "step_ok env u u' \<and> visited env u' g" using Cons.prems(1)[of g u u'] by simp
  qed
  then have "visited env s' ft" using visited_mono[OF one(2)] by (simp add: step_ok_def)
  with rest show ?case using step_ok_trans[OF one(1)] by simp
qed (simp add: step_ok_refl)

text \<open>The mark of a struct, before its fields.\<close>

lemma mark_ok:
  assumes "good_name n" and "marks_ok st"
  shows "marks_ok (st\<lparr>registeredTypeNames := processed_key p n # registeredTypeNames st, gobTypes := [GNamed p n, GPtr (GNamed p n)] @ gobTypes st\<rparr>)"
  using assms(2) keys_differ[OF _ assms(1)] processed_key_eq[OF _ assms(1)] unfolding marks_ok_def by auto

lemma mark_step:
  assumes "good_name n" and "underlying env (GNamed p n) = GStruct fts"
    and "step_ok env (st\<lparr>registeredTypeNames := processed_key p n # registeredTypeNames st, gobTypes := ts\<rparr>) st'" and "\<forall>ft \<in> set fts. visited env st' ft"
  shows "step_ok env st st' \<and> processed_key p n \<in> set (registeredTypeNames st')"
proof -
  have "\<forall>ft \<in> set fts'. visited env st' ft"
    if "good_name m" "underlying env (GNamed q m) = GStruct fts'" "processed_key q m \<in> set (registeredTypeNames st')"
      "processed_key q m \<notin> set (registeredTypeNames st)" for q m fts'
  proof (cases "q = p \<and> m = n")
    case True
    with that(2) assms(2,4) show ?thesis by simp
  next
    case False
    then have "processed_key q m \<noteq> processed_key p n" using processed_key_eq[OF that(1) assms(1)] by simp
    with that assms(3) show ?thesis by (simp add: step_ok_def marked_fields_def)
  qed
  with assms(3) show ?thesis by (simp add: step_ok_def marked_fields_def)
qed

text \<open>A field type, once its pointers are followed to \<open>t\<close>.\<close>

lemma field_deref_ok:
  assumes d: "deref_register n env ft (registerNamedType env ft st) = Some (t, s1)" and good: "good_types env ft" and "marks_ok st"
  shows "step_ok env st s1" and "good_types env t" and "\<forall>e. underlying env t \<noteq> GPtr e"
    and "\<And>p m. t = GNamed p m \<Longrightarrow> p \<noteq> [] \<Longrightarrow> m \<noteq> [] \<Longrightarrow> type_key p m \<in> set (registeredTypeNames s1)"
    and "step_ok env s1 st' \<Longrightarrow> visited env st' t \<Longrightarrow> step_ok env st st' \<and> visited env st' ft"
proof -
  note reg = registerNamedType_ok[OF good assms(3)]
  have m: "marks_ok (registerNamedType env ft st)" using reg(1) by (simp add: step_ok_def)
  note der = deref_register_ok[OF d good m reg(2)]
  show s1: "step_ok env st s1" using der step_ok_trans[OF reg(1)] by blast
  show "good_types env t" "\<forall>e. underlying env t \<noteq> GPtr e" using der by blast+
  show "type_key p m \<in> set (registeredTypeNames s1)" if "t = GNamed p m" "p \<noteq> []" "m \<noteq> []" for p m using der that by blast
  show "step_ok env st st' \<and> visited env st' ft" if "step_ok env s1 st'" "visited env st' t"
    using der step_ok_trans[OF s1 that(1)] that by (auto simp: step_ok_def)
qed

lemma visited_parts:
  assumes "\<And>p m. t = GNamed p m \<Longrightarrow> p \<noteq> [] \<Longrightarrow> m \<noteq> [] \<Longrightarrow> type_key p m \<in> set (registeredTypeNames s1)" and "step_ok env s1 st'"
    and "\<forall>u \<in> set (parts env t). visited env st' u"
    and "\<And>p m fts. t = GNamed p m \<Longrightarrow> p \<noteq> [] \<Longrightarrow> m \<noteq> ''Time'' \<Longrightarrow> underlying env t = GStruct fts \<Longrightarrow>
      processed_key p m \<in> set (registeredTypeNames st')"
  shows "visited env st' t"
proof (subst visited_iff, intro conjI)
  show "seen env st' t" using assms(1,2,4) by (auto simp: seen_def step_ok_def)
qed (rule assms(3))

lemma register_struct_ok:
  assumes run: "RegisterTypeRecursive (Suc n) env t st = Some st'" and "good_types env t" and "marks_ok st"
    and d: "deref_type n env t = Some (GNamed p nm)" and fts: "underlying env (GNamed p nm) = GStruct fts" and "p \<noteq> []"
    and g: "good_name nm"
    and fields: "\<And>ft s s'. ft \<in> set fts \<Longrightarrow> marks_ok s \<Longrightarrow> registerFieldTypeRecursive n env ft s = Some s' \<Longrightarrow>
      step_ok env s s' \<and> visited env s' ft"
  shows "step_ok env st st' \<and> processed_key p nm \<in> set (registeredTypeNames st')"
proof -
  let ?s = "registerNamedType env t st"
  let ?s2 = "?s\<lparr>registeredTypeNames := processed_key p nm # registeredTypeNames ?s, gobTypes := [GNamed p nm, GPtr (GNamed p nm)] @ gobTypes ?s\<rparr>"
  have reg: "step_ok env st ?s" by (rule registerNamedType_ok(1)[OF assms(2,3)])
  then have m: "marks_ok ?s" by (simp add: step_ok_def)
  have key: "type_key p nm \<noteq> ''.''" using assms(6) by (auto simp: type_key_def append_eq_Cons_conv)
  show ?thesis
  proof (cases "processed_key p nm \<in> set (registeredTypeNames ?s)")
    case True
    then show ?thesis using run fts d key reg by (simp add: Let_def)
  next
    case False
    have "each (\<lambda>ft s. registerFieldTypeRecursive n env ft s) fts ?s2 = Some st'" using run fts d key False by (simp add: Let_def)
    from each_ok[OF fields mark_ok[OF g m] this]
    have "step_ok env ?s2 st' \<and> (\<forall>ft \<in> set fts. visited env st' ft)" by blast
    then have "step_ok env ?s st' \<and> processed_key p nm \<in> set (registeredTypeNames st')" using mark_step[OF g fts] by blast
    then show ?thesis using step_ok_trans[OF reg] by blast
  qed
qed

lemma register_ok:
  "registerFieldTypeRecursive n env ft st = Some st' \<Longrightarrow> good_types env ft \<Longrightarrow> marks_ok st \<Longrightarrow> step_ok env st st' \<and> visited env st' ft"
  "RegisterTypeRecursive n env t st = Some st' \<Longrightarrow> good_types env t \<Longrightarrow> marks_ok st \<Longrightarrow>
   deref_type (n - 1) env t = Some (GNamed p nm) \<Longrightarrow> underlying env (GNamed p nm) = GStruct fts \<Longrightarrow> p \<noteq> [] \<Longrightarrow> nm \<noteq> ''Time'' \<Longrightarrow>
   good_types env (GNamed p nm) \<Longrightarrow>
   step_ok env st st' \<and> processed_key p nm \<in> set (registeredTypeNames st')"
proof (induction n env ft st and n env t st arbitrary: st' and st' p nm fts
    rule: registerFieldTypeRecursive_RegisterTypeRecursive.induct)
  case (2 n env ft st)
  obtain t s1 where d: "deref_register n env ft (registerNamedType env ft st) = Some (t, s1)" using 2(6) by (auto split: option.splits)
  note dd = field_deref_ok[OF d 2(7,8)]
  have s1: "marks_ok s1" using dd(1) by (simp add: step_ok_def)
  note fin = dd(5)[OF _ visited_parts[OF dd(4)]]
  have good: "good_types env u" if "u \<in> set (parts env t)" for u by (rule good_types_part[OF dd(2) that])
  show ?case
  proof (cases "underlying env t")
    case (GSlice e)
    have p: "parts env t = [e]" using GSlice by (simp add: parts_def)
    have "registerFieldTypeRecursive n env e s1 = Some st'" using 2(6) d GSlice by simp
    from 2(1)[OF d refl GSlice this] good p s1 have "step_ok env s1 st' \<and> visited env st' e" by simp
    then show ?thesis using p GSlice by (intro fin) simp_all
  next
    case (GArray e)
    have p: "parts env t = [e]" using GArray by (simp add: parts_def)
    have "registerFieldTypeRecursive n env e s1 = Some st'" using 2(6) d GArray by simp
    from 2(2)[OF d refl GArray this] good p s1 have "step_ok env s1 st' \<and> visited env st' e" by simp
    then show ?thesis using p GArray by (intro fin) simp_all
  next
    case (GMap k v)
    have p: "parts env t = [k, v]" using GMap by (simp add: parts_def)
    obtain s2 where k: "registerFieldTypeRecursive n env k s1 = Some s2" and v: "registerFieldTypeRecursive n env v s2 = Some st'"
      using 2(6) d GMap by (auto split: option.splits)
    have ok: "step_ok env s1 s2" "visited env s2 k" using 2(3)[OF d refl GMap k] good p s1 by simp_all
    have ov: "step_ok env s2 st'" "visited env st' v" using 2(4)[OF d refl GMap k v] good p ok(1) by (simp_all add: step_ok_def)
    have "visited env st' k" using visited_mono[OF ok(2)] ov(1) by (simp add: step_ok_def)
    then show ?thesis using step_ok_trans[OF ok(1) ov(1)] ov(2) p GMap by (intro fin) simp_all
  next
    case (GStruct fts)
    have p: "parts env t = []" using GStruct by (simp add: parts_def)
    show ?thesis
    proof (cases "\<exists>p nm. t = GNamed p nm \<and> p \<noteq> [] \<and> nm \<noteq> ''Time''")
      case True
      then obtain q nm where t: "t = GNamed q nm" "q \<noteq> []" "nm \<noteq> ''Time''" by blast
      then have run: "RegisterTypeRecursive n env t s1 = Some st'" using 2(6) d GStruct by simp
      have "deref_type (n - 1) env t = Some (GNamed q nm)" using GStruct t by (subst deref_type.simps) simp
      from 2(5)[OF d refl GStruct t(1) _ run dd(2) s1 this] GStruct t dd(2)
      have "step_ok env s1 st'" "processed_key q nm \<in> set (registeredTypeNames st')" by auto
      then show ?thesis using p t by (intro fin) simp_all
    next
      case False
      then have "st' = s1" using 2(6) d GStruct by (cases t) (auto split: if_splits)
      then show ?thesis using p False step_ok_refl[OF s1] by (intro fin) auto
    qed
  next
    case GBasic
    then have "st' = s1" using 2(6) d by simp
    then show ?thesis using GBasic step_ok_refl[OF s1] by (intro fin) (simp_all add: parts_def)
  next
    case (GNamed q m)
    then have "st' = s1" using 2(6) d by simp
    then show ?thesis using GNamed step_ok_refl[OF s1] by (intro fin) (simp_all add: parts_def)
  qed (use dd(3) in blast)
next
  case (4 n env t st)
  have d: "deref_type n env t = Some (GNamed p nm)" using 4(5) by simp
  show ?case
  proof (cases "type_key p nm = ''.'' \<or> processed_key p nm \<in> set (registeredTypeNames (registerNamedType env t st))")
    case True
    then show ?thesis
      using 4(2,6,7) d registerNamedType_ok(1)[OF 4(3,4)] by (auto simp: Let_def type_key_def append_eq_Cons_conv)
  next
    case False
    have "good_types env ft" if "ft \<in> set fts" for ft using good_types_uses[OF 4(9) uses_field[OF 4(7,8,6) that]] .
    then show ?thesis
      using 4(1)[OF refl d refl] 4(6) False
      by (intro register_struct_ok[OF 4(2,3,4) d 4(6,7) good_types_name[OF 4(9)]]) auto
  qed
qed simp_all

section \<open>The recursion ends\<close>

text \<open>
  Pointers, slices, arrays and maps are not marked, so they must not lead back to themselves without a struct between: every
  type has a rank above the ones of its parts, and those of fields are bounded.
\<close>

definition grounded :: "tenv \<Rightarrow> (rtype \<Rightarrow> nat) \<Rightarrow> nat \<Rightarrow> bool" where
  "grounded env rank R \<longleftrightarrow> (\<forall>t. \<forall>u \<in> set (parts env t). rank u < rank t) \<and>
     (\<forall>fts \<in> {fts. GStruct fts \<in> set (map snd env)}. \<forall>ft \<in> set fts. rank ft \<le> R)"

definition unmarked :: "tenv \<Rightarrow> gob_state \<Rightarrow> nat" where
  "unmarked env st = card {(p, n) \<in> set (map fst env). processed_key p n \<notin> set (registeredTypeNames st)}"

lemma finite_unmarked: "finite {(p, n) \<in> set (map fst env). processed_key p n \<notin> set (registeredTypeNames st)}"
  by (rule finite_subset[OF _ finite_set[of "map fst env"]]) auto

lemma unmarked_mono:
  "set (registeredTypeNames st) \<subseteq> set (registeredTypeNames st') \<Longrightarrow> unmarked env st' \<le> unmarked env st"
  unfolding unmarked_def by (rule card_mono[OF finite_unmarked]) auto

lemma unmarked_less:
  assumes "(p, n) \<in> set (map fst env)" and "processed_key p n \<notin> set (registeredTypeNames st)"
    and "processed_key p n \<in> set (registeredTypeNames st')" and "set (registeredTypeNames st) \<subseteq> set (registeredTypeNames st')"
  shows "unmarked env st' < unmarked env st"
  unfolding unmarked_def by (rule psubset_card_mono[OF finite_unmarked]) (use assms in blast)

lemma registerNamedType_names: "set (registeredTypeNames st) \<subseteq> set (registeredTypeNames (registerNamedType env t st))"
  by (auto simp: registerNamedType_def split: rtype.split)

lemma deref_register_total:
  assumes "grounded env rank R"
  shows "rank t \<le> n \<Longrightarrow> \<exists>t' st'. deref_register n env t st = Some (t', st') \<and> rank t' \<le> rank t \<and>
    set (registeredTypeNames st) \<subseteq> set (registeredTypeNames st') \<and> (\<forall>e. underlying env t' \<noteq> GPtr e)"
proof (induction n arbitrary: t st)
  case 0
  have "underlying env t \<noteq> GPtr e" for e
    using assms 0 unfolding grounded_def parts_def by (metis list.set_intros(1) not_less_zero le_zero_eq rtype.simps(51))
  then show ?case by (subst deref_register.simps) (simp split: rtype.split)
next
  case (Suc n)
  show ?case
  proof (cases "\<exists>e. underlying env t = GPtr e")
    case True
    then obtain e where e: "underlying env t = GPtr e" by blast
    then have "e \<in> set (parts env t)" by (simp add: parts_def)
    then have "rank e < rank t" using assms by (auto simp: grounded_def)
    then show ?thesis using Suc.IH[of e "registerNamedType env e st"] Suc.prems e registerNamedType_names[of st env e]
      by (subst deref_register.simps) fastforce
  next
    case False
    then show ?thesis by (subst deref_register.simps) (simp split: rtype.split)
  qed
qed

lemma each_total:
  "(\<And>ft s. ft \<in> set fts \<Longrightarrow> Q s \<Longrightarrow> \<exists>s'. f ft s = Some s' \<and> Q s') \<Longrightarrow> Q s \<Longrightarrow> \<exists>s'. each f fts s = Some s' \<and> Q s'"
proof (induction fts arbitrary: s)
  case (Cons ft fts)
  obtain s1 where s1: "f ft s = Some s1" "Q s1" using Cons.prems(1)[OF _ Cons.prems(2)] by auto
  have "\<exists>s'. each f fts s1 = Some s' \<and> Q s'" by (rule Cons.IH[OF Cons.prems(1) s1(2)]) simp_all
  then show ?case using s1(1) by simp
qed simp

text \<open>Fuel for a type of rank \<open>r\<close> when \<open>u\<close> structs are not marked.\<close>

definition fuel :: "nat \<Rightarrow> nat \<Rightarrow> nat \<Rightarrow> nat" where
  "fuel R u r = u * (R + 3) + r + 2"

lemma register_struct_total:
  assumes "underlying env (GNamed p nm) = GStruct fts" and "unmarked env st \<le> u"
    and fields: "\<And>ft s u'. ft \<in> set fts \<Longrightarrow> u' < u \<Longrightarrow> unmarked env s \<le> u' \<Longrightarrow>
      \<exists>s'. registerFieldTypeRecursive n env ft s = Some s' \<and> set (registeredTypeNames s) \<subseteq> set (registeredTypeNames s')"
    and d: "deref_type n env t = Some (GNamed p nm)"
  shows "\<exists>st'. RegisterTypeRecursive (Suc n) env t st = Some st' \<and> set (registeredTypeNames st) \<subseteq> set (registeredTypeNames st')"
proof -
  let ?s = "registerNamedType env t st"
  let ?s2 = "?s\<lparr>registeredTypeNames := processed_key p nm # registeredTypeNames ?s, gobTypes := [GNamed p nm, GPtr (GNamed p nm)] @ gobTypes ?s\<rparr>"
  let ?Q = "\<lambda>s :: gob_state. set (registeredTypeNames ?s2) \<subseteq> set (registeredTypeNames s)"
  note mono = registerNamedType_names[of st env t]
  show ?thesis
  proof (cases "type_key p nm = ''.'' \<or> processed_key p nm \<in> set (registeredTypeNames ?s)")
    case True
    then show ?thesis using d assms(1) mono by (auto simp: Let_def)
  next
    case False
    have "(p, nm) \<in> set (map fst env)"
      using assms(1) by (auto simp: underlying_def split: option.splits dest!: map_of_SomeD intro: image_eqI[rotated])
    then have "unmarked env ?s2 < unmarked env ?s" by (rule unmarked_less) (use False in auto)
    then have less: "unmarked env ?s2 < u" using unmarked_mono[OF mono, of env] assms(2) by linarith
    have "\<exists>s'. each (\<lambda>ft s. registerFieldTypeRecursive n env ft s) fts ?s2 = Some s' \<and> ?Q s'"
    proof (rule each_total[where Q = ?Q])
      fix ft s assume ft: "ft \<in> set fts" and s: "?Q s"
      from fields[OF ft less unmarked_mono[OF s]] s
      show "\<exists>s'. registerFieldTypeRecursive n env ft s = Some s' \<and> ?Q s'" by (meson order_trans)
    qed simp
    then show ?thesis using d assms(1) False mono by (auto simp: Let_def)
  qed
qed

lemma field_rank:
  assumes "grounded env rank R" and "underlying env (GNamed p nm) = GStruct fts" and "ft \<in> set fts"
  shows "rank ft \<le> R"
proof -
  have "GStruct fts \<in> set (map snd env)"
    using assms(2) by (auto simp: underlying_def split: option.splits dest!: map_of_SomeD intro: image_eqI[rotated])
  then show ?thesis using assms(1,3) by (auto simp: grounded_def)
qed

lemma fuel_field: "u' < u \<Longrightarrow> u * (R + 3) \<le> Suc k \<Longrightarrow> fuel R u' R \<le> k"
proof -
  assume u: "u' < u" "u * (R + 3) \<le> Suc k"
  have "Suc u' * (R + 3) \<le> u * (R + 3)" using u(1) by (intro mult_le_mono1) simp
  then show ?thesis using u(2) by (simp add: fuel_def)
qed

lemma register_field_total:
  assumes g: "grounded env rank R"
  shows "unmarked env st \<le> u \<Longrightarrow> rank ft \<le> r \<Longrightarrow> fuel R u r \<le> n \<Longrightarrow>
    \<exists>st'. registerFieldTypeRecursive n env ft st = Some st' \<and> set (registeredTypeNames st) \<subseteq> set (registeredTypeNames st')"
proof (induction u arbitrary: r ft st n rule: less_induct)
  case (less u)
  note outer = less.IH
  from less.prems show ?case
  proof (induction r arbitrary: ft st n rule: less_induct)
    case (less r)
    note inner = less.IH
    obtain m where n: "n = Suc m" using less.prems(3) by (cases n) (auto simp: fuel_def)
    have m: "u * (R + 3) + r + 1 \<le> m" using less.prems(3) n by (simp add: fuel_def)
    obtain t s1 where d: "deref_register m env ft (registerNamedType env ft st) = Some (t, s1)" and rt: "rank t \<le> rank ft"
      and names: "set (registeredTypeNames (registerNamedType env ft st)) \<subseteq> set (registeredTypeNames s1)"
      and noptr: "\<forall>e. underlying env t \<noteq> GPtr e"
      using deref_register_total[OF g, of ft m "registerNamedType env ft st"] less.prems(2) m by auto
    have mono: "set (registeredTypeNames st) \<subseteq> set (registeredTypeNames s1)" using names registerNamedType_names[of st env ft] by blast
    have u1: "unmarked env s1 \<le> u" using unmarked_mono[OF mono, of env] less.prems(1) by linarith
    have part: "\<exists>s'. registerFieldTypeRecursive m env e s = Some s' \<and> set (registeredTypeNames s) \<subseteq> set (registeredTypeNames s')"
      if e: "e \<in> set (parts env t)" and s: "unmarked env s \<le> u" for e s
    proof -
      have "rank e < rank t" using g e by (simp add: grounded_def)
      then have lt: "rank e < r" using rt less.prems(2) by linarith
      then have "fuel R u (rank e) \<le> m" using m by (simp add: fuel_def)
      from inner[OF lt s order_refl this] show ?thesis .
    qed
    show ?case
    proof (cases "underlying env t")
      case (GSlice e)
      with part[of e s1] u1 mono n d show ?thesis by (auto simp: parts_def)
    next
      case (GArray e)
      with part[of e s1] u1 mono n d show ?thesis by (auto simp: parts_def)
    next
      case (GMap k v)
      obtain s2 where k: "registerFieldTypeRecursive m env k s1 = Some s2" "set (registeredTypeNames s1) \<subseteq> set (registeredTypeNames s2)"
        using part[of k s1] u1 GMap by (auto simp: parts_def)
      have "unmarked env s2 \<le> u" using unmarked_mono[OF k(2), of env] u1 by linarith
      with part[of v s2] GMap k mono n d show ?thesis by (auto simp: parts_def)
    next
      case (GStruct fts)
      obtain k where k: "m = Suc k" using m by (cases m) auto
      show ?thesis
      proof (cases "\<exists>p nm. t = GNamed p nm \<and> p \<noteq> [] \<and> nm \<noteq> ''Time''")
        case True
        then obtain p nm where t: "t = GNamed p nm" "p \<noteq> []" "nm \<noteq> ''Time''" by blast
        have fields: "\<exists>s'. registerFieldTypeRecursive k env x s = Some s' \<and> set (registeredTypeNames s) \<subseteq> set (registeredTypeNames s')"
          if x: "x \<in> set fts" "u' < u" "unmarked env s \<le> u'" for x s u'
          by (rule outer[OF x(2,3) field_rank[OF g _ x(1)] fuel_field[OF x(2)]]) (use GStruct t(1) m k in simp_all)
        have "deref_type k env t = Some (GNamed p nm)" using GStruct t by (subst deref_type.simps) simp
        from register_struct_total[OF _ u1 fields this] GStruct t(1)
        have "\<exists>s'. RegisterTypeRecursive m env t s1 = Some s' \<and> set (registeredTypeNames s1) \<subseteq> set (registeredTypeNames s')"
          unfolding k by simp
        then show ?thesis using GStruct t n d mono by auto
      next
        case False
        then show ?thesis using GStruct n d mono by (cases t) auto
      qed
    qed (use n d mono noptr in auto)
  qed
qed

definition emptyGob :: gob_state where
  "emptyGob = \<lparr>registeredTypeNames = [], gobTypes = []\<rparr>"

inductive_cases uses_ptr: "uses env (GPtr t) u"

lemma good_types_ptr:
  assumes "good_types env t"
  shows "good_types env (GPtr t)"
  unfolding good_types_def
proof (intro allI impI)
  fix p n assume "(uses env)\<^sup>*\<^sup>* (GPtr t) (GNamed p n)"
  then obtain u where u: "uses env (GPtr t) u" "(uses env)\<^sup>*\<^sup>* u (GNamed p n)" by (auto elim: converse_rtranclpE)
  have "u = t" using u(1) by (rule uses_ptr) (auto simp: parts_def underlying_def)
  with u(2) assms show "good_name n" by (auto simp: good_types_def)
qed

text \<open>The types reached from a marked struct are seen.\<close>

lemma reached_visited:
  assumes "step_ok env emptyGob st" and "good_types env (GNamed p nm)" and "processed_key p nm \<in> set (registeredTypeNames st)"
    and "underlying env (GNamed p nm) = GStruct flds" and "(uses env)\<^sup>*\<^sup>* (GNamed p nm) u"
  shows "u = GNamed p nm \<or> visited env st u"
  using assms(5)
proof (induction rule: rtranclp_induct)
  case (step u v)
  have good: "good_types env u" using step.hyps(1) assms(2)
    by (induction rule: rtranclp_induct) (auto intro: good_types_uses)
  from step.hyps(2) show ?case
  proof cases
    case uses_part
    moreover have "u \<noteq> GNamed p nm" using uses_part assms(4) by (auto simp: parts_def)
    ultimately show ?thesis using step.IH visited_iff[of env st u] by blast
  next
    case (uses_field q m fts)
    have "processed_key q m \<in> set (registeredTypeNames st)"
      using step.IH assms(3) uses_field visited_iff[of env st u] by (auto simp: seen_def)
    moreover have "good_name m" using good uses_field(1) good_types_name by simp
    ultimately have "\<forall>ft \<in> set fts. visited env st ft"
      using assms(1) uses_field(4) by (auto simp: step_ok_def marked_fields_def emptyGob_def)
    then show ?thesis using uses_field(5) by simp
  qed
qed simp

text \<open>
  C36: a model type is registered with everything a value of it can hold. For a struct type, given itself or as a pointer, over a
  graph of types that may be recursive through structs, \<open>RegisterTypeRecursive\<close> ends, with fuel linear in the number
  of types, and has passed to \<open>gob.Register\<close> every named type that is reached through fields, pointers, slices, arrays
  and maps; time values are not opened.
\<close>

theorem registration_complete:
  assumes "grounded env rank R" and "good_types env (GNamed p nm)" and "underlying env (GNamed p nm) = GStruct fts"
    and "p \<noteq> []" and "nm \<noteq> ''Time''" and "t = GNamed p nm \<or> t = GPtr (GNamed p nm)" and "length env * (R + 3) + 2 \<le> n"
  shows "\<exists>st. RegisterTypeRecursive n env t emptyGob = Some st \<and>
    (\<forall>q m. (uses env)\<^sup>*\<^sup>* (GNamed p nm) (GNamed q m) \<longrightarrow> q \<noteq> [] \<longrightarrow> m \<noteq> [] \<longrightarrow> GNamed q m \<in> set (gobTypes st))"
proof -
  obtain k where k: "n = Suc (Suc k)" using assms(7) by (metis add_2_eq_Suc' le_add2 le_Suc_ex add_Suc)
  have d: "deref_type (Suc k) env t = Some (GNamed p nm)"
    using assms(3,6) by (auto simp: deref_type.simps[of _ _ "GPtr _"] deref_type.simps[of _ _ "GNamed p nm"] underlying_def[of _ "GPtr _"])
  have u: "unmarked env emptyGob \<le> length env"
  proof -
    have "unmarked env emptyGob \<le> card (set (map fst env))" unfolding unmarked_def by (rule card_mono) auto
    also have "\<dots> \<le> length env" using card_length[of "map fst env"] by simp
    finally show ?thesis .
  qed
  have fields: "\<exists>s'. registerFieldTypeRecursive (Suc k) env ft s = Some s' \<and> set (registeredTypeNames s) \<subseteq> set (registeredTypeNames s')"
    if ft: "ft \<in> set fts" "u' < length env" "unmarked env s \<le> u'" for ft s u'
    by (rule register_field_total[OF assms(1) ft(3) field_rank[OF assms(1,3) ft(1)] fuel_field[OF ft(2)]]) (use assms(7) k in simp)
  have "\<exists>st'. RegisterTypeRecursive (Suc (Suc k)) env t emptyGob = Some st' \<and> set (registeredTypeNames emptyGob) \<subseteq> set (registeredTypeNames st')"
    by (rule register_struct_total[OF assms(3) u _ d]) (rule fields)
  then obtain st where st: "RegisterTypeRecursive n env t emptyGob = Some st" unfolding k by blast
  have "good_types env t" using assms(2,6) good_types_ptr by blast
  moreover have "marks_ok emptyGob" by (simp add: marks_ok_def emptyGob_def)
  ultimately have ok: "step_ok env emptyGob st" "processed_key p nm \<in> set (registeredTypeNames st)"
    using register_ok(2)[OF st _ _ _ assms(3,4,5,2)] d k by simp_all
  have "GNamed q m \<in> set (gobTypes st)" if r: "(uses env)\<^sup>*\<^sup>* (GNamed p nm) (GNamed q m)" "q \<noteq> []" "m \<noteq> []" for q m
  proof -
    have "good_name m" using assms(2) r(1) by (auto simp: good_types_def)
    moreover have "type_key q m \<in> set (registeredTypeNames st) \<or> processed_key q m \<in> set (registeredTypeNames st)"
      using reached_visited[OF ok(1) assms(2) ok(2) assms(3) r(1)] ok(2) r(2,3) visited_iff[of env st "GNamed q m"]
      by (auto simp: seen_def)
    ultimately show ?thesis using ok(1) by (auto simp: step_ok_def marks_ok_def)
  qed
  with st show ?thesis by blast
qed

text \<open>A user with friends, named tags, addresses and a time, for examples.\<close>

definition sample_env :: tenv where
  "sample_env =
     [((''m'', ''User''), GStruct [GBasic, GNamed ''m'' ''Tags'', GSlice (GPtr (GNamed ''m'' ''User'')), GMap GBasic (GNamed ''m'' ''Address''), GNamed ''time'' ''Time'']),
      ((''m'', ''Tags''), GSlice GBasic), ((''m'', ''Address''), GStruct [GNamed ''m'' ''City'']), ((''m'', ''City''), GBasic),
      ((''time'', ''Time''), GStruct [])]"

fun sample_rank :: "rtype \<Rightarrow> nat" where
  "sample_rank (GPtr t) = Suc (sample_rank t)"
| "sample_rank (GSlice t) = Suc (sample_rank t)"
| "sample_rank (GArray t) = Suc (sample_rank t)"
| "sample_rank (GMap k v) = Suc (max (sample_rank k) (sample_rank v))"
| "sample_rank (GNamed p n) = (if n = ''Tags'' then 1 else 0)"
| "sample_rank _ = 0"

lemma sample_grounded: "grounded sample_env sample_rank 2"
proof -
  have "\<forall>u \<in> set (parts sample_env t). sample_rank u < sample_rank t" for t
    by (cases t) (auto simp: parts_def underlying_def sample_env_def)
  moreover have "\<forall>ft \<in> set fts. sample_rank ft \<le> 2" if "GStruct fts \<in> set (map snd sample_env)" for fts
    using that by (auto simp: sample_env_def)
  ultimately show ?thesis by (simp add: grounded_def)
qed

lemma sample_good: "good_types sample_env (GNamed ''m'' ''User'')"
proof -
  let ?S = "{GNamed ''m'' ''User'', GBasic, GNamed ''m'' ''Tags'', GSlice (GPtr (GNamed ''m'' ''User'')), GPtr (GNamed ''m'' ''User''),
    GMap GBasic (GNamed ''m'' ''Address''), GNamed ''m'' ''Address'', GNamed ''m'' ''City'', GNamed ''time'' ''Time''}"
  have closed: "v \<in> ?S" if "u \<in> ?S" "uses sample_env u v" for u v
    using that(2,1) by cases (auto simp: parts_def underlying_def sample_env_def)
  have "u \<in> ?S" if "(uses sample_env)\<^sup>*\<^sup>* (GNamed ''m'' ''User'') u" for u
    using that
  proof (induction rule: rtranclp_induct)
    case (step y z)
    from closed[OF step.IH step.hyps(2)] show ?case .
  qed simp
  moreover have "good_name n" if "GNamed p n \<in> ?S" for p n using that by (auto simp: good_name_def has_suffix_def)
  ultimately show ?thesis unfolding good_types_def by blast
qed

theorem registration_complete_witness:
  "\<exists>st. RegisterTypeRecursive 30 sample_env (GPtr (GNamed ''m'' ''User'')) emptyGob = Some st \<and> GNamed ''m'' ''City'' \<in> set (gobTypes st)"
proof -
  let ?u = "GNamed ''m'' ''User''" and ?m = "GMap GBasic (GNamed ''m'' ''Address'')" and ?a = "GNamed ''m'' ''Address''"
  have u: "underlying sample_env ?u = GStruct [GBasic, GNamed ''m'' ''Tags'', GSlice (GPtr ?u), ?m, GNamed ''time'' ''Time'']"
    by (simp add: underlying_def sample_env_def)
  have a: "underlying sample_env ?a = GStruct [GNamed ''m'' ''City'']" by (simp add: underlying_def sample_env_def)
  have "uses sample_env ?u ?m" by (rule uses_field[OF _ _ u]) simp_all
  moreover have "uses sample_env ?m ?a" by (rule uses_part) (simp add: parts_def underlying_def)
  moreover have "uses sample_env ?a (GNamed ''m'' ''City'')" by (rule uses_field[OF _ _ a]) simp_all
  ultimately have r: "(uses sample_env)\<^sup>*\<^sup>* ?u (GNamed ''m'' ''City'')" by (meson converse_rtranclp_into_rtranclp rtranclp.rtrancl_refl)
  have "length sample_env * (2 + 3) + 2 \<le> 30" by (simp add: sample_env_def)
  from registration_complete[OF sample_grounded sample_good u _ _ _ this, of "GPtr ?u"] r show ?thesis by auto
qed

section \<open>Types without a struct between\<close>

text \<open>A slice type that contains itself is followed forever, whatever the fuel.\<close>

lemma recursive_slice_loops:
  "registerFieldTypeRecursive n [((''m'', ''Tree''), GSlice (GNamed ''m'' ''Tree''))] (GNamed ''m'' ''Tree'') st = None"
proof (induction n arbitrary: st)
  case (Suc n)
  have "deref_register n [((''m'', ''Tree''), GSlice (GNamed ''m'' ''Tree''))] (GNamed ''m'' ''Tree'') s = Some (GNamed ''m'' ''Tree'', s)" for s
    by (subst deref_register.simps) (simp add: underlying_def)
  with Suc show ?case by (simp add: underlying_def)
qed simp

end
