(* ===== verification/Configuration.thy ===== *)
theory Configuration
  imports Schema_Meta Gob_Registry
begin

text \<open>
  Logging (\<^verbatim>\<open>internal/logging/logging.go\<close>, \<^verbatim>\<open>logging.go\<close>), the global configuration (\<^verbatim>\<open>config.go\<close>) and the constructors of
  \<^verbatim>\<open>thing.go\<close>.

  Databases, caches and loggers are values of arbitrary types. A message is its format and its arguments; what a logger
  has been given is a list of messages. The mutex makes each call one step.
\<close>

section \<open>Logging\<close>

datatype Level = Default | Silent | LError | LWarn | LInfo | LDebug

fun level_number :: "Level \<Rightarrow> nat" where
  "level_number Default = 0"
| "level_number Silent = 1"
| "level_number LError = 2"
| "level_number LWarn = 3"
| "level_number LInfo = 4"
| "level_number LDebug = 5"

record ('l, 'a) log_state =
  logger :: "'l option"
  level :: Level
  logged :: "('l \<times> string \<times> 'a list) list"

definition SetLogger :: "'l option \<Rightarrow> ('l, 'a) log_state \<Rightarrow> ('l, 'a) log_state" where
  "SetLogger l s = s\<lparr>logger := l\<rparr>"

text \<open>\<open>mk\<close> is \<open>log.New\<close> of a writer.\<close>

definition SetOutput :: "('w \<Rightarrow> 'l) \<Rightarrow> 'w option \<Rightarrow> ('l, 'a) log_state \<Rightarrow> ('l, 'a) log_state" where
  "SetOutput mk w s = (case w of None \<Rightarrow> SetLogger None s | Some x \<Rightarrow> SetLogger (Some (mk x)) s)"

definition SetLevel :: "Level \<Rightarrow> ('l, 'a) log_state \<Rightarrow> ('l, 'a) log_state" where
  "SetLevel l s = s\<lparr>level := l\<rparr>"

definition enabled :: "Level \<Rightarrow> Level \<Rightarrow> bool" where
  "enabled configuredLevel messageLevel =
     (let c = (if configuredLevel = Default then LWarn else configuredLevel)
      in if c = Silent then False else level_number messageLevel \<le> level_number c)"

definition levelForMessage :: "string \<Rightarrow> Level" where
  "levelForMessage message =
     (let upper = to_upper (trim_space message) in
      if has_prefix upper ''WARN'' \<or> has_prefix upper ''[WARN]'' \<or> has_prefix upper ''WARNING'' then LWarn
      else if has_prefix upper ''ERROR'' \<or> has_prefix upper ''[ERROR]'' then LError
      else if has_prefix upper ''INFO'' then LInfo
      else if has_prefix upper ''DEBUG'' \<or> has_prefix upper ''[DEBUG]'' then LDebug
      else if has_prefix upper ''DB '' \<or> has_prefix upper ''CACHE '' \<or> str_contains upper '' SQL'' then LDebug
      else LInfo)"

definition logf :: "Level \<Rightarrow> string \<Rightarrow> 'a list \<Rightarrow> ('l, 'a) log_state \<Rightarrow> ('l, 'a) log_state" where
  "logf l format as s =
     (case logger s of
        None \<Rightarrow> s
      | Some g \<Rightarrow> if \<not> enabled (level s) l then s else s\<lparr>logged := logged s @ [(g, format, as)]\<rparr>)"

definition logDebugf :: "string \<Rightarrow> 'a list \<Rightarrow> ('l, 'a) log_state \<Rightarrow> ('l, 'a) log_state" where
  "logDebugf format as = logf LDebug format as"

definition logInfof :: "string \<Rightarrow> 'a list \<Rightarrow> ('l, 'a) log_state \<Rightarrow> ('l, 'a) log_state" where
  "logInfof format as = logf LInfo format as"

definition logWarnf :: "string \<Rightarrow> 'a list \<Rightarrow> ('l, 'a) log_state \<Rightarrow> ('l, 'a) log_state" where
  "logWarnf format as = logf LWarn format as"

definition logErrorf :: "string \<Rightarrow> 'a list \<Rightarrow> ('l, 'a) log_state \<Rightarrow> ('l, 'a) log_state" where
  "logErrorf format as = logf LError format as"

definition logPrintf :: "string \<Rightarrow> 'a list \<Rightarrow> ('l, 'a) log_state \<Rightarrow> ('l, 'a) log_state" where
  "logPrintf format as = logf (levelForMessage format) format as"

definition logPrintln :: "'a list \<Rightarrow> ('l, 'a) log_state \<Rightarrow> ('l, 'a) log_state" where
  "logPrintln as = logPrintf (trim_space (concat (replicate (length as) ''%v ''))) as"

section \<open>Configuration\<close>

record ('db, 'cache, 'l, 'a) globals =
  globalDB :: "'db option"
  globalCache :: "'cache option"
  isConfigured :: bool
  atomicCacheTTLNs :: int
  cacheVersion :: int
  logs :: "('l, 'a) log_state"

text \<open>An argument of \<open>Configure\<close>; \<open>ArgOther\<close> is nil or a value of another type.\<close>

datatype ('db, 'cache) config_arg = ArgDB 'db | ArgCache 'cache | ArgTTL int | ArgOther

fun as_db :: "('db, 'cache) config_arg \<Rightarrow> 'db option" where
  "as_db (ArgDB d) = Some d"
| "as_db _ = None"

fun as_cache :: "('db, 'cache) config_arg \<Rightarrow> 'cache option" where
  "as_cache (ArgCache c) = Some c"
| "as_cache _ = None"

fun as_ttl :: "('db, 'cache) config_arg \<Rightarrow> int" where
  "as_ttl (ArgTTL t) = t"
| "as_ttl _ = 0"

definition getGlobalCacheTTL :: "('db, 'cache, 'l, 'a) globals \<Rightarrow> int" where
  "getGlobalCacheTTL g = atomicCacheTTLNs g"

definition setGlobalCacheTTL :: "int \<Rightarrow> ('db, 'cache, 'l, 'a) globals \<Rightarrow> ('db, 'cache, 'l, 'a) globals" where
  "setGlobalCacheTTL d g = g\<lparr>atomicCacheTTLNs := d\<rparr>"

definition defaultTTL :: int where
  "defaultTTL = 8 * 60 * 60 * 1000000000"

text \<open>The database, cache and time to live the arguments stand for.\<close>

definition config_args :: "'cache \<Rightarrow> ('db, 'cache) config_arg list \<Rightarrow> ('db \<times> 'cache \<times> int) go_result" where
  "config_args DefaultLocalCache as =
     (let cache = (\<lambda>a. case as_cache a of None \<Rightarrow> DefaultLocalCache | Some c \<Rightarrow> c);
          no_db = Inl (Errorf ''Configure: first argument must be a DBAdapter'')
      in case as of
           [a] \<Rightarrow> (case as_db a of None \<Rightarrow> no_db | Some d \<Rightarrow> Inr (d, DefaultLocalCache, 0))
         | [a, b] \<Rightarrow> (case as_db a of None \<Rightarrow> no_db | Some d \<Rightarrow> Inr (d, cache b, 0))
         | [a, b, c] \<Rightarrow> (case as_db a of None \<Rightarrow> no_db | Some d \<Rightarrow> Inr (d, cache b, as_ttl c))
         | _ \<Rightarrow> Inl (Errorf ''Configure: must provide at least a DBAdapter''))"

text \<open>\<open>tm\<close> is the time of the call, in seconds. Its messages are left out.\<close>

definition Configure ::
  "'cache \<Rightarrow> int \<Rightarrow> ('db, 'cache) config_arg list \<Rightarrow> ('db, 'cache, 'l, 'a) globals \<Rightarrow> unit go_result \<times> ('db, 'cache, 'l, 'a) globals" where
  "Configure DefaultLocalCache tm as g =
     (let g1 = (if isConfigured g then g else g\<lparr>cacheVersion := tm\<rparr>) in
      case config_args DefaultLocalCache as of
        Inl e \<Rightarrow> (Inl e, g1)
      | Inr (db, cache, ttl) \<Rightarrow>
          (Inr (), (setGlobalCacheTTL (if ttl > 0 then ttl else defaultTTL) g1)
             \<lparr>globalDB := Some db, globalCache := Some cache, isConfigured := True\<rparr>))"

record ('db, 'cache, 'l) Config =
  cfgDB :: "'db option"
  cfgCache :: "'cache option"
  cfgTTL :: int
  cfgLogger :: "'l option"
  cfgLogLevel :: Level

definition ConfigureWithConfig ::
  "'cache \<Rightarrow> int \<Rightarrow> ('db, 'cache, 'l) Config \<Rightarrow> ('db, 'cache, 'l, 'a) globals \<Rightarrow> unit go_result \<times> ('db, 'cache, 'l, 'a) globals" where
  "ConfigureWithConfig DefaultLocalCache tm cfg g =
     (case (cfgDB cfg, cfgCache cfg) of
        (None, _) \<Rightarrow> (Inl (Errorf ''dbAdapter must be non-nil''), g)
      | (_, None) \<Rightarrow> (Inl (Errorf ''cacheClient must be non-nil''), g)
      | (Some db, Some cache) \<Rightarrow>
          (let g1 = (case cfgLogger cfg of None \<Rightarrow> g | Some l \<Rightarrow> g\<lparr>logs := SetLogger (Some l) (logs g)\<rparr>);
               g2 = (if cfgLogLevel cfg \<noteq> Default then g1\<lparr>logs := SetLevel (cfgLogLevel cfg) (logs g1)\<rparr> else g1)
           in if cfgTTL cfg > 0 then Configure DefaultLocalCache tm [ArgDB db, ArgCache cache, ArgTTL (cfgTTL cfg)] g2
              else Configure DefaultLocalCache tm [ArgDB db, ArgCache cache] g2))"

definition GetCacheVersion :: "('db, 'cache, 'l, 'a) globals \<Rightarrow> int" where
  "GetCacheVersion g = cacheVersion g"

definition Cache :: "('db, 'cache, 'l, 'a) globals \<Rightarrow> 'cache option" where
  "Cache g = globalCache g"

definition GlobalDB :: "('db, 'cache, 'l, 'a) globals \<Rightarrow> 'db option" where
  "GlobalDB g = globalDB g"

section \<open>Constructors\<close>

record ('db, 'cache, 'ctx) Thing =
  thDb :: 'db
  thCache :: 'cache
  thCtx :: 'ctx
  thInfo :: schema_info

text \<open>
  The type parameter is given with its fields (\<open>struct_type\<close>) and as a node of the graph of types. The state is the cache of
  metadata and the registry of gob.
\<close>

definition New ::
  "'cache \<Rightarrow> 'ctx \<Rightarrow> nat \<Rightarrow> tenv \<Rightarrow> struct_type \<times> rtype \<Rightarrow> 'db option \<Rightarrow> 'cache option \<Rightarrow>
   (string, schema_info) gomap \<times> gob_state \<Rightarrow> (('db, 'cache, 'ctx) Thing go_result \<times> (string, schema_info) gomap \<times> gob_state) option" where
  "New DefaultLocalCache background n env ty dbAdapter cacheClient st =
     (case dbAdapter of
        None \<Rightarrow> Some (Inl (Errorf ''dbAdapter must be non-nil''), st)
      | Some db \<Rightarrow>
          (case RegisterTypeRecursive n env (snd ty) (snd st) of
             None \<Rightarrow> None
           | Some gs \<Rightarrow>
               (case GetCachedModelInfo (fst st) (fst ty) of
                  (Inl e, mc) \<Rightarrow> Some (Inl (Wrapped ''failed to get model info'' e), mc, gs)
                | (Inr info, mc) \<Rightarrow>
                    if siCustomKeepItem info \<and> \<not> siCustomKeepItemFields info
                    then Some (Inl (Errorf ''model overrides KeepItem() but not KeepItemFields()''), mc, gs)
                    else Some (Inr \<lparr>thDb = db, thCache = (case cacheClient of None \<Rightarrow> DefaultLocalCache | Some c \<Rightarrow> c),
                                    thCtx = background, thInfo = info\<rparr>, mc, gs))))"

definition Use ::
  "'cache \<Rightarrow> 'ctx \<Rightarrow> nat \<Rightarrow> tenv \<Rightarrow> struct_type \<times> rtype \<Rightarrow> ('db, 'cache, 'l, 'a) globals \<Rightarrow>
   (string, schema_info) gomap \<times> gob_state \<Rightarrow> (('db, 'cache, 'ctx) Thing go_result \<times> (string, schema_info) gomap \<times> gob_state) option" where
  "Use DefaultLocalCache background n env ty g st =
     (if \<not> isConfigured g then Some (Inl (Errorf ''thing.Use[T] called before thing.Configure()''), st)
      else New DefaultLocalCache background n env ty (globalDB g) (globalCache g) st)"

definition WithContext :: "'ctx \<Rightarrow> 'ctx option \<Rightarrow> ('db, 'cache, 'ctx) Thing \<Rightarrow> ('db, 'cache, 'ctx) Thing" where
  "WithContext background ctx t = t\<lparr>thCtx := (case ctx of None \<Rightarrow> background | Some c \<Rightarrow> c)\<rparr>"

section \<open>What a configuration does\<close>

definition configure_all ::
  "'cache \<Rightarrow> (int \<times> ('db, 'cache) config_arg list) list \<Rightarrow> ('db, 'cache, 'l, 'a) globals \<Rightarrow> ('db, 'cache, 'l, 'a) globals" where
  "configure_all dflt calls g = foldl (\<lambda>g (tm, as). snd (Configure dflt tm as g)) g calls"

text \<open>The calls that succeed.\<close>

definition accepted :: "'cache \<Rightarrow> (int \<times> ('db, 'cache) config_arg list) list \<Rightarrow> (int \<times> 'db \<times> 'cache \<times> int) list" where
  "accepted dflt calls = concat (map (\<lambda>(tm, as). case config_args dflt as of Inl _ \<Rightarrow> [] | Inr c \<Rightarrow> [(tm, c)]) calls)"

definition effective_ttl :: "int \<Rightarrow> int" where
  "effective_ttl ttl = (if ttl > 0 then ttl else defaultTTL)"

lemma configure_result:
  "snd (Configure dflt tm as g) =
     (let g1 = (if isConfigured g then g else g\<lparr>cacheVersion := tm\<rparr>) in
      case config_args dflt as of
        Inl _ \<Rightarrow> g1
      | Inr (db, cache, ttl) \<Rightarrow>
          g1\<lparr>atomicCacheTTLNs := effective_ttl ttl, globalDB := Some db, globalCache := Some cache, isConfigured := True\<rparr>)"
  by (auto simp: Configure_def setGlobalCacheTTL_def effective_ttl_def Let_def split: sum.split)

lemma configure_all_accepted:
  assumes "\<not> isConfigured g"
  shows "if accepted dflt calls = [] then \<not> isConfigured (configure_all dflt calls g)
    else isConfigured (configure_all dflt calls g) \<and> cacheVersion (configure_all dflt calls g) = fst (hd (accepted dflt calls)) \<and>
      (case last (accepted dflt calls) of (_, db, cache, ttl) \<Rightarrow>
         globalDB (configure_all dflt calls g) = Some db \<and> globalCache (configure_all dflt calls g) = Some cache \<and>
         atomicCacheTTLNs (configure_all dflt calls g) = effective_ttl ttl)"
proof (induction calls rule: rev_induct)
  case Nil
  then show ?case using assms by (simp add: accepted_def configure_all_def)
next
  case (snoc call calls)
  obtain tm as where call: "call = (tm, as)" by (cases call)
  let ?g = "configure_all dflt calls g"
  have run: "configure_all dflt (calls @ [call]) g = snd (Configure dflt tm as ?g)" by (simp add: configure_all_def call)
  show ?case
  proof (cases "config_args dflt as")
    case (Inl e)
    then have "accepted dflt (calls @ [call]) = accepted dflt calls" by (simp add: accepted_def call)
    then show ?thesis using snoc Inl unfolding run configure_result by (auto simp: Let_def split: if_splits)
  next
    case (Inr c)
    obtain db cache ttl where c: "c = (db, cache, ttl)" by (cases c)
    have "accepted dflt (calls @ [call]) = accepted dflt calls @ [(tm, c)]" using Inr by (simp add: accepted_def call)
    then show ?thesis using snoc Inr c unfolding run configure_result by (auto simp: Let_def split: if_splits)
  qed
qed

text \<open>
  C37: the last configuration that succeeds is in force, under the version of the first. After any calls of \<open>Configure\<close> on a
  fresh process, \<open>Use\<close> refuses if none has succeeded; otherwise it builds a \<open>Thing\<close> on the database and cache of the last call
  that succeeded, whose time to live is the global one, or eight hours, and the version of cached queries is the
  time of the first: calls that fail and later calls do not change it.
\<close>

theorem configuration_in_force:
  assumes "\<not> isConfigured g"
  shows "case accepted dflt calls of
      [] \<Rightarrow> Use dflt bg n env ty (configure_all dflt calls g) st = Some (Inl (Errorf ''thing.Use[T] called before thing.Configure()''), st)
    | (tm, _) # _ \<Rightarrow>
        (case last (accepted dflt calls) of (_, db, cache, ttl) \<Rightarrow>
           Use dflt bg n env ty (configure_all dflt calls g) st = New dflt bg n env ty (Some db) (Some cache) st \<and>
           getGlobalCacheTTL (configure_all dflt calls g) = (if ttl > 0 then ttl else defaultTTL)) \<and>
        GetCacheVersion (configure_all dflt calls g) = tm"
  using configure_all_accepted[OF assms, of dflt calls]
  by (cases "accepted dflt calls")
    (auto simp: Use_def getGlobalCacheTTL_def GetCacheVersion_def effective_ttl_def split: prod.splits)

text \<open>A call without a database, one with the defaults, and a third: the fourth fails again.\<close>

definition fresh_globals :: "(string, string, string, string) globals" where
  "fresh_globals = \<lparr>globalDB = None, globalCache = None, isConfigured = False, atomicCacheTTLNs = 0, cacheVersion = 0,
     logs = \<lparr>logger = None, level = Default, logged = []\<rparr>\<rparr>"

definition sample_calls :: "(int \<times> (string, string) config_arg list) list" where
  "sample_calls = [(5, [ArgOther]), (7, [ArgDB ''a'']), (9, [ArgDB ''b'', ArgCache ''redis'', ArgTTL 30]), (11, [])]"

theorem configuration_in_force_witness:
  "(\<forall>ty st. Use ''local'' () 3 [] ty (configure_all ''local'' sample_calls fresh_globals) st = New ''local'' () 3 [] ty (Some ''b'') (Some ''redis'') st) \<and>
   getGlobalCacheTTL (configure_all ''local'' sample_calls fresh_globals) = 30 \<and>
   GetCacheVersion (configure_all ''local'' sample_calls fresh_globals) = 7"
proof -
  have "accepted ''local'' sample_calls = [(7, ''a'', ''local'', 0), (9, ''b'', ''redis'', 30)]" by code_simp
  moreover have "\<not> isConfigured fresh_globals" by (simp add: fresh_globals_def)
  ultimately show ?thesis
    using configuration_in_force[where g = fresh_globals and dflt = "''local''" and calls = sample_calls and bg = "()" and n = 3 and env = "[]"]
    by simp
qed

section \<open>The level of a line\<close>

text \<open>\<open>Println\<close> takes the level from its format, so every line is an information, whatever it says.\<close>

lemma println_info: "levelForMessage (trim_space (concat (replicate k ''%v ''))) = LInfo"
proof -
  let ?u = "to_upper (trim_space (trim_space (concat (replicate k ''%v ''))))"
  have trim: "set (trim_space s) \<subseteq> set s" for s
    by (auto simp: trim_space_def trim_by_def dest!: set_dropWhileD)
  have "set (concat (replicate k ''%v '')) \<subseteq> {CHR ''%'', CHR ''v'', CHR '' ''}" by auto
  then have "set (trim_space (trim_space (concat (replicate k ''%v '')))) \<subseteq> {CHR ''%'', CHR ''v'', CHR '' ''}"
    using trim by blast
  then have "set ?u \<subseteq> to_upper_char ` {CHR ''%'', CHR ''v'', CHR '' ''}" by (auto simp: to_upper_def)
  moreover have "to_upper_char ` {CHR ''%'', CHR ''v'', CHR '' ''} = {CHR ''%'', CHR ''V'', CHR '' ''}"
    by code_simp
  ultimately have u: "set ?u \<subseteq> {CHR ''%'', CHR ''V'', CHR '' ''}" by simp
  have "\<not> has_prefix ?u (c # p)" if "c \<notin> {CHR ''%'', CHR ''V'', CHR '' ''}" for c p
    using u that by (auto simp: has_prefix_iff)
  moreover have "\<not> str_contains ?u '' SQL''" using u by (auto simp: str_contains_iff)
  ultimately show ?thesis by (simp add: levelForMessage_def Let_def)
qed

lemma println_warning_lost:
  "logger s = Some g \<Longrightarrow> level s = Default \<Longrightarrow> logPrintln as s = s"
  by (simp add: logPrintln_def logPrintf_def println_info logf_def enabled_def)

end
