(* ===== verification/Spec2Isabelle.thy ===== *)
theory Spec2Isabelle
  imports Predicate_Roundtrip Key_Locker Relation_Loads Introspection Redis_Client Json_Output Configuration
begin

text \<open>
  \<^bold>\<open>Verification of the Thing ORM\<close>

  Thing (\<^verbatim>\<open>src/\<close>) is an object-relational mapper for Go with a cache in front of the database. A \<open>Thing\<close>
  for a model type reads models by primary key and by query, saves and deletes them, and keeps two kinds of entries in a
  cache: models under \<open>table:id\<close>, and query results, as lists of at most 200 ids and as counts, under keys
  that hash the query. Every cached query is registered in an index by table, column and value. A write asks the index
  which queries may depend on the row, parses their WHERE clauses, evaluates them on the row before and after,
  and deletes the entries whose result the write changes. Model metadata comes from struct tags and also drives the
  generation of DDL. Relations between models are loaded through the same caches.

  \<^bold>\<open>Theories and sources\<close>

  \<^item> \<open>Thing_Prelude\<close>: error values (\<^verbatim>\<open>common/errors.go\<close>), results \<open>'a go_result\<close>, strings, decimal numbers, Go maps as
    association lists; the collections \<open>str_simps\<close> and \<open>gomap_simps\<close>.
  \<^item> \<open>Go_Values\<close>: the Go values a column or an argument can have, with integer widths, conversions, equality and order.
  \<^item> \<open>Query_Predicate\<close>, \<open>Predicate_Parsing\<close>, \<open>Predicate_Roundtrip\<close>: the WHERE tokenizer and parser of
    \<^verbatim>\<open>internal/cache/query_predicate.go\<close>. The parser is total (the fuel is the number of tokens and is never used up), uses every
    argument once and in order, and reads back what a printer writes.
  \<^item> \<open>Query_Match\<close>: evaluation of a clause on a model, \<^verbatim>\<open>internal/cache/query_match.go\<close>; LIKE against a
    reference matcher.
  \<^item> \<open>Cache_Index\<close>: \<^verbatim>\<open>internal/cache/index.go\<close>. After every history of registrations the lookup is the one of a direct
    specification over that history.
  \<^item> \<open>Cache_Client\<close>, \<open>Local_Cache\<close>: the interface \<open>CacheClient\<close> as a record of operations, \<open>WithLock\<close>, and the in-process cache of
    \<^verbatim>\<open>cache.go\<close>, which refines a map with deadlines. The contracts clients rely on are locales, interpreted on the
    in-process cache.
  \<^item> \<open>Model_Info\<close>, \<open>Schema_Meta\<close>: models (\<^verbatim>\<open>model.go\<close>) and their metadata, computed from a description of the struct type
    (\<^verbatim>\<open>internal/schema/metadata.go\<close>, \<^verbatim>\<open>keepitem.go\<close>).
  \<^item> \<open>Invalidation\<close>: \<open>invalidateAffectedQueryCaches\<close> and the cleanup of \<^verbatim>\<open>cache.go\<close>: after a write no cached
    query whose result changed is readable.
  \<^item> \<open>Key_Locker\<close>: the lock managers of \<^verbatim>\<open>internal/cache/locker.go\<close> and \<^verbatim>\<open>cache.go\<close>, and the concurrent write phase as a step
    relation: exclusion, absence of deadlock, termination.
  \<^item> \<open>Sql_Builder\<close>: \<^verbatim>\<open>internal/sqlbuilder/sqlbuilder.go\<close> and the dialects.
  \<^item> \<open>Hooks\<close>: \<^verbatim>\<open>hooks.go\<close>.
  \<^item> \<open>Fetch_Models\<close>, \<open>Crud\<close>: \<^verbatim>\<open>crud.go\<close> and \<^verbatim>\<open>internal/utils/diff.go\<close> over any cache client and any database, a state with the
    methods of \<open>DBAdapter\<close> (\<^verbatim>\<open>interfaces.go\<close>): reads give the rows of the table, writes leave the caches fresh,
    batches are atomic.
  \<^item> \<open>Query_Keys\<close>, \<open>Query_Exec\<close>, \<open>Query_Pages\<close>: cache keys and \<^verbatim>\<open>query.go\<close>: pages, counts, and that every entry is registered.
  \<^item> \<open>Sha256\<close>, \<open>Relations\<close>, \<open>Relation_Loads\<close>: \<^verbatim>\<open>relationships.go\<close>: what the three kinds of relations put into their owners.
  \<^item> \<open>Json_Dsl\<close>: the field selection language of \<^verbatim>\<open>json.go\<close>, the ordered map and the snake case conversion of
    \<^verbatim>\<open>internal/utils\<close>.
  \<^item> \<open>Schema_Sql\<close>: DDL (\<^verbatim>\<open>internal/schema/generate.go\<close>, \<^verbatim>\<open>auto.go\<close>) and \<^verbatim>\<open>migrate.go\<close>.
  \<^item> \<open>Db_Scan\<close>, \<open>Db_Adapters\<close>: rows into structs (\<^verbatim>\<open>internal/dbscan/scan.go\<close>) and the adapters of PostgreSQL, MySQL and SQLite
    (\<^verbatim>\<open>drivers/db\<close>) over \<open>database/sql\<close>: a stored model is scanned back, and the adapters have the rows and transactions the other
    theories assume of a database.
  \<^item> \<open>Introspection\<close>: the three introspectors; on SQLite a second migration does nothing.
  \<^item> \<open>Redis_Client\<close>: the Redis cache (\<^verbatim>\<open>drivers/cache/redis/client.go\<close>) over the commands of a server. It keeps the contract of a
    cache for models, so that reading through it gives the rows of the table; deletion by prefix ends and is exact.
  \<^item> \<open>Json_Output\<close>: \<open>ToJSON\<close> and \<open>serializeValue\<close> of \<^verbatim>\<open>json.go\<close> on values as reflection shows them: which keys are output, and in
    which order.
  \<^item> \<open>Gob_Registry\<close>, \<open>Configuration\<close>: the registration of model types with gob (\<^verbatim>\<open>internal/utils/utils.go\<close>), which ends and reaches every
    named type; logging, \<^verbatim>\<open>config.go\<close> and the constructors of \<^verbatim>\<open>thing.go\<close>.

  \<^bold>\<open>Conventions\<close>

  State is passed explicitly: the record \<open>world\<close> has the cache, the database, the index, the state of the listeners and
  a clock; a panic is the error \<open>Panic\<close>. A Go map is an association list with distinct keys; a loop over one runs in the
  order of the list, so a statement that depends on that order does not hold for all runs and none is made.
  Error texts are constant per place. A model is the flat list of its fields by Go name. Integers of
  machine width wrap (\<open>wrap_int\<close>, \<open>64 word\<close>, \<open>32 word\<close>).

  Loops: where Go loops to a bound the model has the same bound (20 rounds of \<open>_fetch_data\<close>, batches of 100 ids); \<open>Fetch\<close>
  is total by a measure; the unbounded scan of the precise count and the parser of field selections are
  partial functions whose value \<open>None\<close> is a run without end, and their termination, or lack of it, is proved; so is the SCAN
  loop of the Redis client. The registration with gob has fuel: the bound of the ranks plus three for each
  type, and two more, are enough.

  \<^bold>\<open>What comes from outside\<close>

  The database, the join query of a relation and the listeners are parameters. What is assumed of them is
  a named predicate in each theorem (\<open>serves_rows\<close>, \<open>serves_query\<close>, \<open>serves_fk\<close>, \<open>serves_links\<close>), satisfied in the witnesses by a
  database that is a list of rows. Below the adapters it is the handle of \<open>database/sql\<close> that is a parameter (\<open>sql_serves\<close>,
  \<open>sql_isolated\<close>, \<open>lite_catalogue\<close>), and below the Redis client the server and the format of \<open>encoding/gob\<close> (\<open>redis_laws\<close>, \<open>gob_laws\<close>,
  \<open>scan_covers\<close>, \<open>del_exact\<close>).

  \<^bold>\<open>Not modelled\<close>

  The examples; the calls of the logger inside other operations; type declarations without operations. Changes of shared JSON options in place are
  outside the model (the result is \<open>None\<close> there), and so are data races other than those of the write phase.
\<close>

end
